(* ===== verification/Go_Prelude.thy ===== *)
theory Go_Prelude
  imports Main "HOL-Library.Word" "HOL-Library.Monad_Syntax"
begin

text \<open>
  The part of the Go language every component uses: bytes and byte slices, strings,
  slice expressions that may panic, the built-in \<open>copy\<close>, big-endian integers,
  and the contract of an encoder with its decoder.

  A Go expression that can hit a run-time panic (an index or a slice bound out of range)
  has a value of type \<open>'a option\<close>: \<open>None\<close> is the panic. Functions that return
  \<open>(value, error)\<close> return a sum, \<open>Inl\<close> the error and \<open>Inr\<close> the value, so that
  a parser has the type \<open>bytes \<Rightarrow> (error + packet) option\<close> and both ways to fail stay
  visible.
\<close>

section \<open>Types\<close>

type_synonym byte = "8 word"
type_synonym bytes = "byte list"
type_synonym ('e, 'a) go = "('e + 'a) option"

text \<open>
  \<open>go_ret\<close> collects the facts that turn "this monadic expression returned" into its
  parts, \<open>go_bytes\<close> the facts that measure and slice byte strings.
\<close>

named_theorems go_ret \<open>inversion of expressions that return\<close>
named_theorems go_bytes \<open>lengths and slices of byte strings\<close>

section \<open>Slices\<close>

text \<open>
  \<open>b[i]\<close>, \<open>b[i:j]\<close> and \<open>b[i:]\<close>. Go lets the upper bound of a slice expression
  reach up to the capacity, past the length; the model panics as soon as a bound passes the
  length, so that a proof that code does not panic also shows that it never reads the stale
  bytes a reused buffer holds behind the current datagram.
\<close>

definition go_index :: "'a list \<Rightarrow> nat \<Rightarrow> 'a option" where
  "go_index b i = (if i < length b then Some (b ! i) else None)"

definition go_slice :: "'a list \<Rightarrow> nat \<Rightarrow> nat \<Rightarrow> 'a list option" where
  "go_slice b i j = (if i \<le> j \<and> j \<le> length b then Some (take (j - i) (drop i b)) else None)"

definition go_from :: "'a list \<Rightarrow> nat \<Rightarrow> 'a list option" where
  "go_from b i = (if i \<le> length b then Some (drop i b) else None)"

text \<open>\<open>copy(dst[i:], src)\<close>: as many bytes as fit behind offset \<open>i\<close>.\<close>

definition copy_at :: "nat \<Rightarrow> 'a list \<Rightarrow> 'a list \<Rightarrow> 'a list" where
  "copy_at i src dst = take i dst @ take (length dst - i) src @ drop (i + length src) dst"

lemma go_index_ok [simp]: "i < length b \<Longrightarrow> go_index b i = Some (b ! i)"
  by (simp add: go_index_def)

lemma go_slice_ok [simp]:
  "i \<le> j \<Longrightarrow> j \<le> length b \<Longrightarrow> go_slice b i j = Some (take (j - i) (drop i b))"
  by (simp add: go_slice_def)

lemma go_from_ok [simp]: "i \<le> length b \<Longrightarrow> go_from b i = Some (drop i b)"
  by (simp add: go_from_def)

lemma go_index_Some [go_ret]: "go_index b i = Some x \<longleftrightarrow> i < length b \<and> x = b ! i"
  by (auto simp: go_index_def)

lemma go_slice_Some [go_ret]:
  "go_slice b i j = Some x \<longleftrightarrow> i \<le> j \<and> j \<le> length b \<and> x = take (j - i) (drop i b)"
  by (auto simp: go_slice_def)

lemma go_from_Some [go_ret]: "go_from b i = Some x \<longleftrightarrow> i \<le> length b \<and> x = drop i b"
  by (auto simp: go_from_def)

lemma length_copy_at [simp, go_bytes]:
  "i \<le> length dst \<Longrightarrow> length (copy_at i src dst) = length dst"
  by (auto simp: copy_at_def)

text \<open>What a copy leaves where: the source at its offset, everything else untouched.\<close>

lemma nth_copy_at:
  assumes "i + length src \<le> length dst" "k < length dst"
  shows "copy_at i src dst ! k = (if i \<le> k \<and> k < i + length src then src ! (k - i) else dst ! k)"
  using assms by (auto simp: copy_at_def nth_append min_def)

lemma slice_copy_at_same [go_bytes]:
  "i + length src \<le> length dst \<Longrightarrow> take (length src) (drop i (copy_at i src dst)) = src"
  by (simp add: copy_at_def)

lemma slice_copy_at_other [go_bytes]:
  assumes "i + length src \<le> length dst" "k + n \<le> i \<or> i + length src \<le> k" "k + n \<le> length dst"
  shows "take n (drop k (copy_at i src dst)) = take n (drop k dst)"
  using assms by (intro nth_equalityI) (auto simp: nth_copy_at)

section \<open>Strings\<close>

text \<open>
  A Go string is a sequence of bytes, as HOL's \<open>string\<close> is one of 8-bit characters;
  \<open>[]byte(s)\<close> and \<open>string(b)\<close> convert between the two.
\<close>

definition bytes_of :: "string \<Rightarrow> bytes" where
  "bytes_of s = map of_char s"

definition string_of :: "bytes \<Rightarrow> string" where
  "string_of b = map (\<lambda>w. char_of (unat w)) b"

lemma unat_byte_less [simp]: "unat (w :: byte) < 256"
  using unsigned_less [of w] by simp

lemma unat_word16_less [simp]: "unat (w :: 16 word) < 65536"
  using unsigned_less [of w] by simp

lemma of_char_less_256: "(of_char c :: nat) < 256"
  by (cases c) (simp split: if_splits)

lemma unat_of_char [simp]: "unat (of_char c :: byte) = of_char c"
proof -
  have "unat (of_nat (of_char c) :: byte) = of_char c"
    using of_char_less_256 [of c] by (simp add: unat_of_nat)
  then show ?thesis by (simp add: of_nat_of_char)
qed

lemma of_char_char_of_unat [simp]: "(of_char (char_of (unat w)) :: byte) = w"
proof -
  have "(of_char (char_of (unat w)) :: byte) = of_nat (of_char (char_of (unat w)))"
    by (simp only: of_nat_of_char)
  also have "\<dots> = of_nat (unat w mod 256)"
    by simp
  also have "\<dots> = w"
    by simp
  finally show ?thesis .
qed

lemma string_of_bytes_of [simp]: "string_of (bytes_of s) = s"
  by (simp add: string_of_def bytes_of_def comp_def)

lemma bytes_of_string_of [simp]: "bytes_of (string_of b) = b"
  by (simp add: string_of_def bytes_of_def comp_def)

lemma length_bytes_of [simp, go_bytes]: "length (bytes_of s) = length s"
  by (simp add: bytes_of_def)

lemma length_string_of [simp, go_bytes]: "length (string_of b) = length b"
  by (simp add: string_of_def)

lemma bytes_of_append [simp]: "bytes_of (s @ t) = bytes_of s @ bytes_of t"
  by (simp add: bytes_of_def)

lemma bytes_of_Nil [simp]: "bytes_of [] = []"
  by (simp add: bytes_of_def)

lemma bytes_of_Cons: "bytes_of (c # s) = of_char c # bytes_of s"
  by (simp add: bytes_of_def)

lemma bytes_of_inject [simp]: "bytes_of s = bytes_of t \<longleftrightarrow> s = t"
  by (metis string_of_bytes_of)

lemma string_of_append [simp]: "string_of (a @ b) = string_of a @ string_of b"
  by (simp add: string_of_def)

lemma string_of_inject [simp]: "string_of a = string_of b \<longleftrightarrow> a = b"
  by (metis bytes_of_string_of)

section \<open>Big-endian integers\<close>

text \<open>\<open>binary.BigEndian.Uint16\<close> and \<open>PutUint16\<close>.\<close>

definition be_uint16 :: "bytes \<Rightarrow> 16 word option" where
  "be_uint16 b = (case b of hi # lo # _ \<Rightarrow> Some (of_nat (unat hi * 256 + unat lo)) | _ \<Rightarrow> None)"

definition be_put16 :: "16 word \<Rightarrow> bytes" where
  "be_put16 v = [of_nat (unat v div 256), of_nat (unat v mod 256)]"

lemma length_be_put16 [simp, go_bytes]: "length (be_put16 v) = 2"
  by (simp add: be_put16_def)

lemma unat_of_nat16: "n < 65536 \<Longrightarrow> unat (of_nat n :: 16 word) = n"
  by (simp add: unat_of_nat)

lemma unat_of_nat8: "n < 256 \<Longrightarrow> unat (of_nat n :: byte) = n"
  by (simp add: unat_of_nat)

lemma be_uint16_unat:
  "be_uint16 (hi # lo # r) = Some v \<longleftrightarrow> unat v = unat hi * 256 + unat lo"
proof -
  have "unat hi * 256 + unat lo < 65536"
    using unat_byte_less [of hi] unat_byte_less [of lo] by linarith
  then have "unat (of_nat (unat hi * 256 + unat lo) :: 16 word) = unat hi * 256 + unat lo"
    by (rule unat_of_nat16)
  then show ?thesis
    by (auto simp: be_uint16_def word_unat_eq_iff simp del: of_nat_add of_nat_mult)
qed

lemma be_uint16_put16 [simp]: "be_uint16 (be_put16 v @ rest) = Some v"
proof -
  have "unat v div 256 < 256"
    using unat_word16_less [of v] by linarith
  then show ?thesis
    by (simp add: be_put16_def be_uint16_unat unat_of_nat8)
qed

lemma be_uint16_None [simp]: "be_uint16 b = None \<longleftrightarrow> length b < 2"
  by (auto simp: be_uint16_def split: list.splits)

section \<open>Encoders and decoders\<close>

text \<open>
  The contract of an encoder with its decoder on a set of values: what was encoded decodes
  to itself. Every textual or binary format of the program is an instance.
\<close>

locale codec =
  fixes enc :: "'a \<Rightarrow> 'b"
    and dec :: "'b \<Rightarrow> 'a option"
    and valid :: "'a \<Rightarrow> bool"
  assumes dec_enc: "valid x \<Longrightarrow> dec (enc x) = Some x"
begin

lemma enc_inj: "valid x \<Longrightarrow> valid y \<Longrightarrow> enc x = enc y \<longleftrightarrow> x = y"
  by (metis dec_enc option.inject)

lemma enc_list_inj:
  "list_all valid xs \<Longrightarrow> list_all valid ys \<Longrightarrow> map enc xs = map enc ys \<longleftrightarrow> xs = ys"
  by (auto simp: list_all_iff enc_inj intro!: map_inj_on [of enc] inj_onI)

end

interpretation be16: codec be_put16 be_uint16 "\<lambda>_. True"
  using be_uint16_put16 [where rest = "[]"] by unfold_locales simp

end
