(* ===== verification/Go_Text.thy ===== *)
theory Go_Text
  imports Go_Prelude
begin

text \<open>
  The text functions of Go's standard library that pixiecore calls: \<open>strconv.Itoa\<close> and
  \<open>Atoi\<close> (also the verb \<open>%d\<close>), \<open>strings.HasPrefix\<close>, \<open>HasSuffix\<close>, \<open>Split\<close>,
  \<open>Join\<close> and \<open>Replace\<close> with one-character separators, \<open>path/filepath.Base\<close>, and
  hexadecimal digits. The two number functions form a codec on the range of a 64-bit
  \<open>int\<close>.
\<close>

section \<open>Decimal numbers\<close>

definition digit_char :: "nat \<Rightarrow> char" where
  "digit_char d = char_of (48 + d)"

definition digit_val :: "char \<Rightarrow> nat option" where
  "digit_val c = (let n = (of_char c :: nat) in if 48 \<le> n \<and> n \<le> 57 then Some (n - 48) else None)"

fun dec_nat :: "nat \<Rightarrow> string" where
  "dec_nat n = (if n < 10 then [digit_char n] else dec_nat (n div 10) @ [digit_char (n mod 10)])"

declare dec_nat.simps [simp del]

definition itoa :: "int \<Rightarrow> string" where
  "itoa i = (if i < 0 then CHR ''-'' # dec_nat (nat (- i)) else dec_nat (nat i))"

fun dec_digits :: "nat \<Rightarrow> string \<Rightarrow> nat option" where
  "dec_digits acc [] = Some acc"
| "dec_digits acc (c # cs) =
     (case digit_val c of None \<Rightarrow> None | Some d \<Rightarrow> dec_digits (10 * acc + d) cs)"

text \<open>\<open>Atoi\<close>: an optional sign, at least one digit, only digits, and a value that fits
  an \<open>int\<close>. Which of the two errors it returns is never looked at.\<close>

definition int64_range :: "int \<Rightarrow> bool" where
  "int64_range i \<longleftrightarrow> - (2 ^ 63) \<le> i \<and> i < 2 ^ 63"

definition atoi_sign :: "string \<Rightarrow> bool \<times> string" where
  "atoi_sign s = (case s of [] \<Rightarrow> (False, [])
     | c # cs \<Rightarrow> if c = CHR ''-'' then (True, cs) else if c = CHR ''+'' then (False, cs)
                else (False, s))"

definition atoi :: "string \<Rightarrow> int option" where
  "atoi s = (case atoi_sign s of (neg, ds) \<Rightarrow>
     if ds = [] then None
     else case dec_digits 0 ds of None \<Rightarrow> None
       | Some n \<Rightarrow> let i = (if neg then - int n else int n) in
           if int64_range i then Some i else None)"

lemma digit_val_char [simp]: "d < 10 \<Longrightarrow> digit_val (digit_char d) = Some d"
  by (simp add: digit_val_def digit_char_def)

lemma dec_nat_ne [simp]: "dec_nat n \<noteq> []"
  by (subst dec_nat.simps) simp

lemma dec_digits_append:
  "dec_digits acc (s @ t) = Option.bind (dec_digits acc s) (\<lambda>n. dec_digits n t)"
  by (induction s arbitrary: acc) (auto split: option.splits)

lemma dec_digits_dec_nat [simp]: "dec_digits 0 (dec_nat n) = Some n"
proof (induction n rule: dec_nat.induct)
  case (1 n)
  then show ?case
    by (subst dec_nat.simps) (auto simp: dec_digits_append)
qed

lemma dec_nat_digits: "c \<in> set (dec_nat n) \<Longrightarrow> \<exists>d<10. c = digit_char d"
proof (induction n rule: dec_nat.induct)
  case (1 n)
  show ?case
  proof (cases "n < 10")
    case True
    with "1.prems" show ?thesis by (subst (asm) dec_nat.simps) auto
  next
    case False
    with "1.prems" have "c \<in> set (dec_nat (n div 10)) \<or> c = digit_char (n mod 10)"
      by (subst (asm) dec_nat.simps) auto
    moreover have "n mod 10 < 10" by simp
    ultimately show ?thesis using "1.IH" False by blast
  qed
qed

lemma digit_char_code: "d < 10 \<Longrightarrow> (of_char (digit_char d) :: nat) = 48 + d"
  by (simp add: digit_char_def)

lemma dec_nat_hd: "d < 10 \<Longrightarrow> digit_char d \<noteq> CHR ''-'' \<and> digit_char d \<noteq> CHR ''+''"
  by (auto dest: arg_cong [where f = "of_char :: char \<Rightarrow> nat"] simp: digit_char_code)

lemma atoi_sign_dec_nat [simp]: "atoi_sign (dec_nat n) = (False, dec_nat n)"
proof -
  obtain c cs where "dec_nat n = c # cs" by (cases "dec_nat n") auto
  moreover from this obtain d where "d < 10" "c = digit_char d"
    using dec_nat_digits [of c n] by auto
  ultimately show ?thesis using dec_nat_hd [of d] by (simp add: atoi_sign_def)
qed

lemma atoi_sign_minus [simp]: "atoi_sign (CHR ''-'' # s) = (True, s)"
  by (simp add: atoi_sign_def)

lemma atoi_itoa [simp]: "int64_range i \<Longrightarrow> atoi (itoa i) = Some i"
  by (simp add: itoa_def atoi_def)

interpretation decimal: codec itoa atoi int64_range
  by unfold_locales simp

lemma atoi_range: "atoi s = Some i \<Longrightarrow> int64_range i"
  by (auto simp: atoi_def Let_def split: prod.splits if_splits option.splits)

text \<open>Decimal text never contains a character outside the digits and the sign.\<close>

lemma itoa_chars: "c \<in> set (itoa i) \<Longrightarrow> c = CHR ''-'' \<or> (\<exists>d<10. c = digit_char d)"
  by (auto simp: itoa_def split: if_splits dest: dec_nat_digits)

lemma itoa_ne [simp]: "itoa i \<noteq> []"
  by (simp add: itoa_def)

lemma length_dec_nat_le: "n < 10 ^ Suc k \<Longrightarrow> length (dec_nat n) \<le> Suc k"
proof (induction k arbitrary: n)
  case 0
  then show ?case by (subst dec_nat.simps) simp
next
  case (Suc k)
  show ?case
  proof (cases "n < 10")
    case True
    then show ?thesis by (subst dec_nat.simps) simp
  next
    case False
    have "n div 10 < 10 ^ Suc k" using Suc.prems by (simp add: less_mult_imp_div_less)
    then have "length (dec_nat (n div 10)) \<le> Suc k" by (rule Suc.IH)
    with False show ?thesis by (subst dec_nat.simps) simp
  qed
qed

lemma length_itoa_int64: "int64_range i \<Longrightarrow> length (itoa i) \<le> 20"
proof -
  assume "int64_range i"
  then have "nat \<bar>i\<bar> < 10 ^ Suc 18"
    by (auto simp: int64_range_def nat_less_iff)
  then have "length (dec_nat (nat \<bar>i\<bar>)) \<le> 19" using length_dec_nat_le [of "nat \<bar>i\<bar>" 18] by simp
  then show ?thesis by (auto simp: itoa_def abs_if split: if_splits)
qed

section \<open>Prefixes, separators, paths\<close>

definition has_prefix :: "string \<Rightarrow> string \<Rightarrow> bool" where
  "has_prefix s p \<longleftrightarrow> take (length p) s = p"

definition has_suffix :: "string \<Rightarrow> string \<Rightarrow> bool" where
  "has_suffix s p \<longleftrightarrow> length p \<le> length s \<and> drop (length s - length p) s = p"

fun split_on :: "char \<Rightarrow> string \<Rightarrow> string list" where
  "split_on c [] = [[]]"
| "split_on c (x # xs) =
     (if x = c then [] # split_on c xs
      else case split_on c xs of [] \<Rightarrow> [[x]] | s # ss \<Rightarrow> (x # s) # ss)"

fun join_with :: "string \<Rightarrow> string list \<Rightarrow> string" where
  "join_with sep [] = []"
| "join_with sep [s] = s"
| "join_with sep (s # t # ss) = s @ sep @ join_with sep (t # ss)"

definition replace_char :: "char \<Rightarrow> string \<Rightarrow> string \<Rightarrow> string" where
  "replace_char c r s = concat (map (\<lambda>x. if x = c then r else [x]) s)"

text \<open>\<open>filepath.Base\<close>: trailing slashes are stripped, then the last element is taken.\<close>

definition filepath_base :: "string \<Rightarrow> string" where
  "filepath_base p =
     (if p = [] then ''.''
      else let q = rev (dropWhile (\<lambda>c. c = CHR ''/'') (rev p));
               e = rev (takeWhile (\<lambda>c. c \<noteq> CHR ''/'') (rev q))
           in if e = [] then ''/'' else e)"

lemma has_prefix_append [simp]: "has_prefix (p @ s) p"
  by (simp add: has_prefix_def)

lemma has_prefixE: "has_prefix s p \<Longrightarrow> \<exists>t. s = p @ t"
  by (metis append_take_drop_id has_prefix_def)

lemma split_on_ne [simp]: "split_on c s \<noteq> []"
  by (cases s) (auto split: list.splits)

lemma join_split_on: "join_with [c] (split_on c s) = s"
proof (induction s)
  case Nil
  then show ?case by simp
next
  case (Cons x xs)
  obtain t ts where "split_on c xs = t # ts" by (cases "split_on c xs") auto
  with Cons.IH show ?case by (cases ts) auto
qed

lemma split_on_no_sep: "t \<in> set (split_on c s) \<Longrightarrow> c \<notin> set t"
proof (induction s arbitrary: t)
  case Nil
  then show ?case by simp
next
  case (Cons x xs)
  obtain u us where "split_on c xs = u # us" by (cases "split_on c xs") auto
  with Cons show ?case by (auto split: if_splits)
qed

lemma split_on_word [simp]: "c \<notin> set s \<Longrightarrow> split_on c s = [s]"
  by (induction s) auto

lemma split_on_append: "c \<notin> set s \<Longrightarrow> split_on c (s @ c # t) = s # split_on c t"
  by (induction s) auto

lemma split_join:
  "ss \<noteq> [] \<Longrightarrow> \<forall>s\<in>set ss. c \<notin> set s \<Longrightarrow> split_on c (join_with [c] ss) = ss"
  by (induction "[c]" ss rule: join_with.induct) (auto simp: split_on_append)

lemma filepath_base_last:
  assumes "e \<noteq> []" "CHR ''/'' \<notin> set e"
  shows "filepath_base (dir @ CHR ''/'' # e) = e"
proof -
  have "dropWhile (\<lambda>c. c = CHR ''/'') (rev e @ CHR ''/'' # rev dir) = rev e @ CHR ''/'' # rev dir"
    using assms by (cases e rule: rev_cases) auto
  moreover have "takeWhile (\<lambda>c. c \<noteq> CHR ''/'') (rev e @ CHR ''/'' # rev dir) = rev e"
    using assms by (subst takeWhile_append2) auto
  ultimately show ?thesis
    using assms by (simp add: filepath_base_def)
qed

lemma filepath_base_no_slash: "filepath_base p \<noteq> ''/'' \<Longrightarrow> CHR ''/'' \<notin> set (filepath_base p)"
  by (auto simp: filepath_base_def Let_def dest: set_takeWhileD split: if_splits)

section \<open>Hexadecimal digits\<close>

definition hex_char :: "nat \<Rightarrow> char" where
  "hex_char d = (if d < 10 then char_of (48 + d) else char_of (87 + d))"

definition hex_val :: "char \<Rightarrow> nat option" where
  "hex_val c = (let n = (of_char c :: nat) in
     if 48 \<le> n \<and> n \<le> 57 then Some (n - 48)
     else if 97 \<le> n \<and> n \<le> 102 then Some (n - 87)
     else if 65 \<le> n \<and> n \<le> 70 then Some (n - 55)
     else None)"

lemma hex_val_char [simp]: "d < 16 \<Longrightarrow> hex_val (hex_char d) = Some d"
  by (simp add: hex_val_def hex_char_def Let_def)

lemma hex_char_code: "d < 16 \<Longrightarrow> (of_char (hex_char d) :: nat) = (if d < 10 then 48 + d else 87 + d)"
  by (simp add: hex_char_def)

end
