(* ===== verification/Go_Net.thy ===== *)
theory Go_Net
  imports Go_Text
begin

unbundle bit_operations_syntax

text \<open>
  The part of Go's package \<open>net\<close> that pixiecore calls: \<open>net.IP\<close> with its 4- and
  16-byte forms and the address classes, \<open>net.HardwareAddr\<close> with its textual form, and
  \<open>net.ParseMAC\<close>. Printing and parsing a MAC address form a codec.
\<close>

type_synonym ip = bytes
type_synonym mac = bytes

record udp_addr =
  addr_ip :: ip
  addr_port :: int

section \<open>IP addresses\<close>

definition v4_in_v6_prefix :: bytes where
  "v4_in_v6_prefix = replicate 10 0 @ [255, 255]"

definition to4 :: "ip \<Rightarrow> ip option" where
  "to4 i = (if length i = 4 then Some i
            else if length i = 16 \<and> take 12 i = v4_in_v6_prefix then Some (drop 12 i)
            else None)"

definition ipv4 :: "byte \<Rightarrow> byte \<Rightarrow> byte \<Rightarrow> byte \<Rightarrow> ip" where
  "ipv4 a b c d = v4_in_v6_prefix @ [a, b, c, d]"

definition IPv4bcast :: ip where
  "IPv4bcast = ipv4 255 255 255 255"

definition ip_equal :: "ip \<Rightarrow> ip \<Rightarrow> bool" where
  "ip_equal i j \<longleftrightarrow>
     (if length i = length j then i = j
      else if length i = 4 \<and> length j = 16 then v4_in_v6_prefix @ i = j
      else if length i = 16 \<and> length j = 4 then i = v4_in_v6_prefix @ j
      else False)"

definition is_unspecified :: "ip \<Rightarrow> bool" where
  "is_unspecified i \<longleftrightarrow> ip_equal i (ipv4 0 0 0 0) \<or> ip_equal i (replicate 16 0)"

definition is_loopback :: "ip \<Rightarrow> bool" where
  "is_loopback i \<longleftrightarrow> (case to4 i of
      Some q \<Rightarrow> q ! 0 = 127
    | None \<Rightarrow> ip_equal i (replicate 15 0 @ [1]))"

definition is_multicast :: "ip \<Rightarrow> bool" where
  "is_multicast i \<longleftrightarrow> (case to4 i of
      Some q \<Rightarrow> q ! 0 AND 240 = 224
    | None \<Rightarrow> length i = 16 \<and> i ! 0 = 255)"

definition is_link_local_unicast :: "ip \<Rightarrow> bool" where
  "is_link_local_unicast i \<longleftrightarrow> (case to4 i of
      Some q \<Rightarrow> q ! 0 = 169 \<and> q ! 1 = 254
    | None \<Rightarrow> length i = 16 \<and> i ! 0 = 254 \<and> i ! 1 AND 192 = 128)"

definition is_global_unicast :: "ip \<Rightarrow> bool" where
  "is_global_unicast i \<longleftrightarrow>
     (length i = 4 \<or> length i = 16) \<and> \<not> ip_equal i IPv4bcast \<and> \<not> is_unspecified i \<and>
     \<not> is_loopback i \<and> \<not> is_multicast i \<and> \<not> is_link_local_unicast i"

text \<open>The verb \<open>%s\<close> on an address: dotted decimal for an IPv4 address, \<open>?\<close> and the
  bytes in hexadecimal for a length that is no address. Every address pixiecore prints has
  4 bytes; the text of a proper IPv6 address is not modelled.\<close>

definition hex_byte :: "byte \<Rightarrow> string" where
  "hex_byte b = [hex_char (unat b div 16), hex_char (unat b mod 16)]"

definition ip_string :: "ip \<Rightarrow> string" where
  "ip_string i =
     (if i = [] then ''<nil>''
      else case to4 i of
        Some q \<Rightarrow> join_with ''.'' (map (\<lambda>b. dec_nat (unat b)) q)
      | None \<Rightarrow> CHR ''?'' # concat (map hex_byte i))"

lemma length_to4: "to4 i = Some q \<Longrightarrow> length q = 4"
  by (auto simp: to4_def split: if_splits)

lemma to4_4 [simp]: "length i = 4 \<Longrightarrow> to4 i = Some i"
  by (simp add: to4_def)

lemma to4_ipv4 [simp]: "to4 (ipv4 a b c d) = Some [a, b, c, d]"
  by (simp add: to4_def ipv4_def v4_in_v6_prefix_def)

lemma to4_idem: "to4 i = Some q \<Longrightarrow> to4 q = Some q"
  by (simp add: length_to4)

lemma list4_split: "length q = 4 \<Longrightarrow> q = [q ! 0, q ! 1, q ! 2, q ! 3]"
  by (auto simp: numeral_eq_Suc length_Suc_conv)

text \<open>On IPv4 addresses the three classes pixiecore asks for exclude each other, and
  together with the unusable addresses they cover everything.\<close>

definition is_unusable :: "ip \<Rightarrow> bool" where
  "is_unusable i \<longleftrightarrow> ip_equal i IPv4bcast \<or> is_unspecified i \<or> is_multicast i"

lemma multicast_first:
  assumes "length q = 4"
  shows "is_multicast q \<longleftrightarrow> q ! 0 AND 240 = 224"
  using assms by (simp add: is_multicast_def)

lemma usable_classes_disjoint:
  assumes "length q = 4"
  shows "\<not> (is_link_local_unicast q \<and> is_loopback q)"
    and "is_global_unicast q \<Longrightarrow> \<not> is_link_local_unicast q \<and> \<not> is_loopback q \<and> \<not> is_unusable q"
  using assms
  by (auto simp: is_link_local_unicast_def is_loopback_def is_global_unicast_def is_unusable_def)

lemma ip_equal_ipv4: "length q = 4 \<Longrightarrow> ip_equal q (ipv4 a b c d) \<longleftrightarrow> q = [a, b, c, d]"
  by (simp add: ip_equal_def ipv4_def v4_in_v6_prefix_def)

lemma ip_equal_v6zero: "length q = 4 \<Longrightarrow> \<not> ip_equal q (replicate 16 0)"
  by (auto simp: ip_equal_def v4_in_v6_prefix_def dest: arg_cong [where f = "\<lambda>b. b ! 10"]
      simp: nth_append)

lemma usable_not_unusable:
  assumes "length q = 4" "is_link_local_unicast q \<or> is_loopback q"
  shows "\<not> is_unusable q"
proof -
  have "q ! 0 = 169 \<or> q ! 0 = 127"
    using assms by (auto simp: is_link_local_unicast_def is_loopback_def)
  then have "q \<noteq> [255, 255, 255, 255]" "q \<noteq> [0, 0, 0, 0]" "q ! 0 AND 240 \<noteq> 224"
    by auto
  then show ?thesis
    using assms(1)
    by (simp add: is_unusable_def is_unspecified_def IPv4bcast_def ip_equal_ipv4 ip_equal_v6zero
        multicast_first)
qed

lemma address_classes_cover:
  assumes "length q = 4"
  shows "is_global_unicast q \<or> is_link_local_unicast q \<or> is_loopback q \<or> is_unusable q"
  using assms by (auto simp: is_global_unicast_def is_unusable_def)

section \<open>Hardware addresses\<close>

text \<open>\<open>HardwareAddr.String\<close> (the verb \<open>%s\<close>), and the same bytes with another
  separator, as PXELINUX writes them into the name of its configuration file.\<close>

definition hw_format :: "char \<Rightarrow> mac \<Rightarrow> string" where
  "hw_format sep a = join_with [sep] (map hex_byte a)"

abbreviation hw_string :: "mac \<Rightarrow> string" where
  "hw_string \<equiv> hw_format CHR '':''"

text \<open>\<open>net.ParseMAC\<close>: 6, 8 or 20 bytes, as pairs separated by colons or dashes, or as
  groups of four digits separated by dots.\<close>

definition xtoi2 :: "string \<Rightarrow> char \<Rightarrow> byte option" where
  "xtoi2 s e =
     (if length s > 2 \<and> s ! 2 \<noteq> e then None
      else case s of
        a # b # _ \<Rightarrow> (case (hex_val a, hex_val b) of
            (Some x, Some y) \<Rightarrow> Some (of_nat (16 * x + y))
          | _ \<Rightarrow> None)
      | _ \<Rightarrow> None)"

fun mac_pairs :: "char \<Rightarrow> nat \<Rightarrow> string \<Rightarrow> bytes option" where
  "mac_pairs sep 0 s = Some []"
| "mac_pairs sep (Suc n) s = do {
     b \<leftarrow> xtoi2 s sep;
     bs \<leftarrow> mac_pairs sep n (drop 3 s);
     Some (b # bs)
   }"

fun mac_quads :: "char \<Rightarrow> nat \<Rightarrow> string \<Rightarrow> bytes option" where
  "mac_quads sep 0 s = Some []"
| "mac_quads sep (Suc n) s = do {
     b \<leftarrow> xtoi2 (take 2 s) CHR 0x00;
     c \<leftarrow> xtoi2 (drop 2 s) sep;
     bs \<leftarrow> mac_quads sep n (drop 5 s);
     Some (b # c # bs)
   }"

definition parse_mac :: "string \<Rightarrow> mac option" where
  "parse_mac s =
     (if length s < 14 then None
      else if s ! 2 = CHR '':'' \<or> s ! 2 = CHR ''-'' then
        (if (length s + 1) mod 3 \<noteq> 0 then None
         else let n = (length s + 1) div 3 in
           if n \<noteq> 6 \<and> n \<noteq> 8 \<and> n \<noteq> 20 then None else mac_pairs (s ! 2) n s)
      else if s ! 4 = CHR ''.'' then
        (if (length s + 1) mod 5 \<noteq> 0 then None
         else let n = 2 * (length s + 1) div 5 in
           if n \<noteq> 6 \<and> n \<noteq> 8 \<and> n \<noteq> 20 then None else mac_quads (s ! 4) (n div 2) s)
      else None)"

definition valid_mac :: "mac \<Rightarrow> bool" where
  "valid_mac a \<longleftrightarrow> length a = 6 \<or> length a = 8 \<or> length a = 20"

lemma length_hex_byte [simp]: "length (hex_byte b) = 2"
  by (simp add: hex_byte_def)

lemma byte_nibbles: "(of_nat (16 * (unat b div 16) + unat b mod 16) :: byte) = b"
  by simp

lemma xtoi2_hex_byte [simp]:
  "xtoi2 (hex_byte b) e = Some b" "xtoi2 (hex_byte b @ e # s) e = Some b"
proof -
  have "unat b div 16 < 16" "unat b mod 16 < 16"
    using unat_byte_less [of b] by linarith+
  then show "xtoi2 (hex_byte b) e = Some b" "xtoi2 (hex_byte b @ e # s) e = Some b"
    by (simp_all add: xtoi2_def hex_byte_def byte_nibbles del: of_nat_add of_nat_mult)
qed

lemma hw_format_Cons:
  "hw_format sep (b # c # bs) = hex_byte b @ sep # hw_format sep (c # bs)"
  by (simp add: hw_format_def)

lemma length_hw_format: "a \<noteq> [] \<Longrightarrow> length (hw_format sep a) + 1 = 3 * length a"
  by (induction a rule: induct_list012) (auto simp: hw_format_Cons hw_format_def)

lemma mac_pairs_hw_format: "mac_pairs sep (length a) (hw_format sep a) = Some a"
proof (induction a rule: induct_list012)
  case 1
  then show ?case by (simp add: hw_format_def)
next
  case (2 b)
  then show ?case by (simp add: hw_format_def)
next
  case (3 b c bs)
  have "drop 3 (hw_format sep (b # c # bs)) = hw_format sep (c # bs)"
    by (simp add: hw_format_Cons hex_byte_def)
  with "3.IH"(2) show ?case
    by (simp add: hw_format_Cons)
qed

lemma parse_mac_hw_format:
  assumes "valid_mac a" "sep = CHR '':'' \<or> sep = CHR ''-''"
  shows "parse_mac (hw_format sep a) = Some a"
proof -
  have len: "length (hw_format sep a) + 1 = 3 * length a"
    using assms(1) by (intro length_hw_format) (auto simp: valid_mac_def)
  obtain b c bs where a: "a = b # c # bs"
    using assms(1) by (cases a; cases "tl a") (auto simp: valid_mac_def)
  have "hw_format sep a ! 2 = sep"
    by (simp add: a hw_format_Cons hex_byte_def)
  with len assms show ?thesis
    using mac_pairs_hw_format [of sep a]
    by (auto simp: parse_mac_def valid_mac_def)
qed

interpretation hwaddr: codec hw_string parse_mac valid_mac
  by unfold_locales (simp add: parse_mac_hw_format)

lemma length_mac_pairs: "mac_pairs sep n s = Some a \<Longrightarrow> length a = n"
  by (induction n arbitrary: s a) (auto simp: bind_eq_Some_conv)

lemma length_mac_quads: "mac_quads sep n s = Some a \<Longrightarrow> length a = 2 * n"
  by (induction n arbitrary: s a) (auto simp: bind_eq_Some_conv)

lemma parse_mac_valid: "parse_mac s = Some a \<Longrightarrow> valid_mac a"
  by (auto simp: parse_mac_def Let_def valid_mac_def
      dest!: length_mac_pairs length_mac_quads split: if_splits)

text \<open>The characters of a formatted address: digits, letters and the separator.\<close>

lemma hex_char_neq: "d < 16 \<Longrightarrow> (of_char c :: nat) < 48 \<Longrightarrow> hex_char d \<noteq> c"
  by (auto simp: hex_char_code split: if_splits dest: arg_cong [where f = "of_char :: char \<Rightarrow> nat"])

lemma hex_byte_plain: "(of_char c :: nat) < 48 \<Longrightarrow> c \<notin> set (hex_byte b)"
  using hex_char_neq [of "unat b div 16" c] hex_char_neq [of "unat b mod 16" c]
    less_mult_imp_div_less [of "unat b" 16 16] unat_byte_less [of b]
  by (auto simp: hex_byte_def simp del: unat_byte_less)

lemma join_with_set: "c \<in> set (join_with sep ss) \<Longrightarrow> c \<in> set sep \<or> (\<exists>s\<in>set ss. c \<in> set s)"
  by (induction sep ss rule: join_with.induct) auto

lemma hw_format_plain: "(of_char c :: nat) < 48 \<Longrightarrow> c \<noteq> sep \<Longrightarrow> c \<notin> set (hw_format sep m)"
  using join_with_set [of c "[sep]" "map hex_byte m"] hex_byte_plain [of c]
  by (auto simp: hw_format_def)

end
