(* ===== verification/Dhcp_Options.thy ===== *)
theory Dhcp_Options
  imports Go_Net
begin

text \<open>
  The option field of a DHCP packet: \<open>DhcpOption\<close> of \<open>src/dhcp/dhcp.go\<close>, which takes
  the first option off the field, and the list of all options it yields. The locale states
  what the two parsers rely on: the reader always returns, it consumes input, and it reads
  back what an encoder wrote.
\<close>

definition DhcpOption :: "bytes \<Rightarrow> (byte \<times> bytes \<times> bytes) option" where
  "DhcpOption b =
     (if length b < 2 then Some (255, [], [])
      else do {
        t \<leftarrow> go_index b 0;
        if t = 255 then Some (255, [], [])
        else do {
          n \<leftarrow> go_index b 1;
          let l = unat n;
          if length b < l + 2 then Some (255, [], [])
          else do {
            v \<leftarrow> go_slice b 2 (2 + l);
            r \<leftarrow> go_from b (2 + l);
            Some (t, v, r)
          }
        }
      })"

lemma DhcpOption_eq:
  "DhcpOption b =
     Some (if length b < 2 \<or> b ! 0 = 255 \<or> length b < unat (b ! 1) + 2 then (255, [], [])
           else (b ! 0, take (unat (b ! 1)) (drop 2 b), drop (2 + unat (b ! 1)) b))"
  by (auto simp: DhcpOption_def go_index_def go_slice_def go_from_def Let_def)

lemma DhcpOption_returns: "\<exists>t v r. DhcpOption b = Some (t, v, r)"
  by (simp add: DhcpOption_eq split: if_splits)

lemma DhcpOption_consumes:
  "DhcpOption b = Some (t, v, r) \<Longrightarrow> t \<noteq> 255 \<Longrightarrow>
     b = t # of_nat (length v) # v @ r \<and> length v < 256"
  by (cases b; cases "tl b") (auto simp: DhcpOption_eq split: if_splits)

lemma DhcpOption_shorter:
  "DhcpOption b = Some (t, v, r) \<Longrightarrow> t \<noteq> 255 \<Longrightarrow> length r < length b"
  by (drule (1) DhcpOption_consumes) auto

text \<open>All options of a field, in order, up to the end marker, the end of the field or the
  first option that is cut short.\<close>

function dhcp_options :: "bytes \<Rightarrow> (byte \<times> bytes) list" where
  "dhcp_options b = (case DhcpOption b of
      None \<Rightarrow> []
    | Some (t, v, r) \<Rightarrow> if t = 255 then [] else (t, v) # dhcp_options r)"
  by pat_completeness auto
termination
  by (relation "measure length") (auto intro: DhcpOption_shorter)

declare dhcp_options.simps [simp del]

text \<open>How an option is written, and which options can be written.\<close>

definition enc_opt :: "byte \<times> bytes \<Rightarrow> bytes" where
  "enc_opt tv = fst tv # of_nat (length (snd tv)) # snd tv"

definition wf_opt :: "byte \<times> bytes \<Rightarrow> bool" where
  "wf_opt tv \<longleftrightarrow> fst tv \<noteq> 255 \<and> length (snd tv) < 256"

definition enc_opts :: "(byte \<times> bytes) list \<Rightarrow> bytes" where
  "enc_opts os = concat (map enc_opt os)"

lemma enc_opts_simps [simp]:
  "enc_opts [] = []" "enc_opts (x # xs) = enc_opt x @ enc_opts xs"
  "enc_opts (xs @ ys) = enc_opts xs @ enc_opts ys"
  by (simp_all add: enc_opts_def)

locale option_stream =
  fixes nxt :: "bytes \<Rightarrow> (byte \<times> bytes \<times> bytes) option"
    and opts :: "bytes \<Rightarrow> (byte \<times> bytes) list"
  assumes nxt_returns: "\<exists>t v r. nxt b = Some (t, v, r)"
    and nxt_consumes: "nxt b = Some (t, v, r) \<Longrightarrow> t \<noteq> 255 \<Longrightarrow>
           b = enc_opt (t, v) @ r \<and> wf_opt (t, v)"
    and nxt_enc: "wf_opt x \<Longrightarrow> nxt (enc_opt x @ r) = Some (fst x, snd x, r)"
    and nxt_stop: "length b < 2 \<or> hd b = 255 \<Longrightarrow> nxt b = Some (255, [], [])"
    and opts_unfold: "nxt b = Some (t, v, r) \<Longrightarrow>
           opts b = (if t = 255 then [] else (t, v) # opts r)"
begin

lemma nxt_shorter: "nxt b = Some (t, v, r) \<Longrightarrow> t \<noteq> 255 \<Longrightarrow> length r < length b"
  by (drule (1) nxt_consumes) (auto simp: enc_opt_def)

lemma opts_enc: "wf_opt x \<Longrightarrow> opts (enc_opt x @ r) = x # opts r"
  using opts_unfold [OF nxt_enc] by (auto simp: wf_opt_def)

lemma opts_stop: "length b < 2 \<or> hd b = 255 \<Longrightarrow> opts b = []"
  using opts_unfold [OF nxt_stop] by auto

lemma opts_enc_opts: "list_all wf_opt xs \<Longrightarrow> opts (enc_opts xs @ r) = xs @ opts r"
  by (induction xs) (auto simp: opts_enc)

text \<open>A field that was written from well-formed options and ends with the end marker, or
  with the packet, reads back as those options, whatever follows the marker.\<close>

lemma opts_roundtrip:
  "list_all wf_opt xs \<Longrightarrow> opts (enc_opts xs @ 255 # junk) = xs"
  "list_all wf_opt xs \<Longrightarrow> opts (enc_opts xs) = xs"
  using opts_enc_opts [of xs "255 # junk"] opts_enc_opts [of xs "[]"]
  by (auto simp: opts_stop)

text \<open>Every option that is read is well formed and was in the field.\<close>

lemma opts_prefix: "\<exists>r. b = enc_opts (opts b) @ r \<and> list_all wf_opt (opts b)"
proof (induction b rule: length_induct)
  case (1 b)
  obtain t v r where nxt: "nxt b = Some (t, v, r)" using nxt_returns by blast
  show ?case
  proof (cases "t = 255")
    case True
    then show ?thesis using opts_unfold [OF nxt] by simp
  next
    case False
    then obtain r' where "r = enc_opts (opts r) @ r'" "list_all wf_opt (opts r)"
      using 1 nxt_shorter [OF nxt] by blast
    then show ?thesis
      using False opts_unfold [OF nxt] nxt_consumes [OF nxt] by auto
  qed
qed

lemma opts_wf: "x \<in> set (opts b) \<Longrightarrow> wf_opt x"
  using opts_prefix [of b] by (auto simp: list_all_iff)

lemma opts_length: "length (enc_opts (opts b)) \<le> length b"
  using opts_prefix [of b] by (metis le_add1 length_append)

end

interpretation dopt: option_stream DhcpOption dhcp_options
proof unfold_locales
  fix b t v r
  show "\<exists>t v r. DhcpOption b = Some (t, v, r)"
    by (rule DhcpOption_returns)
  show "DhcpOption b = Some (t, v, r) \<Longrightarrow> t \<noteq> 255 \<Longrightarrow> b = enc_opt (t, v) @ r \<and> wf_opt (t, v)"
    by (drule (1) DhcpOption_consumes) (auto simp: enc_opt_def wf_opt_def)
  show "length b < 2 \<or> hd b = 255 \<Longrightarrow> DhcpOption b = Some (255, [], [])"
    by (cases b) (auto simp: DhcpOption_eq)
  show "DhcpOption b = Some (t, v, r) \<Longrightarrow>
      dhcp_options b = (if t = 255 then [] else (t, v) # dhcp_options r)"
    by (subst dhcp_options.simps) simp
next
  fix x :: "byte \<times> bytes" and r
  assume "wf_opt x"
  then show "DhcpOption (enc_opt x @ r) = Some (fst x, snd x, r)"
    by (auto simp: DhcpOption_eq enc_opt_def wf_opt_def unat_of_nat8)
qed

text \<open>The values of one option code, in the order in which the packet carries them.\<close>

definition opt_values :: "byte \<Rightarrow> (byte \<times> bytes) list \<Rightarrow> bytes list" where
  "opt_values t os = map snd (filter (\<lambda>x. fst x = t) os)"

lemma opt_values_simps [simp]:
  "opt_values t [] = []"
  "opt_values t ((u, v) # os) = (if u = t then v # opt_values t os else opt_values t os)"
  by (simp_all add: opt_values_def)

lemma opt_values_set: "v \<in> set (opt_values t os) \<longleftrightarrow> (t, v) \<in> set os"
  by (auto simp: opt_values_def image_iff)

end
