(* ===== verification/Dhcp_Packet.thy ===== *)
theory Dhcp_Packet
  imports Dhcp_Options
begin

text \<open>
  The ProxyDHCP packets of \<open>src/dhcp/dhcp.go\<close>: \<open>ParseDHCP\<close>, which recognises the
  \<open>DHCPDISCOVER\<close> of a PXE client, and \<open>OfferDHCP\<close>, which builds the \<open>DHCPOFFER\<close> with
  the boot menu. The lemmas say exactly which packets are accepted and what the offer
  carries, read back through the program's own option reader.
\<close>

section \<open>Definitions\<close>

definition DhcpMagic :: bytes where
  "DhcpMagic = [99, 130, 83, 99]"

text \<open>A nil slice is told apart from an empty one where the code does: \<open>GUID\<close> is
  \<open>None\<close> until option 97 has been seen. \<open>ServerIP\<close> is empty until the server fills it
  in.\<close>

record DHCPPacket =
  TID :: bytes
  MAC :: mac
  GUID :: "bytes option"
  ServerIP :: ip

datatype dhcp_err =
    PacketTooShort
  | NotBootpRequest mac
  | NotEthernet mac
  | NotDhcpRequest mac
  | MalformedOption53 mac
  | NotDiscover mac
  | MalformedOption93 mac
  | NotX86 mac
  | MalformedOption97 mac
  | NotPxeClient mac

fun dhcp_err_text :: "dhcp_err \<Rightarrow> string" where
  "dhcp_err_text PacketTooShort = ''packet too short''"
| "dhcp_err_text (NotBootpRequest m) = ''packet from '' @ hw_string m @ '' is not a BOOTP request''"
| "dhcp_err_text (NotEthernet m) = ''packet from '' @ hw_string m @ '' is not for an Ethernet PHY''"
| "dhcp_err_text (NotDhcpRequest m) = ''packet from '' @ hw_string m @ '' is not a DHCP request''"
| "dhcp_err_text (MalformedOption53 m) = ''packet from '' @ hw_string m @ '' has malformed option 53''"
| "dhcp_err_text (NotDiscover m) = ''packet from '' @ hw_string m @ '' is not a DHCPDISCOVER''"
| "dhcp_err_text (MalformedOption93 m) = ''packet from '' @ hw_string m @ '' has malformed option 93''"
| "dhcp_err_text (NotX86 m) = hw_string m @ '' is not an x86 PXE client''"
| "dhcp_err_text (MalformedOption97 m) = ''packet from '' @ hw_string m @ '' has malformed option 97''"
| "dhcp_err_text (NotPxeClient m) = hw_string m @ '' is not a PXE client''"

text \<open>The loop of \<open>ParseDHCP\<close> over the option field.\<close>

function parse_dhcp_opts :: "DHCPPacket \<Rightarrow> bytes \<Rightarrow> (dhcp_err, DHCPPacket) go" where
  "parse_dhcp_opts ret b = do {
     (typ, val, opts) \<leftarrow> DhcpOption b;
     if typ = 255 then Some (Inr ret)
     else if typ = 53 then
       (if length val \<noteq> 1 then Some (Inl (MalformedOption53 (MAC ret)))
        else do {
          v \<leftarrow> go_index val 0;
          if v \<noteq> 1 then Some (Inl (NotDiscover (MAC ret))) else parse_dhcp_opts ret opts
        })
     else if typ = 93 then
       (if length val \<noteq> 2 then Some (Inl (MalformedOption93 (MAC ret)))
        else do {
          arch \<leftarrow> be_uint16 val;
          if arch \<noteq> 0 then Some (Inl (NotX86 (MAC ret))) else parse_dhcp_opts ret opts
        })
     else if typ = 97 then
       (if length val \<noteq> 17 then Some (Inl (MalformedOption97 (MAC ret)))
        else do {
          v \<leftarrow> go_index val 0;
          if v \<noteq> 0 then Some (Inl (MalformedOption97 (MAC ret)))
          else do {
            guid \<leftarrow> go_from val 1;
            parse_dhcp_opts (ret\<lparr>GUID := Some guid\<rparr>) opts
          }
        })
     else parse_dhcp_opts ret opts
   }"
  by pat_completeness auto
termination
  by (relation "measure (\<lambda>(ret, b). length b)") (auto intro: DhcpOption_shorter)

declare parse_dhcp_opts.simps [simp del]

definition ParseDHCP :: "bytes \<Rightarrow> (dhcp_err, DHCPPacket) go" where
  "ParseDHCP b =
     (if length b < 240 then Some (Inl PacketTooShort)
      else do {
        tid \<leftarrow> go_slice b 4 8;
        mac \<leftarrow> go_slice b 28 34;
        let ret = \<lparr>TID = tid, MAC = mac, GUID = None, ServerIP = []\<rparr>;
        op \<leftarrow> go_index b 0;
        if op \<noteq> 1 then Some (Inl (NotBootpRequest (MAC ret)))
        else do {
          htype \<leftarrow> go_index b 1;
          hlen \<leftarrow> go_index b 2;
          if htype \<noteq> 1 \<and> hlen \<noteq> 6 then Some (Inl (NotEthernet (MAC ret)))
          else do {
            magic \<leftarrow> go_slice b 236 240;
            if magic \<noteq> DhcpMagic then Some (Inl (NotDhcpRequest (MAC ret)))
            else do {
              field \<leftarrow> go_from b 240;
              res \<leftarrow> parse_dhcp_opts ret field;
              case res of
                Inl e \<Rightarrow> Some (Inl e)
              | Inr p \<Rightarrow> (if GUID p = None then Some (Inl (NotPxeClient (MAC ret)))
                          else Some (Inr p))
            }
          }
        }
      })"

text \<open>\<open>b.Write(nil)\<close> writes nothing.\<close>

definition guid_bytes :: "bytes option \<Rightarrow> bytes" where
  "guid_bytes g = (case g of None \<Rightarrow> [] | Some b \<Rightarrow> b)"

definition offer_bootp :: "'a DHCPPacket_scheme \<Rightarrow> bytes" where
  "offer_bootp p =
     copy_at 28 (MAC p) (copy_at 4 (TID p)
       ((replicate 236 0)[0 := 2, 1 := 1, 2 := 6, 10 := 0x80]))"

definition offer_vendor :: "'a DHCPPacket_scheme \<Rightarrow> bytes" where
  "offer_vendor p =
     [6, 1, 3]
     @ [8, 7, 0x80, 0x00, 1] @ ServerIP p
     @ [9, 12, 0x80, 0x00, 9] @ bytes_of ''Pixiecore''
     @ [10, 10, 0] @ bytes_of ''Pixiecore''
     @ [255]"

definition OfferDHCP :: "'a DHCPPacket_scheme \<Rightarrow> bytes" where
  "OfferDHCP p =
     offer_bootp p
     @ DhcpMagic
     @ [53, 1, 2]
     @ [54, 4] @ ServerIP p
     @ [60, 9] @ bytes_of ''PXEClient''
     @ [97, 17, 0] @ guid_bytes (GUID p)
     @ [43, of_nat (length (offer_vendor p))] @ offer_vendor p
     @ [255]"

section \<open>What ParseDHCP accepts\<close>

text \<open>The option loop without the byte-level reading: the same checks over the list of
  options.\<close>

fun check_dhcp_opts :: "DHCPPacket \<Rightarrow> (byte \<times> bytes) list \<Rightarrow> dhcp_err + DHCPPacket" where
  "check_dhcp_opts ret [] = Inr ret"
| "check_dhcp_opts ret ((typ, val) # os) =
     (if typ = 53 \<and> length val \<noteq> 1 then Inl (MalformedOption53 (MAC ret))
      else if typ = 53 \<and> val \<noteq> [1] then Inl (NotDiscover (MAC ret))
      else if typ = 93 \<and> length val \<noteq> 2 then Inl (MalformedOption93 (MAC ret))
      else if typ = 93 \<and> val \<noteq> [0, 0] then Inl (NotX86 (MAC ret))
      else if typ = 97 \<and> (length val \<noteq> 17 \<or> hd val \<noteq> 0) then Inl (MalformedOption97 (MAC ret))
      else if typ = 97 then check_dhcp_opts (ret\<lparr>GUID := Some (tl val)\<rparr>) os
      else check_dhcp_opts ret os)"

lemma be_uint16_zero: "length v = 2 \<Longrightarrow> be_uint16 v = Some 0 \<longleftrightarrow> v = [0, 0]"
  by (auto simp: numeral_2_eq_2 length_Suc_conv be_uint16_unat word_unat_eq_iff)

lemma parse_dhcp_opts_eq: "parse_dhcp_opts ret b = Some (check_dhcp_opts ret (dhcp_options b))"
proof (induction b arbitrary: ret rule: length_induct)
  case (1 b)
  obtain t val r where nxt: "DhcpOption b = Some (t, val, r)"
    using dopt.nxt_returns by blast
  show ?case
  proof (cases "t = 255")
    case True
    then show ?thesis
      by (subst parse_dhcp_opts.simps) (simp add: nxt dopt.opts_unfold [OF nxt])
  next
    case False
    then have IH: "parse_dhcp_opts ret' r = Some (check_dhcp_opts ret' (dhcp_options r))" for ret'
      using "1.IH" dopt.nxt_shorter [OF nxt] by blast
    have arch: "be_uint16 val = Some w \<Longrightarrow> w = 0 \<longleftrightarrow> val = [0, 0]" if "length val = 2" for w
      using be_uint16_zero [OF that] by auto
    have guid: "val ! 0 = hd val \<and> drop 1 val = tl val" if "length val = 17"
      using that by (cases val) auto
    have one: "val ! 0 = 1 \<longleftrightarrow> val = [1]" if "length val = 1"
      using that by (auto simp: length_Suc_conv)
    show ?thesis
      using False arch guid one
      by (subst parse_dhcp_opts.simps)
        (auto simp: nxt IH dopt.opts_unfold [OF nxt] go_index_def go_from_def
          split: option.splits bind_splits)
  qed
qed

text \<open>The conditions on the options of a request, one per option code the code looks at.\<close>

definition dhcp_opts_ok :: "(byte \<times> bytes) list \<Rightarrow> bool" where
  "dhcp_opts_ok os \<longleftrightarrow>
     (\<forall>v\<in>set (opt_values 53 os). v = [1]) \<and>
     (\<forall>v\<in>set (opt_values 93 os). v = [0, 0]) \<and>
     (\<forall>v\<in>set (opt_values 97 os). length v = 17 \<and> hd v = 0)"

definition last_guid :: "(byte \<times> bytes) list \<Rightarrow> bytes option" where
  "last_guid os = (case opt_values 97 os of [] \<Rightarrow> None | v # vs \<Rightarrow> Some (tl (last (v # vs))))"

lemma check_dhcp_opts_Inr:
  "check_dhcp_opts ret os = Inr p \<longleftrightarrow>
     dhcp_opts_ok os \<and>
     p = (case last_guid os of None \<Rightarrow> ret | Some g \<Rightarrow> ret\<lparr>GUID := Some g\<rparr>)"
  by (induction ret os rule: check_dhcp_opts.induct)
    (auto simp: dhcp_opts_ok_def last_guid_def split: list.splits if_splits)

text \<open>The fixed header of a request, and the request as a whole.\<close>

definition dhcp_header_ok :: "bytes \<Rightarrow> bool" where
  "dhcp_header_ok b \<longleftrightarrow>
     240 \<le> length b \<and> b ! 0 = 1 \<and> (b ! 1 = 1 \<or> b ! 2 = 6) \<and> take 4 (drop 236 b) = DhcpMagic"

definition dhcp_accepts :: "bytes \<Rightarrow> bool" where
  "dhcp_accepts b \<longleftrightarrow>
     dhcp_header_ok b \<and> dhcp_opts_ok (dhcp_options (drop 240 b)) \<and>
     opt_values 97 (dhcp_options (drop 240 b)) \<noteq> []"

definition dhcp_request :: "bytes \<Rightarrow> DHCPPacket" where
  "dhcp_request b =
     \<lparr>TID = take 4 (drop 4 b), MAC = take 6 (drop 28 b),
      GUID = last_guid (dhcp_options (drop 240 b)), ServerIP = []\<rparr>"

text \<open>The whole parser in one equation, panics included.\<close>

lemma ParseDHCP_eq:
  "ParseDHCP b = Some (
     let mac = take 6 (drop 28 b); os = dhcp_options (drop 240 b) in
     if length b < 240 then Inl PacketTooShort
     else if b ! 0 \<noteq> 1 then Inl (NotBootpRequest mac)
     else if b ! 1 \<noteq> 1 \<and> b ! 2 \<noteq> 6 then Inl (NotEthernet mac)
     else if take 4 (drop 236 b) \<noteq> DhcpMagic then Inl (NotDhcpRequest mac)
     else case check_dhcp_opts \<lparr>TID = take 4 (drop 4 b), MAC = mac, GUID = None, ServerIP = []\<rparr> os of
       Inl e \<Rightarrow> Inl e
     | Inr p \<Rightarrow> if GUID p = None then Inl (NotPxeClient mac) else Inr p)"
proof (cases "length b < 240")
  case False
  then show ?thesis
    by (auto simp: ParseDHCP_def parse_dhcp_opts_eq Let_def go_index_def split: sum.splits)
qed (simp add: ParseDHCP_def)

lemma last_guid_None: "last_guid os = None \<longleftrightarrow> opt_values 97 os = []"
  by (simp add: last_guid_def split: list.splits)

lemma ParseDHCP_Inr:
  "ParseDHCP b = Some (Inr p) \<longleftrightarrow> dhcp_accepts b \<and> p = dhcp_request b"
proof -
  let ?os = "dhcp_options (drop 240 b)"
  let ?ret = "\<lparr>TID = take 4 (drop 4 b), MAC = take 6 (drop 28 b), GUID = None, ServerIP = []\<rparr>"
  show ?thesis
  proof (cases "check_dhcp_opts ?ret ?os")
    case (Inl e)
    then have "\<not> dhcp_opts_ok ?os"
      by (metis Inl_Inr_False check_dhcp_opts_Inr)
    with Inl show ?thesis
      by (auto simp: ParseDHCP_eq Let_def dhcp_accepts_def)
  next
    case (Inr q)
    then have "dhcp_opts_ok ?os"
      and "q = (case last_guid ?os of None \<Rightarrow> ?ret | Some g \<Rightarrow> ?ret\<lparr>GUID := Some g\<rparr>)"
      by (simp_all only: check_dhcp_opts_Inr)
    with Inr show ?thesis
      by (auto simp: ParseDHCP_eq Let_def dhcp_accepts_def dhcp_header_ok_def dhcp_request_def
          last_guid_None [symmetric] split: option.splits)
  qed
qed

text \<open>The shape of an accepted request.\<close>

definition wf_packet :: "'a DHCPPacket_scheme \<Rightarrow> bool" where
  "wf_packet p \<longleftrightarrow>
     length (TID p) = 4 \<and> length (MAC p) = 6 \<and> (\<exists>g. GUID p = Some g \<and> length g = 16)"

lemma last_guid_length:
  "dhcp_opts_ok os \<Longrightarrow> last_guid os = Some g \<Longrightarrow> length g = 16"
  by (auto simp: dhcp_opts_ok_def last_guid_def split: list.splits if_splits)

lemma ParseDHCP_wf: "ParseDHCP b = Some (Inr p) \<Longrightarrow> wf_packet p"
  by (auto simp: ParseDHCP_Inr dhcp_accepts_def dhcp_header_ok_def dhcp_request_def wf_packet_def
      last_guid_None [symmetric] intro: last_guid_length)

section \<open>What OfferDHCP says\<close>

lemma length_offer_bootp [simp]: "length (offer_bootp p) = 236"
  by (simp add: offer_bootp_def)

lemma nth_offer_bootp:
  assumes "length (TID p) = 4" "length (MAC p) = 6"
  shows "offer_bootp p ! 0 = 2" "offer_bootp p ! 1 = 1" "offer_bootp p ! 2 = 6"
    "offer_bootp p ! 10 = 0x80"
  using assms by (simp_all add: offer_bootp_def nth_copy_at)

lemma offer_bootp_op: "offer_bootp p ! 0 = 2"
  by (simp add: offer_bootp_def copy_at_def nth_append)

lemma offer_bootp_slices:
  assumes "length (TID p) = 4" "length (MAC p) = 6"
  shows "take 4 (drop 4 (offer_bootp p)) = TID p" "take 6 (drop 28 (offer_bootp p)) = MAC p"
proof -
  let ?z = "(replicate 236 0 :: bytes)[0 := 2, 1 := 1, 2 := 6, 10 := 0x80]"
  have "take 4 (drop 4 (offer_bootp p)) = take 4 (drop 4 (copy_at 4 (TID p) ?z))"
    unfolding offer_bootp_def using assms by (intro slice_copy_at_other) auto
  then show "take 4 (drop 4 (offer_bootp p)) = TID p"
    using assms slice_copy_at_same [of 4 "TID p" ?z] by simp
  show "take 6 (drop 28 (offer_bootp p)) = MAC p"
    unfolding offer_bootp_def
    using assms slice_copy_at_same [of 28 "MAC p" "copy_at 4 (TID p) ?z"] by simp
qed

text \<open>The vendor options and the outer options as lists, and the byte strings as their
  encodings.\<close>

definition offer_vendor_opts :: "ip \<Rightarrow> (byte \<times> bytes) list" where
  "offer_vendor_opts sip =
     [(6, [3]), (8, [0x80, 0, 1] @ sip), (9, [0x80, 0, 9] @ bytes_of ''Pixiecore''),
      (10, 0 # bytes_of ''Pixiecore'')]"

definition offer_opts :: "'a DHCPPacket_scheme \<Rightarrow> (byte \<times> bytes) list" where
  "offer_opts p =
     [(53, [2]), (54, ServerIP p), (60, bytes_of ''PXEClient''),
      (97, 0 # guid_bytes (GUID p)), (43, offer_vendor p)]"

lemma offer_vendor_enc:
  "length (ServerIP p) = 4 \<Longrightarrow> offer_vendor p = enc_opts (offer_vendor_opts (ServerIP p)) @ [255]"
  by (simp add: offer_vendor_def offer_vendor_opts_def enc_opt_def)

lemma length_offer_vendor: "length (ServerIP p) = 4 \<Longrightarrow> length (offer_vendor p) = 39"
  by (simp add: offer_vendor_def)

lemma OfferDHCP_enc:
  assumes "length (ServerIP p) = 4" "length (guid_bytes (GUID p)) = 16"
  shows "OfferDHCP p = offer_bootp p @ DhcpMagic @ enc_opts (offer_opts p) @ [255]"
  using assms by (simp add: OfferDHCP_def offer_opts_def enc_opt_def length_offer_vendor)

lemma OfferDHCP_header:
  "take 236 (OfferDHCP p) = offer_bootp p" "240 \<le> length (OfferDHCP p)"
  by (simp_all add: OfferDHCP_def DhcpMagic_def)

lemma OfferDHCP_slice: "i + n \<le> 236 \<Longrightarrow> take n (drop i (OfferDHCP p)) = take n (drop i (offer_bootp p))"
  by (simp add: OfferDHCP_def)

lemma offer_opts_wf:
  "length (ServerIP p) = 4 \<Longrightarrow> length (guid_bytes (GUID p)) = 16 \<Longrightarrow> list_all wf_opt (offer_opts p)"
  by (simp add: offer_opts_def wf_opt_def length_offer_vendor)

lemma offer_vendor_opts_wf: "length sip = 4 \<Longrightarrow> list_all wf_opt (offer_vendor_opts sip)"
  by (simp add: offer_vendor_opts_def wf_opt_def)

lemma offer_options:
  assumes "length (ServerIP p) = 4" "length (guid_bytes (GUID p)) = 16"
  shows "dhcp_options (drop 240 (OfferDHCP p)) = offer_opts p"
    and "dhcp_options (offer_vendor p) = offer_vendor_opts (ServerIP p)"
  using assms dopt.opts_roundtrip(1) [OF offer_opts_wf, of p "[]"]
    dopt.opts_roundtrip(1) [OF offer_vendor_opts_wf, of "ServerIP p" "[]"]
  by (simp_all add: OfferDHCP_enc offer_vendor_enc DhcpMagic_def)

section \<open>The request of a PXE client\<close>

text \<open>The \<open>DHCPDISCOVER\<close> a PXE ROM broadcasts, as the PXE specification lays it out: the
  fixed header, then the message type, the client architecture (x86 BIOS), the client
  identifier, and any other options.\<close>

definition client_discover :: "bytes \<Rightarrow> mac \<Rightarrow> bytes \<Rightarrow> (byte \<times> bytes) list \<Rightarrow> bytes" where
  "client_discover tid mac guid extra =
     [1, 1, 6, 0] @ tid @ replicate 20 0 @ mac @ replicate 202 0 @ DhcpMagic
     @ enc_opts ([(53, [1]), (93, [0, 0]), (97, 0 # guid)] @ extra) @ [255]"

definition plain_opts :: "(byte \<times> bytes) list \<Rightarrow> bool" where
  "plain_opts os \<longleftrightarrow> list_all wf_opt os \<and> list_all (\<lambda>x. fst x \<notin> {53, 93, 97}) os"

lemma opt_values_plain: "plain_opts os \<Longrightarrow> t \<in> {53, 93, 97} \<Longrightarrow> opt_values t os = []"
  by (auto simp: plain_opts_def opt_values_def list_all_iff filter_empty_conv)

lemma client_discover_options:
  assumes "length tid = 4" "length mac = 6" "length guid = 16" "plain_opts extra"
  shows "dhcp_options (drop 240 (client_discover tid mac guid extra)) =
           [(53, [1]), (93, [0, 0]), (97, 0 # guid)] @ extra"
proof -
  let ?os = "[(53, [1]), (93, [0, 0]), (97, 0 # guid)] @ extra"
  have "list_all wf_opt ?os"
    using assms by (simp add: wf_opt_def plain_opts_def)
  moreover have "drop 240 (client_discover tid mac guid extra) = enc_opts ?os @ 255 # []"
    using assms by (simp add: client_discover_def DhcpMagic_def)
  ultimately show ?thesis
    by (simp only: dopt.opts_roundtrip)
qed

lemma ParseDHCP_client_discover:
  assumes "length tid = 4" "length mac = 6" "length guid = 16" "plain_opts extra"
  shows "ParseDHCP (client_discover tid mac guid extra) =
           Some (Inr \<lparr>TID = tid, MAC = mac, GUID = Some guid, ServerIP = []\<rparr>)"
proof -
  let ?b = "client_discover tid mac guid extra"
  note vals = opt_values_plain [OF assms(4)]
  have "dhcp_header_ok ?b" "take 4 (drop 4 ?b) = tid" "take 6 (drop 28 ?b) = mac"
    using assms by (simp_all add: dhcp_header_ok_def client_discover_def DhcpMagic_def)
  moreover have "dhcp_opts_ok ([(53, [1]), (93, [0, 0]), (97, 0 # guid)] @ extra)"
    "last_guid ([(53, [1]), (93, [0, 0]), (97, 0 # guid)] @ extra) = Some guid"
    using assms(3) vals by (simp_all add: dhcp_opts_ok_def last_guid_def)
  ultimately show ?thesis
    using client_discover_options [OF assms]
    by (auto simp: ParseDHCP_Inr dhcp_accepts_def dhcp_request_def last_guid_None [symmetric])
qed

section \<open>Properties\<close>

text \<open>
  C9. \<open>ParseDHCP\<close> never panics, whatever the datagram, and it accepts exactly the
  packets of at least 240 bytes with the BOOTP request code, the hardware fields the code
  tests, the DHCP magic, no wrong message type, architecture or client identifier among the
  options and at least one client identifier; the request it returns holds the transaction
  id, the hardware address and the last client identifier of the packet.
\<close>

theorem parse_dhcp_exact:
  "ParseDHCP b \<noteq> None \<and>
   (ParseDHCP b = Some (Inr p) \<longleftrightarrow> dhcp_accepts b \<and> p = dhcp_request b)"
  by (simp add: ParseDHCP_Inr) (simp add: ParseDHCP_eq)

text \<open>
  C11. The offer for a parsed request and a 4-byte server address is well formed: it is a
  BOOTP reply for Ethernet that asks for broadcast, carries the transaction id and hardware
  address of the request at their offsets and the DHCP magic, and its options read back as
  exactly the offer type, server id, vendor class, the client's own identifier and the
  vendor field, which in turn reads back as the boot menu with one entry of one boot server
  at the server's address.
\<close>

theorem offer_reads_back:
  assumes "wf_packet p" "length (ServerIP p) = 4"
  shows "OfferDHCP p ! 0 = 2 \<and> OfferDHCP p ! 1 = 1 \<and> OfferDHCP p ! 2 = 6 \<and> OfferDHCP p ! 10 = 0x80 \<and>
    take 4 (drop 4 (OfferDHCP p)) = TID p \<and> take 6 (drop 28 (OfferDHCP p)) = MAC p \<and>
    take 4 (drop 236 (OfferDHCP p)) = DhcpMagic \<and>
    dhcp_options (drop 240 (OfferDHCP p)) =
      [(53, [2]), (54, ServerIP p), (60, bytes_of ''PXEClient''),
       (97, 0 # the (GUID p)), (43, offer_vendor p)] \<and>
    dhcp_options (offer_vendor p) =
      [(6, [3]), (8, [0x80, 0, 1] @ ServerIP p), (9, [0x80, 0, 9] @ bytes_of ''Pixiecore''),
       (10, 0 # bytes_of ''Pixiecore'')]"
proof -
  obtain g where g: "GUID p = Some g" "length g = 16" and len: "length (TID p) = 4" "length (MAC p) = 6"
    using assms(1) by (auto simp: wf_packet_def)
  have nth: "OfferDHCP p ! i = offer_bootp p ! i" if "i < 236" for i
    using that by (simp add: OfferDHCP_def nth_append)
  show ?thesis
    using len nth_offer_bootp [of p] offer_bootp_slices [of p]
      offer_options [of p] assms(2) g
    by (simp add: nth OfferDHCP_slice guid_bytes_def offer_opts_def offer_vendor_opts_def)
      (simp add: OfferDHCP_def DhcpMagic_def)
qed

theorem offer_reads_back_witness:
  "dhcp_options (drop 240 (OfferDHCP
       \<lparr>TID = [1, 2, 3, 4], MAC = [2, 0, 0, 0, 0, 7], GUID = Some (replicate 16 9), ServerIP = [10, 0, 0, 1]\<rparr>)) =
     [(53, [2]), (54, [10, 0, 0, 1]), (60, bytes_of ''PXEClient''), (97, 0 # replicate 16 9),
      (43, offer_vendor \<lparr>TID = [1, 2, 3, 4], MAC = [2, 0, 0, 0, 0, 7], GUID = Some (replicate 16 9),
                         ServerIP = [10, 0, 0, 1]\<rparr>)]"
  using offer_reads_back [of "\<lparr>TID = [1, 2, 3, 4], MAC = [2, 0, 0, 0, 0, 7],
      GUID = Some (replicate 16 9), ServerIP = [10, 0, 0, 1]\<rparr>"]
  by (simp add: wf_packet_def)

text \<open>
  No offer is ever mistaken for a request: \<open>ParseDHCP\<close> answers every packet that
  \<open>OfferDHCP\<close> can build with the error for packets that are not BOOTP requests, so two
  servers that hear each other never start answering each other.
\<close>

lemma offer_is_no_request:
  "\<exists>m. ParseDHCP (OfferDHCP p) = Some (Inl (NotBootpRequest m))"
proof -
  have "OfferDHCP p ! 0 = 2"
    by (simp add: OfferDHCP_def nth_append offer_bootp_op)
  then show ?thesis
    using OfferDHCP_header(2) [of p] by (simp add: ParseDHCP_eq Let_def)
qed

text \<open>
  Every \<open>DHCPDISCOVER\<close> of an x86 PXE client, with any further options, is
  accepted, and parsing recovers the client's transaction id, hardware address and
  identifier.
\<close>

lemma discover_roundtrip:
  assumes "length tid = 4" "length mac = 6" "length guid = 16" "plain_opts extra"
  shows "ParseDHCP (client_discover tid mac guid extra) =
           Some (Inr \<lparr>TID = tid, MAC = mac, GUID = Some guid, ServerIP = []\<rparr>)"
  using assms by (rule ParseDHCP_client_discover)

lemma discover_roundtrip_witness:
  "ParseDHCP (client_discover [1, 2, 3, 4] [2, 0, 0, 0, 0, 7] (replicate 16 9) [(60, [80])]) =
     Some (Inr \<lparr>TID = [1, 2, 3, 4], MAC = [2, 0, 0, 0, 0, 7], GUID = Some (replicate 16 9), ServerIP = []\<rparr>)"
  by (rule discover_roundtrip) (simp_all add: plain_opts_def wf_opt_def)

text \<open>The hardware check joins its two tests with "and": a token-ring packet (hardware
  type 6) passes, although the error message says that it is not for an Ethernet PHY.\<close>

lemma non_ethernet_accepted:
  "\<exists>b p. b ! 1 = 6 \<and> ParseDHCP b = Some (Inr p)"
proof -
  let ?os = "[(97, replicate 17 0)] :: (byte \<times> bytes) list"
  let ?b = "[1, 6, 6] @ replicate 233 0 @ DhcpMagic @ enc_opts ?os @ [255] :: bytes"
  have "dhcp_options (drop 240 ?b) = ?os"
    using dopt.opts_roundtrip(1) [of ?os "[]"] by (simp add: DhcpMagic_def wf_opt_def)
  then have "dhcp_accepts ?b"
    by (simp add: dhcp_accepts_def dhcp_header_ok_def dhcp_opts_ok_def DhcpMagic_def)
  then have "ParseDHCP ?b = Some (Inr (dhcp_request ?b))"
    by (simp add: ParseDHCP_Inr)
  moreover have "?b ! 1 = 6" by simp
  ultimately show ?thesis by blast
qed

end
