(* ===== verification/Logging.thy ===== *)
theory Logging
  imports Go_Prelude
begin

text \<open>
  \<open>src/log/logging.go\<close>: log entries and the goroutine that prints them. The channel
  \<open>logCh\<close> is unbuffered and has one reader, so the entries are printed in the order in
  which the senders handed them over; that order is the list \<open>RecordLogs\<close> walks.
\<close>

record LogEntry =
  Subsystem :: string
  IsDebug :: bool
  Msg :: string

fun RecordLogs :: "bool \<Rightarrow> LogEntry list \<Rightarrow> string list" where
  "RecordLogs debug [] = []"
| "RecordLogs debug (l # ls) =
     (if IsDebug l \<and> \<not> debug then RecordLogs debug ls
      else (''['' @ Subsystem l @ ''] '' @ Msg l) # RecordLogs debug ls)"

definition Log :: "string \<Rightarrow> string \<Rightarrow> LogEntry" where
  "Log subsystem msg = \<lparr>Subsystem = subsystem, IsDebug = False, Msg = msg\<rparr>"

definition Debug :: "string \<Rightarrow> string \<Rightarrow> LogEntry" where
  "Debug subsystem msg = \<lparr>Subsystem = subsystem, IsDebug = True, Msg = msg\<rparr>"

lemma log_fields [simp]:
  "Subsystem (Log s m) = s" "IsDebug (Log s m) = False" "Msg (Log s m) = m"
  "Subsystem (Debug s m) = s" "IsDebug (Debug s m) = True" "Msg (Debug s m) = m"
  by (simp_all add: Log_def Debug_def)

lemma RecordLogs_append: "RecordLogs d (xs @ ys) = RecordLogs d xs @ RecordLogs d ys"
  by (induction xs) auto

end
