(* ===== verification/Go_Io.thy ===== *)
theory Go_Io
  imports Go_Prelude
begin

text \<open>
  Byte streams: \<open>io.Reader\<close> as the sequence of chunks its calls of \<open>Read\<close> find, then
  an error that every later call returns; \<open>io.ReadFull\<close> and \<open>io.Copy\<close> over it, and
  \<open>bytes.Buffer\<close> as a reader. The lemmas show that \<open>ReadFull\<close> does not depend on how
  the stream is cut into chunks.
\<close>

datatype io_err = EOF | ErrUnexpectedEOF | IoErr string

fun io_err_text :: "io_err \<Rightarrow> string" where
  "io_err_text EOF = ''EOF''"
| "io_err_text ErrUnexpectedEOF = ''unexpected EOF''"
| "io_err_text (IoErr s) = s"

record reader =
  chunks :: "bytes list"
  final :: io_err

definition reader_data :: "reader \<Rightarrow> bytes" where
  "reader_data r = concat (chunks r)"

text \<open>One call of \<open>Read(p)\<close> with \<open>len(p) = n\<close>: at most \<open>n\<close> bytes of the chunk that
  is there (an empty chunk is a call that returns \<open>0, nil\<close>).\<close>

definition go_read :: "nat \<Rightarrow> reader \<Rightarrow> bytes \<times> io_err option \<times> reader" where
  "go_read n r = (case chunks r of
      [] \<Rightarrow> ([], Some (final r), r)
    | c # cs \<Rightarrow> (take n c, None, r\<lparr>chunks := (if length c \<le> n then cs else drop n c # cs)\<rparr>))"

text \<open>\<open>io.ReadFull(r, buf)\<close> with \<open>len(buf) = n\<close>, the loop of \<open>io.ReadAtLeast\<close>:
  \<open>got\<close> is what has been read so far.\<close>

function read_full_from :: "bytes \<Rightarrow> nat \<Rightarrow> reader \<Rightarrow> bytes \<times> io_err option \<times> reader" where
  "read_full_from got n r =
     (if n \<le> length got then (got, None, r)
      else case go_read (n - length got) r of
        (b, None, r') \<Rightarrow> read_full_from (got @ b) n r'
      | (b, Some e, r') \<Rightarrow>
          (got, Some (if got \<noteq> [] \<and> e = EOF then ErrUnexpectedEOF else e), r'))"
  by pat_completeness auto
termination
  by (relation "measure (\<lambda>(got, n, r). (n - length got) + length (chunks r))")
    (auto simp: go_read_def split: list.splits if_splits)

declare read_full_from.simps [simp del]

definition read_full :: "nat \<Rightarrow> reader \<Rightarrow> bytes \<times> io_err option \<times> reader" where
  "read_full n r = read_full_from [] n r"

definition io_copy :: "reader \<Rightarrow> bytes \<times> io_err option" where
  "io_copy r = (reader_data r, if final r = EOF then None else Some (final r))"

text \<open>\<open>bytes.NewBuffer(b)\<close> as a reader.\<close>

definition buffer_reader :: "bytes \<Rightarrow> reader" where
  "buffer_reader b = \<lparr>chunks = (if b = [] then [] else [b]), final = EOF\<rparr>"

lemma reader_data_buffer [simp]: "reader_data (buffer_reader b) = b"
  by (simp add: buffer_reader_def reader_data_def)

lemma final_buffer [simp]: "final (buffer_reader b) = EOF"
  by (simp add: buffer_reader_def)

lemma go_read_cases:
  "go_read n r = (b, None, r') \<Longrightarrow>
     reader_data r = b @ reader_data r' \<and> length b \<le> n \<and> final r' = final r"
  "go_read n r = (b, Some e, r') \<Longrightarrow> reader_data r = [] \<and> b = [] \<and> e = final r \<and> r' = r"
  by (auto simp: go_read_def reader_data_def split: list.splits if_splits)

text \<open>The error \<open>ReadFull\<close> returns for the bytes left in the stream.\<close>

definition full_err :: "nat \<Rightarrow> bytes \<Rightarrow> io_err \<Rightarrow> io_err option" where
  "full_err n d e =
     (if n \<le> length d then None
      else Some (if d \<noteq> [] \<and> e = EOF then ErrUnexpectedEOF else e))"

lemma read_full_from_spec:
  assumes "length got \<le> n"
  shows "\<exists>r'. read_full_from got n r =
           (take n (got @ reader_data r), full_err n (got @ reader_data r) (final r), r') \<and>
         reader_data r' = drop (n - length got) (reader_data r) \<and> final r' = final r"
  using assms
proof (induction got n r rule: read_full_from.induct)
  case (1 got n r)
  show ?case
  proof (cases "n \<le> length got")
    case True
    with "1.prems" show ?thesis
      by (subst read_full_from.simps) (simp add: full_err_def)
  next
    case False
    obtain b e r' where rd: "go_read (n - length got) r = (b, e, r')"
      by (cases "go_read (n - length got) r")
    show ?thesis
    proof (cases e)
      case None
      with rd go_read_cases(1) have d: "reader_data r = b @ reader_data r'" "final r' = final r"
        and len: "length (got @ b) \<le> n"
        using "1.prems" by (fastforce)+
      from "1.IH" [OF False rd [symmetric] refl None len] obtain r'' where
        "read_full_from (got @ b) n r' =
           (take n (got @ reader_data r), full_err n (got @ reader_data r) (final r), r'')"
        "reader_data r'' = drop (n - length (got @ b)) (reader_data r')" "final r'' = final r"
        by (auto simp: d)
      with False rd None d len show ?thesis
        by (subst read_full_from.simps) (auto simp: diff_diff_eq)
    next
      case (Some x)
      with rd go_read_cases(2) have "reader_data r = []" "b = []" "x = final r" "r' = r"
        by (metis)+
      with False rd Some show ?thesis
        by (subst read_full_from.simps) (auto simp: full_err_def)
    qed
  qed
qed

text \<open>\<open>ReadFull\<close> reads the first \<open>n\<close> bytes of the stream, however it is cut up.\<close>

lemma read_full_spec:
  obtains r' where
    "read_full n r = (take n (reader_data r), full_err n (reader_data r) (final r), r')"
    "reader_data r' = drop n (reader_data r)" "final r' = final r"
  using read_full_from_spec [of "[]" n r] by (auto simp: read_full_def)

lemma read_full_rest [simp]:
  "reader_data (snd (snd (read_full n r))) = drop n (reader_data r)"
  "final (snd (snd (read_full n r))) = final r"
  by (rule read_full_spec [of n r], simp)+

end
