(* ===== verification/Boot_Api.thy ===== *)
theory Boot_Api
  imports Go_Net Go_Io
begin

text \<open>
  \<open>src/api/api.go\<close>: the \<open>Booter\<close> interface and its two implementations. A value of the
  Go interface is a record of its methods; a method takes the state of the outside world
  (what the random source will deliver, how the network answers, the files on disk, the
  requests made so far) and returns it changed. The locale \<open>booter_contract\<close> is what the
  servers rely on, and both implementations are shown to meet it.
\<close>

section \<open>The outside world\<close>

record response =
  StatusCode :: int
  Body :: reader

text \<open>\<open>w_http w n u\<close> is the answer to the \<open>n\<close>-th request, if it is a \<open>GET\<close> of
  \<open>u\<close>, so that a server may answer differently each time; the redirects that the library's
  client follows on its own are part of how a URL is answered. \<open>w_gets\<close> lists the URLs that were
  requested and \<open>w_opens\<close> the paths that were opened, successfully or not, in order.\<close>

record world =
  w_rand :: reader
  w_http :: "nat \<Rightarrow> string \<Rightarrow> string + response"
  w_gets :: "string list"
  w_fs :: "string \<Rightarrow> string + reader"
  w_opens :: "string list"

definition http_get :: "string \<Rightarrow> world \<Rightarrow> (string + response) \<times> world" where
  "http_get u w = (w_http w (length (w_gets w)) u, w\<lparr>w_gets := w_gets w @ [u]\<rparr>)"

definition os_open :: "string \<Rightarrow> world \<Rightarrow> (string + reader) \<times> world" where
  "os_open path w = (w_fs w path, w\<lparr>w_opens := w_opens w @ [path]\<rparr>)"

text \<open>\<open>io.ReadFull(rand.Reader, buf)\<close> with \<open>len(buf) = n\<close>.\<close>

definition rand_read :: "nat \<Rightarrow> world \<Rightarrow> (io_err + bytes) \<times> world" where
  "rand_read n w = (case read_full n (w_rand w) of (b, e, r) \<Rightarrow>
     ((case e of None \<Rightarrow> Inr b | Some x \<Rightarrow> Inl x), w\<lparr>w_rand := r\<rparr>))"

text \<open>
  Library functions whose code is not part of the repository. \<open>quote\<close> is the verb \<open>%q\<close>
  on a string, \<open>quote_rune\<close> the same verb on an integer, \<open>sprintf0\<close> is \<open>fmt.Sprintf\<close> of a
  format that gets no arguments, \<open>corrupt_input\<close> the text of the error for a malformed
  base64 input, \<open>status_text\<close> is \<open>http.StatusText\<close>, \<open>json_decode\<close> the decoding of a
  response body into the three fields of the boot API, \<open>url_check\<close> the checks of
  \<open>url.Parse\<close> behind the scheme, \<open>url_text\<close> the text of the URL it returns, \<open>seal\<close> and \<open>unseal\<close> the secretbox functions
  (message, nonce, key).
\<close>

record golib =
  quote :: "string \<Rightarrow> string"
  quote_rune :: "int \<Rightarrow> string"
  sprintf0 :: "string \<Rightarrow> string"
  corrupt_input :: "string \<Rightarrow> string"
  status_text :: "int \<Rightarrow> string"
  json_decode :: "reader \<Rightarrow> string + string \<times> string list \<times> string"
  url_check :: "string \<Rightarrow> string option"
  url_text :: "string \<Rightarrow> string"
  seal :: "bytes \<Rightarrow> bytes \<Rightarrow> bytes \<Rightarrow> bytes"
  unseal :: "bytes \<Rightarrow> bytes \<Rightarrow> bytes \<Rightarrow> bytes option"

text \<open>\<open>url.Parse\<close>, as far as \<open>IsAbs\<close> depends on it: the scheme is the text before the
  first colon, if it is a letter followed by letters, digits, plus, minus and dot; a colon
  at the very start is an error; anything else means there is no scheme.\<close>

definition is_letter :: "char \<Rightarrow> bool" where
  "is_letter c \<longleftrightarrow> (let n = (of_char c :: nat) in (97 \<le> n \<and> n \<le> 122) \<or> (65 \<le> n \<and> n \<le> 90))"

definition is_scheme_tail :: "char \<Rightarrow> bool" where
  "is_scheme_tail c \<longleftrightarrow> digit_val c \<noteq> None \<or> c = CHR ''+'' \<or> c = CHR ''-'' \<or> c = CHR ''.''"

fun getscheme :: "string \<Rightarrow> string \<Rightarrow> string + string" where
  "getscheme done [] = Inr []"
| "getscheme done (c # cs) =
     (if is_letter c then getscheme (done @ [c]) cs
      else if is_scheme_tail c then (if done = [] then Inr [] else getscheme (done @ [c]) cs)
      else if c = CHR '':'' then (if done = [] then Inl ''missing protocol scheme'' else Inr done)
      else Inr [])"

definition url_parse :: "golib \<Rightarrow> string \<Rightarrow> string + string" where
  "url_parse lib u = (case getscheme [] u of
      Inl e \<Rightarrow> Inl (''parse '' @ quote lib u @ '': '' @ e)
    | Inr sch \<Rightarrow> (case url_check lib u of Some e \<Rightarrow> Inl e | None \<Rightarrow> Inr sch))"

definition is_abs :: "string \<Rightarrow> bool" where
  "is_abs sch \<longleftrightarrow> sch \<noteq> []"

section \<open>The interface\<close>

record BootSpec =
  Kernel :: string
  Initrd :: "string list"
  Cmdline :: string

record booter =
  ShouldBoot :: "mac \<Rightarrow> world \<Rightarrow> string option \<times> world"
  GetBootSpec :: "mac \<Rightarrow> world \<Rightarrow> (string + BootSpec) \<times> world"
  GetFile :: "string \<Rightarrow> world \<Rightarrow> ((string + reader \<times> string) \<times> world) option"

section \<open>RemoteBooter\<close>

record remoteBooter =
  client_timeout :: int
  urlPrefix :: string
  key :: bytes

definition RemoteBooter :: "string \<Rightarrow> int \<Rightarrow> world \<Rightarrow> (string + remoteBooter) \<times> world" where
  "RemoteBooter url timeout w =
     (let url = (if \<not> has_suffix url ''/'' then url @ ''/'' else url) in
      case rand_read 32 w of
        (Inl e, w) \<Rightarrow> (Inl (''failed to get randomness for signing key: '' @ io_err_text e), w)
      | (Inr k, w) \<Rightarrow>
          (Inr \<lparr>client_timeout = timeout, urlPrefix = url @ ''v1'', key = k\<rparr>, w))"

fun check_initrds :: "golib \<Rightarrow> string \<Rightarrow> string list \<Rightarrow> string option" where
  "check_initrds lib reqURL [] = None"
| "check_initrds lib reqURL (img # imgs) = (case url_parse lib img of
      Inl e \<Rightarrow> Some (''non-url '' @ quote lib img @ '' provided by '' @ reqURL @ '' for initrd: '' @ e)
    | Inr sch \<Rightarrow>
        (if \<not> is_abs sch
         then Some (''initrd URL '' @ quote lib img @ '' provided by '' @ reqURL @ '' is not absolute'')
         else check_initrds lib reqURL imgs))"

definition api_url :: "remoteBooter \<Rightarrow> mac \<Rightarrow> string" where
  "api_url b hw = urlPrefix b @ ''/boot/'' @ hw_string hw"

definition getSpec ::
  "golib \<Rightarrow> remoteBooter \<Rightarrow> mac \<Rightarrow> world \<Rightarrow> (string + string \<times> string list \<times> string) \<times> world" where
  "getSpec lib b hw w =
     (let reqURL = api_url b hw in
      case http_get reqURL w of
        (Inl e, w) \<Rightarrow> (Inl e, w)
      | (Inr resp, w) \<Rightarrow>
          (if StatusCode resp \<noteq> 200
           then (Inl (reqURL @ '': '' @ status_text lib (StatusCode resp)), w)
           else case json_decode lib (Body resp) of
             Inl e \<Rightarrow> (Inl (''non-json response from '' @ reqURL @ '': '' @ e), w)
           | Inr (kern, initrds, cmdline) \<Rightarrow>
               (case url_parse lib kern of
                  Inl e \<Rightarrow> (Inl (''non-url '' @ quote lib kern @ '' provided by '' @ reqURL
                                 @ '' for kernel: '' @ e), w)
                | Inr sch \<Rightarrow>
                    (if \<not> is_abs sch
                     then (Inl (''kernel URL '' @ quote lib (url_text lib kern) @ '' provided by '' @ reqURL
                                @ '' is not absolute''), w)
                     else case check_initrds lib reqURL initrds of
                       Some e \<Rightarrow> (Inl e, w)
                     | None \<Rightarrow> (Inr (kern, initrds, cmdline), w)))))"

definition signURL :: "golib \<Rightarrow> remoteBooter \<Rightarrow> string \<Rightarrow> world \<Rightarrow> (string + string) \<times> world" where
  "signURL lib b u w = (case rand_read 24 w of
      (Inl e, w) \<Rightarrow> (Inl (''could not read randomness for signing nonce: '' @ io_err_text e), w)
    | (Inr nonce, w) \<Rightarrow> (Inr (string_of (nonce @ seal lib (bytes_of u) nonce (key b))), w))"

fun signURLs ::
  "golib \<Rightarrow> remoteBooter \<Rightarrow> string list \<Rightarrow> world \<Rightarrow> (string + string list) \<times> world" where
  "signURLs lib b [] w = (Inr [], w)"
| "signURLs lib b (u # us) w = (case signURL lib b u w of
      (Inl e, w) \<Rightarrow> (Inl e, w)
    | (Inr s, w) \<Rightarrow> (case signURLs lib b us w of
          (Inl e, w) \<Rightarrow> (Inl e, w)
        | (Inr ss, w) \<Rightarrow> (Inr (s # ss), w)))"

definition getURL :: "golib \<Rightarrow> remoteBooter \<Rightarrow> string \<Rightarrow> (string, string) go" where
  "getURL lib b sgn_id =
     (if length sgn_id < 24 then Some (Inl ''signed blob too short to be valid'')
      else do {
        let nonce = copy_at 0 (bytes_of sgn_id) (replicate 24 0);
        box \<leftarrow> go_from sgn_id 24;
        case unseal lib (bytes_of box) nonce (key b) of
          None \<Rightarrow> Some (Inl ''signature verification failed'')
        | Some out \<Rightarrow> Some (Inr (string_of out))
      })"

definition remote_ShouldBoot :: "golib \<Rightarrow> remoteBooter \<Rightarrow> mac \<Rightarrow> world \<Rightarrow> string option \<times> world" where
  "remote_ShouldBoot lib b hw w = (case getSpec lib b hw w of
      (Inl e, w) \<Rightarrow> (Some e, w)
    | (Inr _, w) \<Rightarrow> (None, w))"

definition remote_BootSpec ::
  "golib \<Rightarrow> remoteBooter \<Rightarrow> mac \<Rightarrow> world \<Rightarrow> (string + BootSpec) \<times> world" where
  "remote_BootSpec lib b hw w = (case getSpec lib b hw w of
      (Inl e, w) \<Rightarrow> (Inl e, w)
    | (Inr (kern, initrds, cmdline), w) \<Rightarrow>
        (case signURL lib b kern w of
           (Inl e, w) \<Rightarrow> (Inl e, w)
         | (Inr k, w) \<Rightarrow> (case signURLs lib b initrds w of
               (Inl e, w) \<Rightarrow> (Inl e, w)
             | (Inr is, w) \<Rightarrow> (Inr \<lparr>Kernel = k, Initrd = is, Cmdline = cmdline\<rparr>, w))))"

definition remote_File ::
  "golib \<Rightarrow> remoteBooter \<Rightarrow> string \<Rightarrow> world \<Rightarrow> ((string + reader \<times> string) \<times> world) option" where
  "remote_File lib b fid w = do {
     res \<leftarrow> getURL lib b fid;
     case res of
       Inl e \<Rightarrow> Some (Inl e, w)
     | Inr u \<Rightarrow> Some (case http_get u w of
           (Inl e, w) \<Rightarrow> (Inl e, w)
         | (Inr resp, w) \<Rightarrow> (Inr (Body resp, u), w))
   }"

definition remote_booter :: "golib \<Rightarrow> remoteBooter \<Rightarrow> booter" where
  "remote_booter lib b =
     \<lparr>ShouldBoot = remote_ShouldBoot lib b, GetBootSpec = remote_BootSpec lib b,
      GetFile = remote_File lib b\<rparr>"

section \<open>StaticBooter\<close>

record staticBooter =
  kernelPath :: string
  initrdPaths :: "string list"
  spec :: BootSpec

definition StaticBooter :: "string \<Rightarrow> string list \<Rightarrow> string \<Rightarrow> staticBooter" where
  "StaticBooter kp ips cmd =
     \<lparr>kernelPath = kp, initrdPaths = ips,
      spec = \<lparr>Kernel = ''kernel'', Initrd = map (\<lambda>i. itoa (int i)) [0..<length ips], Cmdline = cmd\<rparr>\<rparr>"

definition static_ShouldBoot :: "staticBooter \<Rightarrow> mac \<Rightarrow> world \<Rightarrow> string option \<times> world" where
  "static_ShouldBoot b hw w = (None, w)"

definition static_BootSpec :: "staticBooter \<Rightarrow> mac \<Rightarrow> world \<Rightarrow> (string + BootSpec) \<times> world" where
  "static_BootSpec b hw w =
     (Inr \<lparr>Kernel = Kernel (spec b), Initrd = Initrd (spec b), Cmdline = Cmdline (spec b)\<rparr>, w)"

definition static_File ::
  "golib \<Rightarrow> staticBooter \<Rightarrow> string \<Rightarrow> world \<Rightarrow> ((string + reader \<times> string) \<times> world) option" where
  "static_File lib b fid w =
     (if fid = ''kernel'' then
        Some (case os_open (kernelPath b) w of
           (Inl e, w) \<Rightarrow> (Inl e, w)
         | (Inr f, w) \<Rightarrow> (Inr (f, ''kernel''), w))
      else case atoi fid of
        Some i \<Rightarrow>
          (if 0 \<le> i \<and> i < int (length (initrdPaths b)) then do {
             path \<leftarrow> go_index (initrdPaths b) (nat i);
             Some (case os_open path w of
                (Inl e, w) \<Rightarrow> (Inl e, w)
              | (Inr f, w) \<Rightarrow> (Inr (f, ''initrd.'' @ fid), w))
           }
           else Some (Inl (''no file with ID '' @ quote lib fid), w))
      | None \<Rightarrow> Some (Inl (''no file with ID '' @ quote lib fid), w))"

definition static_booter :: "golib \<Rightarrow> staticBooter \<Rightarrow> booter" where
  "static_booter lib b =
     \<lparr>ShouldBoot = static_ShouldBoot b, GetBootSpec = static_BootSpec b,
      GetFile = static_File lib b\<rparr>"

section \<open>The contract of a Booter\<close>

text \<open>
  What the servers rely on: a file id that a boot specification mentions is not empty and
  names a source; asking for the file of an id with a source fetches that source and nothing
  else; asking for any other id is an error and leaves the world alone; neither panics. \<open>pre\<close> is what the
  provider needs for the first of these.
\<close>

locale booter_contract =
  fixes bt :: booter
    and source :: "string \<Rightarrow> 'src option"
    and fetch :: "'src \<Rightarrow> world \<Rightarrow> (string + reader) \<times> world"
    and pre :: bool
  assumes issued: "pre \<Longrightarrow> GetBootSpec bt m w = (Inr s, w') \<Longrightarrow> f \<in> set (Kernel s # Initrd s) \<Longrightarrow>
           f \<noteq> [] \<and> source f \<noteq> None"
    and file_known: "source f = Some x \<Longrightarrow>
           \<exists>n. GetFile bt f w = Some (map_sum id (\<lambda>d. (d, n)) (fst (fetch x w)), snd (fetch x w))"
    and file_unknown: "source f = None \<Longrightarrow> \<exists>e. GetFile bt f w = Some (Inl e, w)"
begin

lemma file_Inr:
  assumes "GetFile bt f w = Some (Inr (d, n), w')"
  obtains x where "source f = Some x" "fetch x w = (Inr d, w')"
proof (cases "source f")
  case None
  then show ?thesis using file_unknown [of f w] assms by auto
next
  case (Some x)
  obtain r v where fx: "fetch x w = (r, v)" by (cases "fetch x w")
  from file_known [OF Some, of w] obtain n' where
    "GetFile bt f w = Some (map_sum id (\<lambda>d. (d, n')) r, v)" using fx by auto
  with assms fx that [OF Some] show ?thesis by (cases r) auto
qed

lemma file_world:
  "\<exists>r. GetFile bt f w = Some (r, case source f of None \<Rightarrow> w | Some x \<Rightarrow> snd (fetch x w))"
proof (cases "source f")
  case None
  then show ?thesis using file_unknown [of f w] by auto
next
  case (Some x)
  then show ?thesis using file_known [OF Some, of w] by auto
qed

lemma issued_fetch:
  assumes "pre" "GetBootSpec bt m w = (Inr s, w')" "f \<in> set (Kernel s # Initrd s)"
  obtains x where "source f = Some x"
    "\<And>v d v'. fetch x v = (Inr d, v') \<Longrightarrow> \<exists>n. GetFile bt f v = Some (Inr (d, n), v')"
proof -
  obtain x where x: "source f = Some x" using issued [OF assms] by blast
  have "\<exists>n. GetFile bt f v = Some (Inr (d, n), v')" if "fetch x v = (Inr d, v')" for v d v'
    using file_known [OF x, of v] that by auto
  with x that show ?thesis by blast
qed

end

section \<open>StaticBooter meets the contract\<close>

definition static_source :: "string \<Rightarrow> string list \<Rightarrow> string \<Rightarrow> string option" where
  "static_source kp ips f =
     (if f = ''kernel'' then Some kp
      else case atoi f of
        Some i \<Rightarrow> if 0 \<le> i \<and> i < int (length ips) then Some (ips ! nat i) else None
      | None \<Rightarrow> None)"

lemma StaticBooter_fields [simp]:
  "kernelPath (StaticBooter kp ips cmd) = kp" "initrdPaths (StaticBooter kp ips cmd) = ips"
  "Kernel (spec (StaticBooter kp ips cmd)) = ''kernel''"
  "Initrd (spec (StaticBooter kp ips cmd)) = map (\<lambda>i. itoa (int i)) [0..<length ips]"
  "Cmdline (spec (StaticBooter kp ips cmd)) = cmd"
  by (simp_all add: StaticBooter_def)

lemma itoa_ne_kernel: "itoa i \<noteq> ''kernel''"
proof
  assume "itoa i = ''kernel''"
  then have "CHR ''k'' = CHR ''-'' \<or> (\<exists>d<10. CHR ''k'' = digit_char d)"
    by (intro itoa_chars [of _ i]) simp
  then show False
    by (auto dest!: arg_cong [where f = "of_char :: char \<Rightarrow> nat"] simp: digit_char_code)
qed

lemma int64_range_small: "n < 2 ^ 63 \<Longrightarrow> int64_range (int n)"
  by (simp add: int64_range_def)

lemma static_source_initrd:
  "i < length ips \<Longrightarrow> length ips < 2 ^ 63 \<Longrightarrow> static_source kp ips (itoa (int i)) = Some (ips ! i)"
  by (simp add: static_source_def itoa_ne_kernel int64_range_small)

lemma static_File_source:
  "static_source kp ips f = Some p \<Longrightarrow>
     \<exists>n. static_File lib (StaticBooter kp ips cmd) f w =
       Some (map_sum id (\<lambda>d. (d, n)) (w_fs w p), w\<lparr>w_opens := w_opens w @ [p]\<rparr>)"
  "static_source kp ips f = None \<Longrightarrow>
     static_File lib (StaticBooter kp ips cmd) f w = Some (Inl (''no file with ID '' @ quote lib f), w)"
  by (auto simp: static_source_def static_File_def os_open_def go_index_def split: if_splits option.splits sum.splits)

interpretation static: booter_contract
  "static_booter lib (StaticBooter kp ips cmd)" "static_source kp ips" os_open
  "length ips < 2 ^ 63" for lib kp ips cmd
proof unfold_locales
  fix m w s w' f
  assume "length ips < 2 ^ 63"
    and "GetBootSpec (static_booter lib (StaticBooter kp ips cmd)) m w = (Inr s, w')"
    and "f \<in> set (Kernel s # Initrd s)"
  then show "f \<noteq> [] \<and> static_source kp ips f \<noteq> None"
    by (auto simp: static_booter_def static_BootSpec_def static_source_initrd)
      (auto simp: static_source_def dest: sym)
next
  fix f x w
  assume "static_source kp ips f = Some x"
  then show "\<exists>n. GetFile (static_booter lib (StaticBooter kp ips cmd)) f w =
      Some (map_sum id (\<lambda>d. (d, n)) (fst (os_open x w)), snd (os_open x w))"
    using static_File_source(1) by (simp add: static_booter_def os_open_def)
next
  fix f w
  assume "static_source kp ips f = None"
  then show "\<exists>e. GetFile (static_booter lib (StaticBooter kp ips cmd)) f w = Some (Inl e, w)"
    using static_File_source(2) by (simp add: static_booter_def)
qed

section \<open>RemoteBooter meets the contract\<close>

definition remote_source :: "golib \<Rightarrow> remoteBooter \<Rightarrow> string \<Rightarrow> string option" where
  "remote_source lib b f = (case getURL lib b f of Some (Inr u) \<Rightarrow> Some u | _ \<Rightarrow> None)"

definition remote_fetch :: "string \<Rightarrow> world \<Rightarrow> (string + reader) \<times> world" where
  "remote_fetch u w = (case http_get u w of
      (Inl e, w) \<Rightarrow> (Inl e, w)
    | (Inr resp, w) \<Rightarrow> (Inr (Body resp), w))"

text \<open>The two promises of secretbox: what was sealed opens to itself, and only what was
  sealed under the key and the nonce opens.\<close>

definition box_correct :: "golib \<Rightarrow> bool" where
  "box_correct lib \<longleftrightarrow> (\<forall>m n k. unseal lib (seal lib m n k) n k = Some m)"

definition box_authentic :: "golib \<Rightarrow> bool" where
  "box_authentic lib \<longleftrightarrow> (\<forall>c n k m. unseal lib c n k = Some m \<longrightarrow> c = seal lib m n k)"

lemma rand_read_Inr:
  "rand_read n w = (Inr b, w') \<longleftrightarrow>
     n \<le> length (reader_data (w_rand w)) \<and> b = take n (reader_data (w_rand w)) \<and>
     w' = w\<lparr>w_rand := snd (snd (read_full n (w_rand w)))\<rparr>"
  by (rule read_full_spec [of n "w_rand w"]) (auto simp: rand_read_def full_err_def split: if_splits)

lemma rand_read_gets [simp]: "w_gets (snd (rand_read n w)) = w_gets w"
  by (simp add: rand_read_def split: prod.split)

lemma signURL_Inr:
  assumes "signURL lib b u w = (Inr s, w')"
  obtains nonce where "length nonce = 24" "nonce = take 24 (reader_data (w_rand w))"
    "s = string_of (nonce @ seal lib (bytes_of u) nonce (key b))"
    "reader_data (w_rand w') = drop 24 (reader_data (w_rand w))" "w_gets w' = w_gets w"
proof -
  obtain nonce where rd: "rand_read 24 w = (Inr nonce, w')"
    and s: "s = string_of (nonce @ seal lib (bytes_of u) nonce (key b))"
    using assms by (auto simp: signURL_def split: prod.splits sum.splits)
  moreover have "reader_data (w_rand w') = drop 24 (reader_data (w_rand w))"
    using rd by (auto simp: rand_read_Inr)
  ultimately show ?thesis
    using that [of nonce] by (auto simp: rand_read_Inr)
qed

lemma getURL_eq:
  "getURL lib b s = Some (if length s < 24 then Inl ''signed blob too short to be valid''
     else case unseal lib (bytes_of (drop 24 s)) (bytes_of (take 24 s)) (key b) of
       None \<Rightarrow> Inl ''signature verification failed''
     | Some out \<Rightarrow> Inr (string_of out))"
  by (simp add: getURL_def copy_at_def bytes_of_def take_map split: option.split)

lemma getURL_sealed:
  assumes "box_correct lib" "length nonce = 24"
  shows "getURL lib b (string_of (nonce @ seal lib (bytes_of u) nonce (key b))) = Some (Inr u)"
proof -
  have "bytes_of (take 24 (string_of (nonce @ x))) = nonce \<and>
        bytes_of (drop 24 (string_of (nonce @ x))) = x" for x
    using assms(2) by simp
  with assms show ?thesis by (simp add: getURL_eq box_correct_def)
qed

lemma signURL_getURL:
  assumes "box_correct lib" "signURL lib b u w = (Inr s, w')"
  shows "getURL lib b s = Some (Inr u)" "24 \<le> length s"
proof -
  obtain nonce where "length nonce = 24" "s = string_of (nonce @ seal lib (bytes_of u) nonce (key b))"
    using assms(2) by (rule signURL_Inr)
  with getURL_sealed [OF assms(1), of nonce b u] show "getURL lib b s = Some (Inr u)" "24 \<le> length s"
    by simp_all
qed

lemma signURLs_getURL:
  assumes "box_correct lib" "signURLs lib b us w = (Inr ss, w')"
  shows "list_all2 (\<lambda>u s. getURL lib b s = Some (Inr u) \<and> 24 \<le> length s) us ss"
  using assms(2)
proof (induction us arbitrary: w ss)
  case (Cons u us)
  then obtain s w1 ss' where "signURL lib b u w = (Inr s, w1)"
    "signURLs lib b us w1 = (Inr ss', w')" "ss = s # ss'"
    by (auto split: prod.splits sum.splits)
  with Cons.IH signURL_getURL [OF assms(1)] show ?case by auto
qed simp

lemma remote_BootSpec_Inr:
  assumes "remote_BootSpec lib b hw w = (Inr s, w')"
  obtains kern initrds w1 w2 where "getSpec lib b hw w = (Inr (kern, initrds, Cmdline s), w1)"
    "signURL lib b kern w1 = (Inr (Kernel s), w2)" "signURLs lib b initrds w2 = (Inr (Initrd s), w')"
  using assms by (auto simp: remote_BootSpec_def split: prod.splits sum.splits)

interpretation remote: booter_contract
  "remote_booter lib b" "remote_source lib b" remote_fetch "box_correct lib" for lib b
proof unfold_locales
  fix m w s w' f
  assume box: "box_correct lib"
    and spec: "GetBootSpec (remote_booter lib b) m w = (Inr s, w')"
    and f: "f \<in> set (Kernel s # Initrd s)"
  from spec obtain kern initrds w1 w2 where
    "signURL lib b kern w1 = (Inr (Kernel s), w2)" "signURLs lib b initrds w2 = (Inr (Initrd s), w')"
    by (auto simp: remote_booter_def elim: remote_BootSpec_Inr)
  then have "\<exists>u. getURL lib b f = Some (Inr u) \<and> 24 \<le> length f"
    using f signURL_getURL [OF box] signURLs_getURL [OF box]
    by (fastforce simp: list_all2_conv_all_nth in_set_conv_nth)
  then show "f \<noteq> [] \<and> remote_source lib b f \<noteq> None"
    by (auto simp: remote_source_def)
next
  fix f x w
  assume "remote_source lib b f = Some x"
  then show "\<exists>n. GetFile (remote_booter lib b) f w =
      Some (map_sum id (\<lambda>d. (d, n)) (fst (remote_fetch x w)), snd (remote_fetch x w))"
    by (auto simp: remote_source_def remote_booter_def remote_File_def remote_fetch_def
        split: option.splits sum.splits prod.splits)
next
  fix f w
  assume "remote_source lib b f = None"
  then show "\<exists>e. GetFile (remote_booter lib b) f w = Some (Inl e, w)"
    using getURL_eq [of lib b f]
    by (auto simp: remote_source_def remote_booter_def remote_File_def split: option.splits sum.splits)
qed

section \<open>What getSpec accepts\<close>

definition absolute_url :: "golib \<Rightarrow> string \<Rightarrow> bool" where
  "absolute_url lib u \<longleftrightarrow> (case url_parse lib u of Inl e \<Rightarrow> False | Inr sch \<Rightarrow> is_abs sch)"

lemma check_initrds_None: "check_initrds lib r us = None \<longleftrightarrow> list_all (absolute_url lib) us"
  by (induction us) (auto simp: absolute_url_def split: sum.splits)

lemma getSpec_world: "snd (getSpec lib b hw w) = w\<lparr>w_gets := w_gets w @ [api_url b hw]\<rparr>"
  by (auto simp: getSpec_def api_url_def http_get_def Let_def split: sum.split prod.split option.split)

lemma getSpec_Inr:
  "getSpec lib b hw w = (Inr (kern, initrds, cmd), w') \<longleftrightarrow>
     (\<exists>resp. w_http w (length (w_gets w)) (api_url b hw) = Inr resp \<and> StatusCode resp = 200 \<and>
       json_decode lib (Body resp) = Inr (kern, initrds, cmd)) \<and>
     list_all (absolute_url lib) (kern # initrds) \<and>
     w' = w\<lparr>w_gets := w_gets w @ [api_url b hw]\<rparr>"
  by (auto simp: getSpec_def Let_def http_get_def absolute_url_def
      check_initrds_None [of lib "api_url b hw", symmetric] split: sum.splits option.splits)

lemma relative_url: "\<not> absolute_url lib (CHR ''/'' # u)"
  by (auto simp: absolute_url_def url_parse_def is_letter_def is_scheme_tail_def digit_val_def
      is_abs_def split: sum.splits option.splits)

text \<open>Where the random source delivers enough bytes, signing and with it the whole
  specification succeed.\<close>

lemma signURL_returns:
  assumes "24 \<le> length (reader_data (w_rand w))"
  obtains s w' where "signURL lib b u w = (Inr s, w')"
    "reader_data (w_rand w') = drop 24 (reader_data (w_rand w))"
proof -
  obtain nonce w' where "rand_read 24 w = (Inr nonce, w')"
    using assms rand_read_Inr [of 24 w] by blast
  then have "signURL lib b u w = (Inr (string_of (nonce @ seal lib (bytes_of u) nonce (key b))), w')"
    by (simp add: signURL_def)
  moreover from this have "reader_data (w_rand w') = drop 24 (reader_data (w_rand w))"
    by (rule signURL_Inr)
  ultimately show ?thesis by (rule that)
qed

lemma signURLs_returns:
  "24 * length us \<le> length (reader_data (w_rand w)) \<Longrightarrow> \<exists>ss w'. signURLs lib b us w = (Inr ss, w')"
proof (induction us arbitrary: w)
  case (Cons u us)
  obtain s w1 where "signURL lib b u w = (Inr s, w1)"
    "reader_data (w_rand w1) = drop 24 (reader_data (w_rand w))"
    using Cons.prems by (auto intro: signURL_returns [of w lib b u])
  moreover from this obtain ss w2 where "signURLs lib b us w1 = (Inr ss, w2)"
    using Cons.IH [of w1] Cons.prems by fastforce
  ultimately show ?case by simp
qed simp

lemma remote_BootSpec_returns:
  assumes "getSpec lib b hw w = (Inr (kern, initrds, cmd), w1)"
    and "24 * Suc (length initrds) \<le> length (reader_data (w_rand w))"
  shows "\<exists>s w'. remote_BootSpec lib b hw w = (Inr s, w')"
proof -
  have rand: "w_rand w1 = w_rand w"
    using assms(1) getSpec_world [of lib b hw w] by simp
  obtain k w2 where "signURL lib b kern w1 = (Inr k, w2)"
    and "reader_data (w_rand w2) = drop 24 (reader_data (w_rand w1))"
    using assms(2) rand by (auto intro: signURL_returns [of w1 lib b kern])
  moreover from this obtain ss w3 where "signURLs lib b initrds w2 = (Inr ss, w3)"
    using assms(2) rand signURLs_returns [of initrds w2 lib b] by fastforce
  ultimately show ?thesis
    using assms(1) by (simp add: remote_BootSpec_def)
qed

section \<open>Concrete library functions\<close>

text \<open>A library for the examples: a box that prefixes the key, a decoder that returns a
  fixed specification.\<close>

definition demo_lib :: "string \<times> string list \<times> string \<Rightarrow> golib" where
  "demo_lib js =
     \<lparr>quote = (\<lambda>s. s), quote_rune = (\<lambda>_. []), sprintf0 = (\<lambda>s. s), corrupt_input = (\<lambda>_. []),
      status_text = (\<lambda>_. []), json_decode = (\<lambda>_. Inr js), url_check = (\<lambda>_. None),
      url_text = (\<lambda>s. s),
      seal = (\<lambda>m n k. k @ m),
      unseal = (\<lambda>c n k. if take (length k) c = k then Some (drop (length k) c) else None)\<rparr>"

definition demo_world :: "response \<Rightarrow> world" where
  "demo_world resp =
     \<lparr>w_rand = \<lparr>chunks = [replicate 100 7], final = EOF\<rparr>, w_http = (\<lambda>n u. Inr resp),
      w_gets = [], w_fs = (\<lambda>p. Inr (buffer_reader (bytes_of p))), w_opens = []\<rparr>"

definition demo_booter :: remoteBooter where
  "demo_booter = \<lparr>client_timeout = 5, urlPrefix = ''http://api/v1'', key = replicate 32 1\<rparr>"

lemma demo_lib_box: "box_correct (demo_lib js)" "box_authentic (demo_lib js)"
  by (auto simp: box_correct_def box_authentic_def demo_lib_def split: if_splits)
    (metis append_take_drop_id)

lemma demo_getSpec:
  "getSpec (demo_lib (''http://k'', [''http://i''], ''c'')) demo_booter hw
     (demo_world \<lparr>StatusCode = 200, Body = buffer_reader []\<rparr>) =
   (Inr (''http://k'', [''http://i''], ''c''),
    (demo_world \<lparr>StatusCode = 200, Body = buffer_reader []\<rparr>)\<lparr>w_gets := [api_url demo_booter hw]\<rparr>)"
  by (simp add: getSpec_Inr demo_world_def demo_lib_def absolute_url_def url_parse_def
      is_letter_def is_scheme_tail_def digit_val_def is_abs_def)

section \<open>Properties\<close>

text \<open>
  C28. The remote booter asks the API server exactly once, at its own prefix and the
  hardware address, whatever the answer, and changes nothing else in the world. It accepts the
  answer exactly when it is a 200 response whose body decodes and whose kernel and initrd URLs are
  all absolute, and then returns what the server sent; so it refuses the relative URLs that
  \<open>README.api.md\<close> documents.
\<close>

theorem getSpec_exact:
  "snd (getSpec lib b hw w) = w\<lparr>w_gets := w_gets w @ [urlPrefix b @ ''/boot/'' @ hw_string hw]\<rparr> \<and>
   (fst (getSpec lib b hw w) = Inr (kern, initrds, cmd) \<longleftrightarrow>
      (\<exists>resp. w_http w (length (w_gets w)) (urlPrefix b @ ''/boot/'' @ hw_string hw) = Inr resp \<and>
         StatusCode resp = 200 \<and> json_decode lib (Body resp) = Inr (kern, initrds, cmd)) \<and>
      list_all (absolute_url lib) (kern # initrds)) \<and>
   \<not> absolute_url lib (CHR ''/'' # path)"
proof -
  have w: "snd (getSpec lib b hw w) = w\<lparr>w_gets := w_gets w @ [api_url b hw]\<rparr>" by (rule getSpec_world)
  then have "fst (getSpec lib b hw w) = Inr (kern, initrds, cmd) \<longleftrightarrow>
      getSpec lib b hw w = (Inr (kern, initrds, cmd), w\<lparr>w_gets := w_gets w @ [api_url b hw]\<rparr>)"
    by (metis prod.collapse fst_conv)
  with w relative_url show ?thesis unfolding getSpec_Inr by (simp add: api_url_def)
qed

text \<open>
  C14. If secretbox opens what it sealed, every id in a boot specification of the remote
  booter stands for the URL the API server gave at that place: asking for the file of the
  kernel id requests the kernel URL, asking for the file of the \<open>i\<close>-th initrd id requests
  the \<open>i\<close>-th initrd URL, and the command line is passed on.
\<close>

theorem remote_spec_faithful:
  assumes "box_correct lib" "remote_BootSpec lib b hw w = (Inr s, w')"
  shows "\<exists>kern initrds w1.
    getSpec lib b hw w = (Inr (kern, initrds, Cmdline s), w1) \<and>
    length (Initrd s) = length initrds \<and>
    map_option (w_gets \<circ> snd) (remote_File lib b (Kernel s) v) = Some (w_gets v @ [kern]) \<and>
    map (\<lambda>f. map_option (w_gets \<circ> snd) (remote_File lib b f v)) (Initrd s) = map (\<lambda>u. Some (w_gets v @ [u])) initrds"
proof -
  obtain kern initrds w1 w2 where spec: "getSpec lib b hw w = (Inr (kern, initrds, Cmdline s), w1)"
    and k: "signURL lib b kern w1 = (Inr (Kernel s), w2)"
    and i: "signURLs lib b initrds w2 = (Inr (Initrd s), w')"
    using assms(2) by (rule remote_BootSpec_Inr)
  have got: "map_option (w_gets \<circ> snd) (remote_File lib b f v) = Some (w_gets v @ [u])"
    if "getURL lib b f = Some (Inr u)" for f u
    using that by (auto simp: remote_File_def http_get_def split: sum.split)
  have "list_all2 (\<lambda>u f. Some (w_gets v @ [u]) = map_option (w_gets \<circ> snd) (remote_File lib b f v)) initrds (Initrd s)"
    using signURLs_getURL [OF assms(1) i] by (rule list_all2_mono) (simp only: got)
  then have "map (\<lambda>f. map_option (w_gets \<circ> snd) (remote_File lib b f v)) (Initrd s) = map (\<lambda>u. Some (w_gets v @ [u])) initrds"
    by (auto simp: list_eq_iff_nth_eq list_all2_conv_all_nth)
  moreover have "length (Initrd s) = length initrds"
    using signURLs_getURL [OF assms(1) i] by (simp add: list_all2_lengthD)
  ultimately show ?thesis
    using spec got [OF signURL_getURL(1) [OF assms(1) k]] by blast
qed

theorem remote_spec_faithful_witness:
  "\<exists>s w'. remote_BootSpec (demo_lib (''http://k'', [''http://i''], ''c'')) demo_booter [2, 0, 0, 0, 0, 7]
       (demo_world \<lparr>StatusCode = 200, Body = buffer_reader []\<rparr>) = (Inr s, w') \<and>
     map_option (w_gets \<circ> snd) (remote_File (demo_lib (''http://k'', [''http://i''], ''c'')) demo_booter (Kernel s)
       (demo_world \<lparr>StatusCode = 200, Body = buffer_reader []\<rparr>)) = Some [''http://k'']"
proof -
  let ?L = "demo_lib (''http://k'', [''http://i''], ''c'')"
  let ?W = "demo_world \<lparr>StatusCode = 200, Body = buffer_reader []\<rparr>"
  have "24 * Suc (length [''http://i'']) \<le> length (reader_data (w_rand ?W))"
    by (simp add: demo_world_def reader_data_def)
  then obtain s w' where s: "remote_BootSpec ?L demo_booter [2, 0, 0, 0, 0, 7] ?W = (Inr s, w')"
    using remote_BootSpec_returns [OF demo_getSpec] by blast
  with remote_spec_faithful [OF demo_lib_box(1) s, of ?W] show ?thesis
    by (auto simp: demo_getSpec) (simp add: demo_world_def)
qed

text \<open>
  C13. The server is no open proxy: if secretbox opens only what was sealed under its key,
  a request for a file id makes the remote booter fetch at most one URL, and only if the id
  is that URL sealed under the booter's own key behind a 24-byte nonce.
\<close>

theorem file_no_open_proxy:
  assumes "box_authentic lib"
  shows "\<exists>r w'. remote_File lib b f w = Some (r, w') \<and> (w_gets w' = w_gets w \<or>
    (\<exists>nonce u. length nonce = 24 \<and> f = string_of (nonce @ seal lib (bytes_of u) nonce (key b)) \<and>
       w_gets w' = w_gets w @ [u]))"
proof -
  obtain res where res: "getURL lib b f = Some res" using getURL_eq by blast
  show ?thesis
  proof (cases res)
    case (Inl e)
    with res show ?thesis by (simp add: remote_File_def)
  next
    case (Inr u)
    let ?nonce = "bytes_of (take 24 f)"
    from Inr res have len: "24 \<le> length f"
      and opened: "unseal lib (bytes_of (drop 24 f)) ?nonce (key b) = Some (bytes_of u)"
      by (auto simp: getURL_eq split: if_splits option.splits)
    from opened assms have "bytes_of (drop 24 f) = seal lib (bytes_of u) ?nonce (key b)"
      by (simp add: box_authentic_def)
    then have "f = string_of (?nonce @ seal lib (bytes_of u) ?nonce (key b))"
      by (metis append_take_drop_id string_of_append string_of_bytes_of)
    moreover obtain r where "remote_File lib b f w = Some (r, w\<lparr>w_gets := w_gets w @ [u]\<rparr>)"
      using Inr res by (cases "w_http w (length (w_gets w)) u") (auto simp: remote_File_def http_get_def)
    moreover have "length ?nonce = 24" using len by simp
    ultimately show ?thesis
      by (intro exI [of _ r] exI [of _ "w\<lparr>w_gets := w_gets w @ [u]\<rparr>"] conjI disjI2 exI [of _ ?nonce] exI [of _ u]) simp_all
  qed
qed

text \<open>In the example an id of the right length fails to open under the key.\<close>

theorem file_no_open_proxy_witness:
  "\<exists>r w'. remote_File (demo_lib ([], [], [])) demo_booter (string_of (replicate 24 0 @ bytes_of ''http://evil''))
       (demo_world \<lparr>StatusCode = 200, Body = buffer_reader []\<rparr>) = Some (r, w') \<and> w_gets w' = []"
proof -
  let ?f = "string_of (replicate 24 0 @ bytes_of ''http://evil'')"
  let ?w = "demo_world \<lparr>StatusCode = 200, Body = buffer_reader []\<rparr>"
  have "getURL (demo_lib ([], [], [])) demo_booter ?f = Some (Inl ''signature verification failed'')"
    by (simp add: getURL_eq demo_lib_def demo_booter_def) (simp add: numeral_eq_Suc bytes_of_def)
  then have "remote_File (demo_lib ([], [], [])) demo_booter ?f ?w = Some (Inl ''signature verification failed'', ?w)"
    by (simp add: remote_File_def)
  with file_no_open_proxy [OF demo_lib_box(2), of "([], [], [])" demo_booter ?f ?w] show ?thesis
    by (auto simp: demo_world_def)
qed

text \<open>
  C29. The static booter serves what it was configured with: its specification names the
  kernel and one id per initrd, in order; asking for the file of the kernel id opens the kernel
  file and nothing else, asking for the \<open>i\<close>-th id opens the \<open>i\<close>-th initrd file and nothing else,
  and the stream or the error of that file is the answer.
\<close>

theorem static_serves_files:
  assumes "length ips < 2 ^ 63"
  shows "\<exists>s. GetBootSpec (static_booter lib (StaticBooter kp ips cmd)) m w = (Inr s, w) \<and>
    Cmdline s = cmd \<and> length (Initrd s) = length ips \<and>
    GetFile (static_booter lib (StaticBooter kp ips cmd)) (Kernel s) v =
      Some (map_sum id (\<lambda>d. (d, ''kernel'')) (w_fs v kp), v\<lparr>w_opens := w_opens v @ [kp]\<rparr>) \<and>
    (\<forall>i<length ips. GetFile (static_booter lib (StaticBooter kp ips cmd)) (Initrd s ! i) v =
      Some (map_sum id (\<lambda>d. (d, ''initrd.'' @ itoa (int i))) (w_fs v (ips ! i)), v\<lparr>w_opens := w_opens v @ [ips ! i]\<rparr>))"
  using assms
  by (auto simp: static_booter_def static_BootSpec_def static_File_def os_open_def itoa_ne_kernel
      int64_range_small split: sum.splits)

theorem static_serves_files_witness:
  "\<exists>s. GetBootSpec (static_booter (demo_lib ([], [], [])) (StaticBooter ''vmlinuz'' [''a.gz'', ''b.gz''] ''quiet''))
       [] (demo_world \<lparr>StatusCode = 200, Body = buffer_reader []\<rparr>) =
       (Inr s, demo_world \<lparr>StatusCode = 200, Body = buffer_reader []\<rparr>) \<and> Cmdline s = ''quiet'' \<and>
     map_option fst (GetFile (static_booter (demo_lib ([], [], [])) (StaticBooter ''vmlinuz'' [''a.gz'', ''b.gz''] ''quiet''))
       (Initrd s ! 1) (demo_world \<lparr>StatusCode = 200, Body = buffer_reader []\<rparr>)) =
     Some (Inr (buffer_reader (bytes_of ''b.gz''), ''initrd.'' @ itoa 1))"
  using static_serves_files [of "[''a.gz'', ''b.gz'']" "demo_lib ([], [], [])" "''vmlinuz''" "''quiet''" "[]"
      "demo_world \<lparr>StatusCode = 200, Body = buffer_reader []\<rparr>" "demo_world \<lparr>StatusCode = 200, Body = buffer_reader []\<rparr>"]
  by (auto simp: demo_world_def)

text \<open>
  C30. Whatever id a client sends, the static booter opens nothing but the kernel and the initrds
  it was given: it opens at most one path, that path is one of these, nothing else in the world
  changes, and a stream that it returns is the stream of the file it opened. It never panics.
\<close>

theorem static_file_confined:
  "\<exists>r ps. GetFile (static_booter lib (StaticBooter kp ips cmd)) f w = Some (r, w\<lparr>w_opens := w_opens w @ ps\<rparr>) \<and>
     length ps \<le> 1 \<and> set ps \<subseteq> set (kp # ips) \<and>
     (case r of Inl e \<Rightarrow> True | Inr (d, n) \<Rightarrow> \<exists>p. ps = [p] \<and> w_fs w p = Inr d)"
proof (cases "static_source kp ips f")
  case None
  then have "GetFile (static_booter lib (StaticBooter kp ips cmd)) f w =
      Some (Inl (''no file with ID '' @ quote lib f), w\<lparr>w_opens := w_opens w @ []\<rparr>)"
    using static_File_source(2) [OF None] by (simp add: static_booter_def)
  then show ?thesis by (intro exI [of _ "Inl (''no file with ID '' @ quote lib f)"] exI [of _ "[]"]) simp
next
  case (Some p)
  then obtain n where "GetFile (static_booter lib (StaticBooter kp ips cmd)) f w =
      Some (map_sum id (\<lambda>d. (d, n)) (w_fs w p), w\<lparr>w_opens := w_opens w @ [p]\<rparr>)"
    using static_File_source(1) [OF Some, of lib cmd w] by (auto simp: static_booter_def)
  moreover have "p \<in> set (kp # ips)"
    using Some by (auto simp: static_source_def split: if_splits option.splits)
  ultimately show ?thesis
    by (intro exI [of _ "map_sum id (\<lambda>d. (d, n)) (w_fs w p)"] exI [of _ "[p]"])
      (cases "w_fs w p"; auto)
qed

text \<open>\<open>README.api.md\<close> documents relative URLs in the API server's answer, resolved
  against its prefix; the code refuses them.\<close>

lemma relative_kernel_refused:
  "w_http w (length (w_gets w)) (api_url b hw) = Inr resp \<Longrightarrow>
   json_decode lib (Body resp) = Inr (''/kernel'', initrds, cmd) \<Longrightarrow>
   \<exists>e w'. getSpec lib b hw w = (Inl e, w')"
  using relative_url [of lib "''kernel''"]
  by (cases "getSpec lib b hw w"; cases "fst (getSpec lib b hw w)") (auto simp: getSpec_Inr)

end
