(* ===== verification/Udp_Server.thy ===== *)
theory Udp_Server
  imports Logging Boot_Api
begin

text \<open>
  The shape of the two UDP servers (\<open>ServeProxyDHCP\<close> and \<open>ServePXE\<close>): one goroutine
  that reads a datagram into a buffer it reuses, handles it and loops. The environment of a
  run is a list of events, one per turn of the loop: what \<open>ReadFrom\<close> returns, and what
  \<open>WriteTo\<close> returns if the turn writes. A turn yields the log entries and the packets it
  sends; \<open>None\<close> is a panic, which would end the program.
\<close>

record dgram =
  dg_data :: bytes
  dg_ifindex :: int
  dg_addr :: udp_addr

record event =
  ev_read :: "string + dgram"
  ev_write :: "string option"

datatype action = LogOut LogEntry | SendTo bytes int udp_addr

text \<open>\<open>net.ListenPacket\<close> and \<open>SetControlMessage\<close> may fail before the loop starts.\<close>

record socket_env =
  listen_err :: "string option"
  control_err :: "string option"

text \<open>\<open>n, _, _, _ := l.ReadFrom(buf)\<close>: a datagram longer than the buffer is cut off, a
  shorter one leaves the old bytes behind it.\<close>

definition read_into :: "bytes \<Rightarrow> bytes \<Rightarrow> nat \<times> bytes" where
  "read_into buf d = (min (length d) (length buf), copy_at 0 d buf)"

fun serve_loop :: "('ev \<Rightarrow> 's \<Rightarrow> ('o list \<times> 's) option) \<Rightarrow> 'ev list \<Rightarrow> 's \<Rightarrow> ('o list \<times> 's) option" where
  "serve_loop step [] s = Some ([], s)"
| "serve_loop step (ev # evs) s = do {
     (os, s') \<leftarrow> step ev s;
     (os', s'') \<leftarrow> serve_loop step evs s';
     Some (os @ os', s'')
   }"

text \<open>A run in terms of a function that answers one event.\<close>

primrec respond_all :: "('ev \<Rightarrow> 'w \<Rightarrow> 'o list \<times> 'w) \<Rightarrow> 'ev list \<Rightarrow> 'w \<Rightarrow> 'o list \<times> 'w" where
  "respond_all respond [] w = ([], w)"
| "respond_all respond (ev # evs) w =
     (fst (respond ev w) @ fst (respond_all respond evs (snd (respond ev w))),
      snd (respond_all respond evs (snd (respond ev w))))"

text \<open>An answer that does not depend on the state of the world is given to every event.\<close>

lemma respond_all_mem:
  "ev \<in> set evs \<Longrightarrow> (\<And>w. x \<in> set (fst (respond ev w))) \<Longrightarrow> x \<in> set (fst (respond_all respond evs w))"
  by (induction evs arbitrary: w) auto

lemma length_read_into [simp]: "length (snd (read_into buf d)) = length buf"
  by (simp add: read_into_def)

lemma read_into_slice:
  "go_slice (snd (read_into buf d)) 0 (fst (read_into buf d)) = Some (take (length buf) d)"
  by (auto simp: read_into_def copy_at_def go_slice_def min_def)

text \<open>
  The contract of such a server: with a buffer of its size, one turn returns, keeps the size
  of the buffer, and its outputs and effects are those of a reference function that sees only
  the event, never the buffer.
\<close>

locale udp_server =
  fixes step :: "'ev \<Rightarrow> bytes \<times> 'w \<Rightarrow> ('o list \<times> bytes \<times> 'w) option"
    and respond :: "'ev \<Rightarrow> 'w \<Rightarrow> 'o list \<times> 'w"
    and size :: nat
  assumes step_respond: "length buf = size \<Longrightarrow>
    \<exists>buf'. length buf' = size \<and> step ev (buf, w) = Some (fst (respond ev w), buf', snd (respond ev w))"
begin

text \<open>No run panics, and what it sends does not depend on what the buffer held.\<close>

lemma loop_respond:
  "length buf = size \<Longrightarrow>
   \<exists>buf'. length buf' = size \<and>
     serve_loop step evs (buf, w) = Some (fst (respond_all respond evs w), buf',
       snd (respond_all respond evs w))"
proof (induction evs arbitrary: buf w)
  case (Cons ev evs)
  obtain buf1 where b1: "length buf1 = size"
    and s1: "step ev (buf, w) = Some (fst (respond ev w), buf1, snd (respond ev w))"
    using step_respond [OF Cons.prems] by blast
  from Cons.IH [OF b1, of "snd (respond ev w)"] s1 show ?case by auto
qed simp

lemma loop_stale:
  assumes "length buf = size" "length buf' = size"
  shows "map_option fst (serve_loop step evs (buf, w)) = map_option fst (serve_loop step evs (buf', w))"
    and "map_option (snd \<circ> snd) (serve_loop step evs (buf, w)) =
         map_option (snd \<circ> snd) (serve_loop step evs (buf', w))"
  using loop_respond [OF assms(1), of evs w] loop_respond [OF assms(2), of evs w] by auto

end

end
