(* ===== verification/Dhcp_Server.thy ===== *)
theory Dhcp_Server
  imports Dhcp_Packet Udp_Server
begin

text \<open>
  The ProxyDHCP server of \<open>src/dhcp/dhcp.go\<close>: \<open>InterfaceIP\<close>, which chooses the address
  the server announces on an interface, and the loop of \<open>ServeProxyDHCP\<close>.
\<close>

section \<open>InterfaceIP\<close>

text \<open>An address of an interface is a \<open>*net.IPNet\<close> or some other implementation of
  \<open>net.Addr\<close>. What the operating system says about an interface index is a parameter.\<close>

datatype net_addr = IPNet ip | OtherAddr

record iface =
  if_name :: string
  if_addrs :: "string + net_addr list"

fun scan_addrs :: "(ip \<Rightarrow> bool) \<Rightarrow> net_addr list \<Rightarrow> ip option" where
  "scan_addrs f [] = None"
| "scan_addrs f (OtherAddr # as) = scan_addrs f as"
| "scan_addrs f (IPNet i # as) = (case to4 i of
      None \<Rightarrow> scan_addrs f as
    | Some q \<Rightarrow> if f q then Some q else scan_addrs f as)"

fun scan_classes :: "(ip \<Rightarrow> bool) list \<Rightarrow> net_addr list \<Rightarrow> ip option" where
  "scan_classes [] as = None"
| "scan_classes (f # fs) as = (case scan_addrs f as of
      Some q \<Rightarrow> Some q
    | None \<Rightarrow> scan_classes fs as)"

definition InterfaceIP :: "(int \<Rightarrow> string + iface) \<Rightarrow> int \<Rightarrow> string + ip" where
  "InterfaceIP ifaces ifIdx = (case ifaces ifIdx of
      Inl e \<Rightarrow> Inl e
    | Inr i \<Rightarrow> (case if_addrs i of
          Inl e \<Rightarrow> Inl e
        | Inr addrs \<Rightarrow>
            (case scan_classes [is_global_unicast, is_link_local_unicast, is_loopback] addrs of
               Some q \<Rightarrow> Inr q
             | None \<Rightarrow> Inl (''interface '' @ if_name i @ '' has no usable unicast addresses''))))"

text \<open>The IPv4 addresses of an interface, in the order the operating system lists them.\<close>

fun ipv4_addrs :: "net_addr list \<Rightarrow> ip list" where
  "ipv4_addrs [] = []"
| "ipv4_addrs (OtherAddr # as) = ipv4_addrs as"
| "ipv4_addrs (IPNet i # as) = (case to4 i of None \<Rightarrow> ipv4_addrs as | Some q \<Rightarrow> q # ipv4_addrs as)"

definition addr_rank :: "ip \<Rightarrow> nat" where
  "addr_rank q = (if is_global_unicast q then 0 else if is_link_local_unicast q then 1
                  else if is_loopback q then 2 else 3)"

lemma scan_addrs_find: "scan_addrs f as = find f (ipv4_addrs as)"
  by (induction f as rule: scan_addrs.induct) (auto split: option.splits)

lemma length_ipv4_addrs: "q \<in> set (ipv4_addrs as) \<Longrightarrow> length q = 4"
  by (induction as rule: ipv4_addrs.induct) (auto simp: length_to4 split: option.splits)

lemma find_SomeD: "find P xs = Some x \<Longrightarrow> x \<in> set xs \<and> P x"
  by (induction xs) (auto split: if_splits)

lemma scan_classes_Some:
  assumes "scan_classes [is_global_unicast, is_link_local_unicast, is_loopback] as = Some q"
  shows "q \<in> set (ipv4_addrs as)" "addr_rank q < 3"
    "r \<in> set (ipv4_addrs as) \<Longrightarrow> addr_rank q \<le> addr_rank r"
  using assms
  by (auto simp: scan_addrs_find find_None_iff addr_rank_def split: option.splits dest!: find_SomeD)

lemma scan_classes_None:
  "scan_classes [is_global_unicast, is_link_local_unicast, is_loopback] as = None \<longleftrightarrow>
     (\<forall>r\<in>set (ipv4_addrs as). addr_rank r = 3)"
  by (auto simp: scan_addrs_find find_None_iff addr_rank_def split: option.splits dest!: find_SomeD)

lemma addr_rank_unusable: "length q = 4 \<Longrightarrow> addr_rank q = 3 \<longleftrightarrow> is_unusable q"
  using address_classes_cover [of q] usable_not_unusable [of q] usable_classes_disjoint(2) [of q]
  by (auto simp: addr_rank_def)

lemma InterfaceIP_length: "InterfaceIP ifaces i = Inr q \<Longrightarrow> length q = 4"
  by (auto simp: InterfaceIP_def simp del: scan_classes.simps split: sum.splits option.splits
      dest!: scan_classes_Some(1) length_ipv4_addrs)

section \<open>ServeProxyDHCP\<close>

definition dhcp_turn ::
  "(int \<Rightarrow> string + iface) \<Rightarrow> booter \<Rightarrow> event \<Rightarrow> bytes \<times> world \<Rightarrow> (action list \<times> bytes \<times> world) option" where
  "dhcp_turn ifaces bt ev s = (case s of (buf, w) \<Rightarrow> case ev_read ev of
      Inl e \<Rightarrow>
        Some ([LogOut (Log ''ProxyDHCP'' (''Error reading from socket: '' @ e))], buf, w)
    | Inr d \<Rightarrow> do {
        let (n, buf) = read_into buf (dg_data d);
        let udpAddr = (dg_addr d)\<lparr>addr_ip := IPv4bcast\<rparr>;
        b \<leftarrow> go_slice buf 0 n;
        res \<leftarrow> ParseDHCP b;
        case res of
          Inl e \<Rightarrow>
            Some ([LogOut (Debug ''ProxyDHCP'' (''ParseDHCP: '' @ dhcp_err_text e))], buf, w)
        | Inr req \<Rightarrow> (case ShouldBoot bt (MAC req) w of
            (Some e, w) \<Rightarrow>
              Some ([LogOut (Debug ''ProxyDHCP''
                 (''Not offering to boot '' @ hw_string (MAC req) @ '': '' @ e))], buf, w)
          | (None, w) \<Rightarrow> (case InterfaceIP ifaces (dg_ifindex d) of
              Inl e \<Rightarrow>
                Some ([LogOut (Log ''ProxyDHCP'' (''Couldn't find an IP address to use to reply to ''
                   @ hw_string (MAC req) @ '': '' @ e))], buf, w)
            | Inr sip \<Rightarrow>
                Some ([LogOut (Log ''ProxyDHCP'' (''Offering to boot '' @ hw_string (MAC req)
                         @ '' (via '' @ ip_string sip @ '')'')),
                       SendTo (OfferDHCP (req\<lparr>ServerIP := sip\<rparr>)) (dg_ifindex d) udpAddr]
                      @ (case ev_write ev of
                           None \<Rightarrow> []
                         | Some e \<Rightarrow> [LogOut (Log ''ProxyDHCP''
                             (''Responding to '' @ hw_string (MAC req) @ '': '' @ e))]),
                      buf, w)))
      })"

definition ServeProxyDHCP ::
  "(int \<Rightarrow> string + iface) \<Rightarrow> socket_env \<Rightarrow> int \<Rightarrow> booter \<Rightarrow> event list \<Rightarrow> world \<Rightarrow>
     (string, action list \<times> world) go" where
  "ServeProxyDHCP ifaces env port bt evs w = (case listen_err env of
      Some e \<Rightarrow> Some (Inl e)
    | None \<Rightarrow> (case control_err env of
        Some e \<Rightarrow> Some (Inl e)
      | None \<Rightarrow> do {
          (os, buf, w) \<leftarrow> serve_loop (dhcp_turn ifaces bt) evs (replicate 1024 0, w);
          Some (Inr (LogOut (Log ''ProxyDHCP'' (''Listening on port '' @ itoa port)) # os, w))
        }))"

text \<open>The reference: the answer to one event, with no buffer in sight. A datagram counts up
  to 1024 bytes.\<close>

definition offer_to :: "dgram \<Rightarrow> DHCPPacket \<Rightarrow> ip \<Rightarrow> string option \<Rightarrow> action list" where
  "offer_to d req sip werr =
     [LogOut (Log ''ProxyDHCP'' (''Offering to boot '' @ hw_string (MAC req)
        @ '' (via '' @ ip_string sip @ '')'')),
      SendTo (OfferDHCP (req\<lparr>ServerIP := sip\<rparr>)) (dg_ifindex d) ((dg_addr d)\<lparr>addr_ip := IPv4bcast\<rparr>)]
     @ (case werr of
          None \<Rightarrow> []
        | Some e \<Rightarrow> [LogOut (Log ''ProxyDHCP'' (''Responding to '' @ hw_string (MAC req) @ '': '' @ e))])"

definition dhcp_respond ::
  "(int \<Rightarrow> string + iface) \<Rightarrow> booter \<Rightarrow> event \<Rightarrow> world \<Rightarrow> action list \<times> world" where
  "dhcp_respond ifaces bt ev w = (case ev_read ev of
      Inl e \<Rightarrow> ([LogOut (Log ''ProxyDHCP'' (''Error reading from socket: '' @ e))], w)
    | Inr d \<Rightarrow> (case the (ParseDHCP (take 1024 (dg_data d))) of
        Inl e \<Rightarrow> ([LogOut (Debug ''ProxyDHCP'' (''ParseDHCP: '' @ dhcp_err_text e))], w)
      | Inr req \<Rightarrow> (case ShouldBoot bt (MAC req) w of
          (Some e, w) \<Rightarrow> ([LogOut (Debug ''ProxyDHCP''
             (''Not offering to boot '' @ hw_string (MAC req) @ '': '' @ e))], w)
        | (None, w) \<Rightarrow> (case InterfaceIP ifaces (dg_ifindex d) of
            Inl e \<Rightarrow> ([LogOut (Log ''ProxyDHCP'' (''Couldn't find an IP address to use to reply to ''
               @ hw_string (MAC req) @ '': '' @ e))], w)
          | Inr sip \<Rightarrow> (offer_to d req sip (ev_write ev), w)))))"

lemma ParseDHCP_Some: "\<exists>r. ParseDHCP b = Some r"
  by (simp add: ParseDHCP_eq)

interpretation dserv: udp_server "dhcp_turn ifaces bt" "dhcp_respond ifaces bt" 1024 for ifaces bt
proof unfold_locales
  fix buf :: bytes and ev w
  assume len: "length buf = 1024"
  show "\<exists>buf'. length buf' = 1024 \<and> dhcp_turn ifaces bt ev (buf, w) =
          Some (fst (dhcp_respond ifaces bt ev w), buf', snd (dhcp_respond ifaces bt ev w))"
  proof (cases "ev_read ev")
    case (Inl e)
    with len show ?thesis by (simp add: dhcp_turn_def dhcp_respond_def)
  next
    case (Inr d)
    obtain r where "ParseDHCP (take 1024 (dg_data d)) = Some r" using ParseDHCP_Some by blast
    with Inr len read_into_slice [of buf "dg_data d"] show ?thesis
      by (auto simp: dhcp_turn_def dhcp_respond_def offer_to_def split_beta
          split: sum.split option.split prod.split)
  qed
qed

lemma dhcp_turn_eq:
  assumes "length buf = 1024"
  obtains buf' where "length buf' = 1024"
    "dhcp_turn ifaces bt ev (buf, w) =
       Some (fst (dhcp_respond ifaces bt ev w), buf', snd (dhcp_respond ifaces bt ev w))"
  using dserv.step_respond [OF assms] by blast

lemma dhcp_respond_sends:
  "SendTo pkt i a \<in> set (fst (dhcp_respond ifaces bt ev w)) \<longleftrightarrow>
     (\<exists>d sip. ev_read ev = Inr d \<and> dhcp_accepts (take 1024 (dg_data d)) \<and>
        fst (ShouldBoot bt (MAC (dhcp_request (take 1024 (dg_data d)))) w) = None \<and>
        InterfaceIP ifaces (dg_ifindex d) = Inr sip \<and>
        pkt = OfferDHCP ((dhcp_request (take 1024 (dg_data d)))\<lparr>ServerIP := sip\<rparr>) \<and>
        i = dg_ifindex d \<and> a = (dg_addr d)\<lparr>addr_ip := IPv4bcast\<rparr>)"
proof (cases "ev_read ev")
  case (Inl e)
  then show ?thesis by (simp add: dhcp_respond_def)
next
  case (Inr d)
  let ?b = "take 1024 (dg_data d)"
  obtain r where r: "ParseDHCP ?b = Some r" using ParseDHCP_Some by blast
  show ?thesis
  proof (cases r)
    case (Inl e)
    then have "\<not> dhcp_accepts ?b" using r ParseDHCP_Inr [of ?b "dhcp_request ?b"] by auto
    with Inl Inr r show ?thesis by (simp add: dhcp_respond_def)
  next
    case req: (Inr req)
    then have "dhcp_accepts ?b" "req = dhcp_request ?b"
      using r ParseDHCP_Inr [of ?b req] by simp_all
    with req Inr r show ?thesis
      by (auto simp: dhcp_respond_def offer_to_def split: prod.splits option.splits sum.splits)
  qed
qed

section \<open>A concrete network\<close>

definition demo_ifaces :: "int \<Rightarrow> string + iface" where
  "demo_ifaces i = Inr \<lparr>if_name = ''eth0'', if_addrs = Inr [OtherAddr, IPNet [127, 0, 0, 1], IPNet [10, 0, 0, 1]]\<rparr>"

definition demo_event :: event where
  "demo_event =
     \<lparr>ev_read = Inr \<lparr>dg_data = client_discover [1, 2, 3, 4] [2, 0, 0, 0, 0, 7] (replicate 16 9) [],
                    dg_ifindex = 2, dg_addr = \<lparr>addr_ip = [0, 0, 0, 0], addr_port = 68\<rparr>\<rparr>,
      ev_write = None\<rparr>"

lemma demo_interface_ip: "InterfaceIP demo_ifaces i = Inr [10, 0, 0, 1]"
  by (simp add: InterfaceIP_def demo_ifaces_def is_global_unicast_def is_link_local_unicast_def
      is_loopback_def multicast_first is_unspecified_def IPv4bcast_def ip_equal_ipv4 ip_equal_v6zero)

lemma demo_discover:
  "dhcp_accepts (take 1024 (client_discover [1, 2, 3, 4] [2, 0, 0, 0, 0, 7] (replicate 16 9) []))"
  "dhcp_request (take 1024 (client_discover [1, 2, 3, 4] [2, 0, 0, 0, 0, 7] (replicate 16 9) [])) =
     \<lparr>TID = [1, 2, 3, 4], MAC = [2, 0, 0, 0, 0, 7], GUID = Some (replicate 16 9), ServerIP = []\<rparr>"
proof -
  let ?b = "client_discover [1, 2, 3, 4] [2, 0, 0, 0, 0, 7] (replicate 16 9) []"
  have "length ?b \<le> 1024"
    by (simp add: client_discover_def DhcpMagic_def enc_opt_def)
  then have "take 1024 ?b = ?b" by simp
  moreover have "ParseDHCP ?b = Some (Inr \<lparr>TID = [1, 2, 3, 4], MAC = [2, 0, 0, 0, 0, 7],
      GUID = Some (replicate 16 9), ServerIP = []\<rparr>)"
    by (rule ParseDHCP_client_discover) (simp_all add: plain_opts_def)
  ultimately show "dhcp_accepts (take 1024 ?b)"
    "dhcp_request (take 1024 ?b) = \<lparr>TID = [1, 2, 3, 4], MAC = [2, 0, 0, 0, 0, 7],
      GUID = Some (replicate 16 9), ServerIP = []\<rparr>"
    by (simp_all only: ParseDHCP_Inr)
qed

section \<open>Properties\<close>

text \<open>
  C25. \<open>InterfaceIP\<close> returns one of the IPv4 addresses of the interface, never a
  broadcast, multicast or unspecified one, and none of the interface's addresses is in a
  better class (global before link-local before loopback); it fails exactly when no address
  is usable.
\<close>

theorem interface_ip_best:
  assumes "ifaces i = Inr f" "if_addrs f = Inr as"
  shows "(InterfaceIP ifaces i = Inr q \<longrightarrow>
            q \<in> set (ipv4_addrs as) \<and> length q = 4 \<and> \<not> is_unusable q \<and>
            (\<forall>r\<in>set (ipv4_addrs as). addr_rank q \<le> addr_rank r)) \<and>
         ((\<exists>e. InterfaceIP ifaces i = Inl e) \<longleftrightarrow> (\<forall>r\<in>set (ipv4_addrs as). is_unusable r))"
proof (cases "scan_classes [is_global_unicast, is_link_local_unicast, is_loopback] as")
  case None
  then have "\<forall>r\<in>set (ipv4_addrs as). is_unusable r"
    using scan_classes_None addr_rank_unusable length_ipv4_addrs by blast
  with None assms show ?thesis
    by (simp add: InterfaceIP_def del: scan_classes.simps)
next
  case (Some p)
  then have p: "p \<in> set (ipv4_addrs as)" "addr_rank p < 3" "length p = 4"
    and best: "\<forall>r\<in>set (ipv4_addrs as). addr_rank p \<le> addr_rank r"
    using scan_classes_Some length_ipv4_addrs by blast+
  then have "\<not> is_unusable p"
    using addr_rank_unusable [of p] by simp
  with p best Some assms show ?thesis
    by (auto simp: InterfaceIP_def simp del: scan_classes.simps)
qed

theorem interface_ip_best_witness:
  "InterfaceIP (\<lambda>i. Inr \<lparr>if_name = ''eth0'',
       if_addrs = Inr [IPNet [127, 0, 0, 1], OtherAddr, IPNet [169, 254, 1, 1]]\<rparr>) 2 = Inr [169, 254, 1, 1] \<and>
   \<not> is_unusable [169, 254, 1, 1]"
proof -
  let ?as = "[IPNet [127, 0, 0, 1], OtherAddr, IPNet [169, 254, 1, 1]]"
  let ?f = "\<lparr>if_name = ''eth0'', if_addrs = Inr ?as\<rparr>"
  have ip: "InterfaceIP (\<lambda>i. Inr ?f) 2 = Inr [169, 254, 1, 1]"
    by (simp add: InterfaceIP_def is_global_unicast_def is_link_local_unicast_def is_loopback_def)
  with interface_ip_best [of "\<lambda>i. Inr ?f" 2 ?f ?as "[169, 254, 1, 1]"] show ?thesis by simp
qed

text \<open>
  C20. The ProxyDHCP server never panics and never stops: for every sequence of reads,
  whatever the datagrams hold, its log and its packets are those of the reference that
  answers each event from the first 1024 bytes of its datagram alone, so no answer depends on
  the bytes an earlier datagram left in the reused buffer.
\<close>

theorem serve_proxy_dhcp_refines:
  "ServeProxyDHCP ifaces \<lparr>listen_err = None, control_err = None\<rparr> port bt evs w =
     Some (Inr (LogOut (Log ''ProxyDHCP'' (''Listening on port '' @ itoa port))
                  # fst (respond_all (dhcp_respond ifaces bt) evs w),
                snd (respond_all (dhcp_respond ifaces bt) evs w)))"
  using dserv.loop_respond [of "replicate 1024 0" ifaces bt evs w]
  by (auto simp: ServeProxyDHCP_def)

text \<open>
  C23. One turn of the ProxyDHCP server sends a packet exactly when the datagram is an
  acceptable request, the booter wants to boot its hardware address and the interface has a
  usable address; the packet is the offer for that request with that address, it leaves
  through the interface the request came in by, and it goes to the broadcast address and the
  port of the sender.
\<close>

theorem dhcp_turn_sends:
  assumes "length buf = 1024" "dhcp_turn ifaces bt ev (buf, w) = Some (os, s')"
  shows "SendTo pkt i a \<in> set os \<longleftrightarrow>
     (\<exists>d sip. ev_read ev = Inr d \<and> dhcp_accepts (take 1024 (dg_data d)) \<and>
        fst (ShouldBoot bt (MAC (dhcp_request (take 1024 (dg_data d)))) w) = None \<and>
        InterfaceIP ifaces (dg_ifindex d) = Inr sip \<and>
        pkt = OfferDHCP ((dhcp_request (take 1024 (dg_data d)))\<lparr>ServerIP := sip\<rparr>) \<and>
        i = dg_ifindex d \<and> a = (dg_addr d)\<lparr>addr_ip := IPv4bcast\<rparr>)"
proof -
  have "os = fst (dhcp_respond ifaces bt ev w)"
    using dhcp_turn_eq [OF assms(1), of ifaces bt ev w] assms(2) by auto
  then show ?thesis by (simp only: dhcp_respond_sends)
qed

theorem dhcp_turn_sends_witness:
  "\<exists>os s'. dhcp_turn demo_ifaces (static_booter (demo_lib ([], [], [])) (StaticBooter ''k'' [] []))
       demo_event (replicate 1024 0, demo_world \<lparr>StatusCode = 200, Body = buffer_reader []\<rparr>) = Some (os, s') \<and>
     SendTo (OfferDHCP \<lparr>TID = [1, 2, 3, 4], MAC = [2, 0, 0, 0, 0, 7], GUID = Some (replicate 16 9),
                       ServerIP = [10, 0, 0, 1]\<rparr>)
       2 \<lparr>addr_ip = IPv4bcast, addr_port = 68\<rparr> \<in> set os"
proof -
  let ?bt = "static_booter (demo_lib ([], [], [])) (StaticBooter ''k'' [] [])"
  let ?w = "demo_world \<lparr>StatusCode = 200, Body = buffer_reader []\<rparr>"
  obtain buf where t: "dhcp_turn demo_ifaces ?bt demo_event (replicate 1024 0, ?w) =
      Some (fst (dhcp_respond demo_ifaces ?bt demo_event ?w), buf,
            snd (dhcp_respond demo_ifaces ?bt demo_event ?w))"
    by (rule dhcp_turn_eq [of "replicate 1024 0"]) simp_all
  have "fst (ShouldBoot ?bt m ?w) = None" for m
    by (simp add: static_booter_def static_ShouldBoot_def)
  with dhcp_turn_sends [OF _ t] t show ?thesis
    using demo_discover demo_interface_ip by (auto simp: demo_event_def)
qed

end
