(* ===== verification/Pxe_Server.thy ===== *)
theory Pxe_Server
  imports Dhcp_Server
begin

text \<open>
  \<open>src/pxe/pxe.go\<close>: the PXE boot server on port 4011. \<open>ParsePXE\<close> reads the menu
  selection of a client, \<open>ReplyPXE\<close> tells it where to fetch the boot loader, and
  \<open>ServePXE\<close> is the loop around them. \<open>PXEPacket\<close> embeds \<open>DHCPPacket\<close>, as the record
  extends it here.
\<close>

section \<open>Definitions\<close>

record PXEPacket = DHCPPacket +
  ClientIP :: ip
  BootType :: "bytes option"
  HTTPServer :: string

datatype pxe_err =
    PxeTooShort
  | PxeNotDhcp mac ip
  | PxeMalformed97 mac ip
  | PxeNotClient mac ip
  | PxeNoSelection mac ip

fun pxe_err_text :: "pxe_err \<Rightarrow> string" where
  "pxe_err_text PxeTooShort = ''packet too short''"
| "pxe_err_text (PxeNotDhcp m i) =
     ''packet from '' @ hw_string m @ '' ('' @ ip_string i @ '') is not a DHCP request''"
| "pxe_err_text (PxeMalformed97 m i) =
     ''packet from '' @ hw_string m @ '' ('' @ ip_string i @ '') has malformed option 97''"
| "pxe_err_text (PxeNotClient m i) =
     hw_string m @ '' ('' @ ip_string i @ '') is not a PXE client''"
| "pxe_err_text (PxeNoSelection m i) =
     hw_string m @ '' ('' @ ip_string i @ '') hasn't selected a menu option''"

text \<open>The inner loop over the vendor field, which stops at the first option 71.\<close>

function find_boot_type :: "bytes \<Rightarrow> bytes option option" where
  "find_boot_type b = do {
     (pxeTyp, pxeVal, val) \<leftarrow> DhcpOption b;
     if pxeTyp = 255 then Some None
     else if pxeTyp = 71 then Some (Some pxeVal)
     else find_boot_type val
   }"
  by pat_completeness auto
termination
  by (relation "measure length") (auto intro: DhcpOption_shorter)

declare find_boot_type.simps [simp del]

function parse_pxe_opts :: "PXEPacket \<Rightarrow> bytes \<Rightarrow> (pxe_err, PXEPacket) go" where
  "parse_pxe_opts ret b = do {
     (typ, val, opts) \<leftarrow> DhcpOption b;
     if typ = 255 then Some (Inr ret)
     else if typ = 43 then do {
       bt \<leftarrow> find_boot_type val;
       parse_pxe_opts (case bt of None \<Rightarrow> ret | Some v \<Rightarrow> ret\<lparr>BootType := Some v\<rparr>) opts
     }
     else if typ = 97 then
       (if length val \<noteq> 17 then Some (Inl (PxeMalformed97 (MAC ret) (ClientIP ret)))
        else do {
          v \<leftarrow> go_index val 0;
          if v \<noteq> 0 then Some (Inl (PxeMalformed97 (MAC ret) (ClientIP ret)))
          else do {
            guid \<leftarrow> go_from val 1;
            parse_pxe_opts (ret\<lparr>GUID := Some guid\<rparr>) opts
          }
        })
     else parse_pxe_opts ret opts
   }"
  by pat_completeness auto
termination
  by (relation "measure (\<lambda>(ret, b). length b)") (auto intro: DhcpOption_shorter)

declare parse_pxe_opts.simps [simp del]

definition ParsePXE :: "bytes \<Rightarrow> (pxe_err, PXEPacket) go" where
  "ParsePXE b =
     (if length b < 240 then Some (Inl PxeTooShort)
      else do {
        tid \<leftarrow> go_slice b 4 8;
        mac \<leftarrow> go_slice b 28 34;
        cip \<leftarrow> go_slice b 12 16;
        let ret = \<lparr>TID = tid, MAC = mac, GUID = None, ServerIP = [],
                   ClientIP = cip, BootType = None, HTTPServer = []\<rparr>;
        magic \<leftarrow> go_slice b 236 240;
        if magic \<noteq> DhcpMagic then Some (Inl (PxeNotDhcp (MAC ret) (ClientIP ret)))
        else do {
          field \<leftarrow> go_from b 240;
          res \<leftarrow> parse_pxe_opts ret field;
          case res of
            Inl e \<Rightarrow> Some (Inl e)
          | Inr p \<Rightarrow>
              (if GUID p = None then Some (Inl (PxeNotClient (MAC ret) (ClientIP ret)))
               else if BootType p = None then Some (Inl (PxeNoSelection (MAC ret) (ClientIP ret)))
               else Some (Inr p))
        }
      })"

definition reply_bootp :: "PXEPacket \<Rightarrow> bytes" where
  "reply_bootp p =
     copy_at 108 (bytes_of ''boot'') (copy_at 28 (MAC p) (copy_at 20 (ServerIP p)
       (copy_at 16 (ClientIP p) (copy_at 4 (TID p)
         ((replicate 236 0)[0 := 2, 1 := 1, 2 := 6, 10 := 0x80])))))"

definition ReplyPXE :: "PXEPacket \<Rightarrow> bytes" where
  "ReplyPXE p =
     reply_bootp p
     @ DhcpMagic
     @ [53, 1, 5]
     @ [54, 4] @ ServerIP p
     @ [60, 9] @ bytes_of ''PXEClient''
     @ [97, 17, 0] @ guid_bytes (GUID p)
     @ [43, 7, 71, 4] @ guid_bytes (BootType p) @ [255]
     @ [210, of_nat (length (HTTPServer p))] @ bytes_of (HTTPServer p)
     @ [211, 4, 0, 0, 0, 5]
     @ [255]"

text \<open>\<open>fmt.Sprintf("http://%s:%d/", req.ServerIP, httpPort)\<close>.\<close>

definition http_server_url :: "ip \<Rightarrow> int \<Rightarrow> string" where
  "http_server_url sip httpPort = ''http://'' @ ip_string sip @ '':'' @ itoa httpPort @ ''/''"

definition pxe_turn ::
  "(int \<Rightarrow> string + iface) \<Rightarrow> int \<Rightarrow> event \<Rightarrow> bytes \<times> world \<Rightarrow> (action list \<times> bytes \<times> world) option" where
  "pxe_turn ifaces httpPort ev s = (case s of (buf, w) \<Rightarrow> case ev_read ev of
      Inl e \<Rightarrow> Some ([LogOut (Log ''PXE'' (''Error reading from socket: '' @ e))], buf, w)
    | Inr d \<Rightarrow> do {
        let (n, buf) = read_into buf (dg_data d);
        b \<leftarrow> go_slice buf 0 n;
        res \<leftarrow> ParsePXE b;
        case res of
          Inl e \<Rightarrow> Some ([LogOut (Debug ''PXE'' (''ParsePXE: '' @ pxe_err_text e))], buf, w)
        | Inr req \<Rightarrow> (case InterfaceIP ifaces (dg_ifindex d) of
            Inl e \<Rightarrow>
              Some ([LogOut (Log ''PXE'' (''Couldn't find an IP address to use to reply to ''
                 @ hw_string (MAC req) @ '': '' @ e))], buf, w)
          | Inr sip \<Rightarrow>
              Some ([LogOut (Log ''PXE'' (''Chainloading '' @ hw_string (MAC req) @ '' (''
                       @ ip_string (ClientIP req) @ '') to pxelinux (via '' @ ip_string sip @ '')'')),
                     SendTo (ReplyPXE (req\<lparr>ServerIP := sip,
                         HTTPServer := http_server_url sip httpPort\<rparr>))
                       (dg_ifindex d) (dg_addr d)]
                    @ (case ev_write ev of
                         None \<Rightarrow> []
                       | Some e \<Rightarrow> [LogOut (Log ''PXE''
                           (''Responding to '' @ hw_string (MAC req) @ '': '' @ e))]),
                    buf, w))
      })"

definition ServePXE ::
  "(int \<Rightarrow> string + iface) \<Rightarrow> socket_env \<Rightarrow> int \<Rightarrow> int \<Rightarrow> event list \<Rightarrow> world \<Rightarrow>
     (string, action list \<times> world) go" where
  "ServePXE ifaces env pxePort httpPort evs w = (case listen_err env of
      Some e \<Rightarrow> Some (Inl e)
    | None \<Rightarrow> (case control_err env of
        Some e \<Rightarrow> Some (Inl e)
      | None \<Rightarrow> do {
          (os, buf, w) \<leftarrow> serve_loop (pxe_turn ifaces httpPort) evs (replicate 1024 0, w);
          Some (Inr (LogOut (Log ''PXE'' (''Listening on port '' @ itoa pxePort)) # os, w))
        }))"

section \<open>What ParsePXE accepts\<close>

fun check_pxe_opts :: "PXEPacket \<Rightarrow> (byte \<times> bytes) list \<Rightarrow> pxe_err + PXEPacket" where
  "check_pxe_opts ret [] = Inr ret"
| "check_pxe_opts ret ((typ, val) # os) =
     (if typ = 97 \<and> (length val \<noteq> 17 \<or> hd val \<noteq> 0) then Inl (PxeMalformed97 (MAC ret) (ClientIP ret))
      else if typ = 97 then check_pxe_opts (ret\<lparr>GUID := Some (tl val)\<rparr>) os
      else if typ = 43 then
        check_pxe_opts (case opt_values 71 (dhcp_options val) of
            [] \<Rightarrow> ret | v # _ \<Rightarrow> ret\<lparr>BootType := Some v\<rparr>) os
      else check_pxe_opts ret os)"

lemma find_boot_type_eq:
  "find_boot_type b = Some (case opt_values 71 (dhcp_options b) of [] \<Rightarrow> None | v # _ \<Rightarrow> Some v)"
proof (induction b rule: length_induct)
  case (1 b)
  obtain t v r where nxt: "DhcpOption b = Some (t, v, r)"
    using dopt.nxt_returns by blast
  show ?case
    using 1 dopt.nxt_shorter [OF nxt]
    by (subst find_boot_type.simps) (auto simp: nxt dopt.opts_unfold [OF nxt])
qed

lemma parse_pxe_opts_eq: "parse_pxe_opts ret b = Some (check_pxe_opts ret (dhcp_options b))"
proof (induction b arbitrary: ret rule: length_induct)
  case (1 b)
  obtain t v r where nxt: "DhcpOption b = Some (t, v, r)"
    using dopt.nxt_returns by blast
  show ?case
  proof (cases "t = 255")
    case True
    then show ?thesis
      by (subst parse_pxe_opts.simps) (simp add: nxt dopt.opts_unfold [OF nxt])
  next
    case False
    then have IH: "parse_pxe_opts ret' r = Some (check_pxe_opts ret' (dhcp_options r))" for ret'
      using "1.IH" dopt.nxt_shorter [OF nxt] by blast
    have "v ! 0 = hd v \<and> drop 1 v = tl v" if "length v = 17"
      using that by (cases v) auto
    with False show ?thesis
      by (subst parse_pxe_opts.simps)
        (auto simp: nxt IH dopt.opts_unfold [OF nxt] find_boot_type_eq go_index_def go_from_def
          split: list.splits)
  qed
qed

text \<open>The menu selections of a packet: the first option 71 of every vendor field that has
  one. The last of them counts.\<close>

definition boot_types :: "(byte \<times> bytes) list \<Rightarrow> bytes list" where
  "boot_types os = concat (map (\<lambda>v. take 1 (opt_values 71 (dhcp_options v))) (opt_values 43 os))"

definition last_boot_type :: "(byte \<times> bytes) list \<Rightarrow> bytes option" where
  "last_boot_type os = (case boot_types os of [] \<Rightarrow> None | v # vs \<Rightarrow> Some (last (v # vs)))"

definition pxe_opts_ok :: "(byte \<times> bytes) list \<Rightarrow> bool" where
  "pxe_opts_ok os \<longleftrightarrow> list_all (\<lambda>v. length v = 17 \<and> hd v = 0) (opt_values 97 os)"

definition orelse :: "'a option \<Rightarrow> 'a option \<Rightarrow> 'a option" where
  "orelse x y = (case x of None \<Rightarrow> y | Some a \<Rightarrow> Some a)"

lemma boot_types_Cons:
  "boot_types ((t, v) # os) =
     (if t = 43 then take 1 (opt_values 71 (dhcp_options v)) @ boot_types os else boot_types os)"
  by (simp add: boot_types_def)

lemma check_pxe_opts_Inr:
  "check_pxe_opts ret os = Inr p \<longleftrightarrow>
     pxe_opts_ok os \<and>
     p = ret\<lparr>GUID := orelse (last_guid os) (GUID ret),
             BootType := orelse (last_boot_type os) (BootType ret)\<rparr>"
proof (induction ret os rule: check_pxe_opts.induct)
  case (1 ret)
  show ?case by (cases ret) (auto simp: pxe_opts_ok_def last_guid_def last_boot_type_def boot_types_def orelse_def)
next
  case (2 ret t v os)
  then show ?case
    by (auto simp: pxe_opts_ok_def last_guid_def last_boot_type_def boot_types_Cons orelse_def
        split: list.splits if_splits)
qed

definition pxe_accepts :: "bytes \<Rightarrow> bool" where
  "pxe_accepts b \<longleftrightarrow>
     240 \<le> length b \<and> take 4 (drop 236 b) = DhcpMagic \<and>
     pxe_opts_ok (dhcp_options (drop 240 b)) \<and>
     opt_values 97 (dhcp_options (drop 240 b)) \<noteq> [] \<and> boot_types (dhcp_options (drop 240 b)) \<noteq> []"

definition pxe_request :: "bytes \<Rightarrow> PXEPacket" where
  "pxe_request b =
     \<lparr>TID = take 4 (drop 4 b), MAC = take 6 (drop 28 b),
      GUID = last_guid (dhcp_options (drop 240 b)), ServerIP = [],
      ClientIP = take 4 (drop 12 b), BootType = last_boot_type (dhcp_options (drop 240 b)),
      HTTPServer = []\<rparr>"

lemma last_boot_type_None: "last_boot_type os = None \<longleftrightarrow> boot_types os = []"
  by (simp add: last_boot_type_def split: list.splits)

lemma ParsePXE_eq:
  "ParsePXE b = Some (
     let mac = take 6 (drop 28 b); cip = take 4 (drop 12 b) in
     if length b < 240 then Inl PxeTooShort
     else if take 4 (drop 236 b) \<noteq> DhcpMagic then Inl (PxeNotDhcp mac cip)
     else case check_pxe_opts \<lparr>TID = take 4 (drop 4 b), MAC = mac, GUID = None, ServerIP = [],
         ClientIP = cip, BootType = None, HTTPServer = []\<rparr> (dhcp_options (drop 240 b)) of
       Inl e \<Rightarrow> Inl e
     | Inr p \<Rightarrow> if GUID p = None then Inl (PxeNotClient mac cip)
               else if BootType p = None then Inl (PxeNoSelection mac cip) else Inr p)"
proof (cases "length b < 240")
  case False
  then show ?thesis
    by (auto simp: ParsePXE_def parse_pxe_opts_eq Let_def split: sum.splits)
qed (simp add: ParsePXE_def)

lemma ParsePXE_Some: "\<exists>r. ParsePXE b = Some r"
  by (simp add: ParsePXE_eq)

lemma ParsePXE_Inr: "ParsePXE b = Some (Inr p) \<longleftrightarrow> pxe_accepts b \<and> p = pxe_request b"
proof -
  let ?os = "dhcp_options (drop 240 b)"
  let ?ret = "\<lparr>TID = take 4 (drop 4 b), MAC = take 6 (drop 28 b), GUID = None, ServerIP = [],
     ClientIP = take 4 (drop 12 b), BootType = None, HTTPServer = []\<rparr>"
  show ?thesis
  proof (cases "check_pxe_opts ?ret ?os")
    case (Inl e)
    then have "\<not> pxe_opts_ok ?os"
      by (metis Inl_Inr_False check_pxe_opts_Inr)
    with Inl show ?thesis
      by (auto simp: ParsePXE_eq Let_def pxe_accepts_def)
  next
    case (Inr q)
    then have "pxe_opts_ok ?os"
      and "q = ?ret\<lparr>GUID := orelse (last_guid ?os) (GUID ?ret),
                   BootType := orelse (last_boot_type ?os) (BootType ?ret)\<rparr>"
      by (simp_all only: check_pxe_opts_Inr)
    with Inr show ?thesis
      by (auto simp: ParsePXE_eq Let_def pxe_accepts_def pxe_request_def orelse_def
          last_guid_None [symmetric] last_boot_type_None [symmetric] split: option.splits)
  qed
qed

section \<open>What ReplyPXE says\<close>

text \<open>The shape of a request the server answers: what the parser guarantees and the server
  filled in. The boot type has the four bytes of the PXE specification.\<close>

definition wf_reply :: "PXEPacket \<Rightarrow> bool" where
  "wf_reply p \<longleftrightarrow>
     wf_packet p \<and> length (ServerIP p) = 4 \<and> length (ClientIP p) = 4 \<and>
     (\<exists>bt. BootType p = Some bt \<and> length bt = 4) \<and> length (HTTPServer p) < 256"

lemma length_reply_bootp [simp]: "length (reply_bootp p) = 236"
  by (simp add: reply_bootp_def)

text \<open>Each \<open>copy\<close> fills a gap of zeros; the header as a whole is its fields in a row.\<close>

lemma copy_at_gap:
  "length pre = i \<Longrightarrow> length src = n \<Longrightarrow> copy_at i src (pre @ replicate n z @ post) = pre @ src @ post"
  by (simp add: copy_at_def)

lemma copy_at_zeros:
  assumes "length pre + k = j" "k + length src + l = m"
  shows "copy_at j src (pre @ replicate m z) = (pre @ replicate k z @ src) @ replicate l z"
proof -
  have "replicate m z = replicate k z @ replicate (length src) z @ replicate l z"
    using assms(2) by (simp flip: replicate_add)
  then show ?thesis using copy_at_gap [of "pre @ replicate k z" j src "length src" z "replicate l z"] assms(1) by simp
qed

lemma reply_bootp_eq:
  assumes "length (TID p) = 4" "length (MAC p) = 6" "length (ServerIP p) = 4" "length (ClientIP p) = 4"
  shows "reply_bootp p = [2, 1, 6, 0] @ TID p @ [0, 0, 0x80, 0] @ replicate 4 0 @ ClientIP p @ ServerIP p @
    replicate 4 0 @ MAC p @ replicate 74 0 @ bytes_of ''boot'' @ replicate 124 0"
proof -
  have "(replicate 236 0)[0 := 2, 1 := 1, 2 := 6, 10 := 0x80] =
      [2, 1, 6, 0] @ replicate 4 (0 :: byte) @ [0, 0, 0x80, 0] @ replicate 224 0"
    by (simp add: numeral_eq_Suc)
  then have "reply_bootp p = copy_at 108 (bytes_of ''boot'') (copy_at 28 (MAC p) (copy_at 20 (ServerIP p)
      (copy_at 16 (ClientIP p) (([2, 1, 6, 0] @ TID p @ [0, 0, 0x80, 0]) @ replicate 224 0))))"
    using copy_at_gap [of "[2, 1, 6, 0]" 4 "TID p" 4 0 "[0, 0, 0x80, 0] @ replicate 224 0"] assms(1)
    by (simp add: reply_bootp_def)
  also have "copy_at 16 (ClientIP p) (([2, 1, 6, 0] @ TID p @ [0, 0, 0x80, 0]) @ replicate 224 0) =
      (([2, 1, 6, 0] @ TID p @ [0, 0, 0x80, 0]) @ replicate 4 0 @ ClientIP p) @ replicate 216 0" (is "_ = ?a @ _")
    by (rule copy_at_zeros) (simp_all add: assms)
  also have "copy_at 20 (ServerIP p) (?a @ replicate 216 0) = (?a @ replicate 0 0 @ ServerIP p) @ replicate 212 0" (is "_ = ?b @ _")
    by (rule copy_at_zeros) (simp_all add: assms)
  also have "copy_at 28 (MAC p) (?b @ replicate 212 0) = (?b @ replicate 4 0 @ MAC p) @ replicate 202 0" (is "_ = ?c @ _")
    by (rule copy_at_zeros) (simp_all add: assms)
  also have "copy_at 108 (bytes_of ''boot'') (?c @ replicate 202 0) =
      (?c @ replicate 74 0 @ bytes_of ''boot'') @ replicate 124 0"
    by (rule copy_at_zeros) (simp_all add: assms)
  finally show ?thesis by (simp only: append_assoc replicate_0 append_Nil)
qed

lemma reply_bootp_slices:
  assumes "length (TID p) = 4" "length (MAC p) = 6" "length (ServerIP p) = 4" "length (ClientIP p) = 4"
  shows "take 4 (drop 4 (reply_bootp p)) = TID p" "take 4 (drop 12 (reply_bootp p)) = [0, 0, 0, 0]"
    "take 4 (drop 16 (reply_bootp p)) = ClientIP p" "take 4 (drop 20 (reply_bootp p)) = ServerIP p"
    "take 6 (drop 28 (reply_bootp p)) = MAC p"
    "take 5 (drop 108 (reply_bootp p)) = bytes_of ''boot'' @ [0]"
  using assms
  by (auto simp: reply_bootp_def nth_copy_at nth_append nth_Cons' intro!: nth_equalityI)

definition reply_opts :: "PXEPacket \<Rightarrow> (byte \<times> bytes) list" where
  "reply_opts p =
     [(53, [5]), (54, ServerIP p), (60, bytes_of ''PXEClient''), (97, 0 # guid_bytes (GUID p)),
      (43, enc_opts [(71, guid_bytes (BootType p))] @ [255]),
      (210, bytes_of (HTTPServer p)), (211, [0, 0, 0, 5])]"

lemma wf_reply_guid:
  "wf_reply p \<Longrightarrow> length (guid_bytes (GUID p)) = 16 \<and> length (guid_bytes (BootType p)) = 4"
  by (auto simp: wf_reply_def wf_packet_def guid_bytes_def)

lemma ReplyPXE_enc:
  "wf_reply p \<Longrightarrow> ReplyPXE p = reply_bootp p @ DhcpMagic @ enc_opts (reply_opts p) @ [255]"
  using wf_reply_guid [of p]
  by (simp add: ReplyPXE_def reply_opts_def enc_opt_def wf_reply_def)

lemma reply_options:
  assumes "wf_reply p"
  shows "dhcp_options (drop 240 (ReplyPXE p)) = reply_opts p"
    "dhcp_options (enc_opts [(71, guid_bytes (BootType p))] @ [255]) = [(71, guid_bytes (BootType p))]"
proof -
  have len: "length (guid_bytes (GUID p)) = 16" "length (guid_bytes (BootType p)) = 4"
    using wf_reply_guid [OF assms] by simp_all
  then have "list_all wf_opt (reply_opts p)"
    using assms by (simp add: reply_opts_def wf_opt_def wf_reply_def enc_opt_def)
  moreover have "drop 240 (ReplyPXE p) = enc_opts (reply_opts p) @ 255 # []"
    using assms by (simp add: ReplyPXE_enc DhcpMagic_def)
  ultimately show "dhcp_options (drop 240 (ReplyPXE p)) = reply_opts p"
    by (simp only: dopt.opts_roundtrip)
  have "list_all wf_opt [(71, guid_bytes (BootType p))]"
    using len by (simp add: wf_opt_def)
  then show "dhcp_options (enc_opts [(71, guid_bytes (BootType p))] @ [255]) = [(71, guid_bytes (BootType p))]"
    using dopt.opts_roundtrip(1) [of _ "[]"] by blast
qed

lemma ReplyPXE_slice:
  "i + n \<le> 236 \<Longrightarrow> take n (drop i (ReplyPXE p)) = take n (drop i (reply_bootp p))"
  by (simp add: ReplyPXE_def)

section \<open>The server\<close>

definition pxe_answer :: "PXEPacket \<Rightarrow> ip \<Rightarrow> int \<Rightarrow> PXEPacket" where
  "pxe_answer req sip httpPort = req\<lparr>ServerIP := sip, HTTPServer := http_server_url sip httpPort\<rparr>"

definition pxe_respond ::
  "(int \<Rightarrow> string + iface) \<Rightarrow> int \<Rightarrow> event \<Rightarrow> world \<Rightarrow> action list \<times> world" where
  "pxe_respond ifaces httpPort ev w = (case ev_read ev of
      Inl e \<Rightarrow> ([LogOut (Log ''PXE'' (''Error reading from socket: '' @ e))], w)
    | Inr d \<Rightarrow> (case the (ParsePXE (take 1024 (dg_data d))) of
        Inl e \<Rightarrow> ([LogOut (Debug ''PXE'' (''ParsePXE: '' @ pxe_err_text e))], w)
      | Inr req \<Rightarrow> (case InterfaceIP ifaces (dg_ifindex d) of
          Inl e \<Rightarrow> ([LogOut (Log ''PXE'' (''Couldn't find an IP address to use to reply to ''
             @ hw_string (MAC req) @ '': '' @ e))], w)
        | Inr sip \<Rightarrow>
            ([LogOut (Log ''PXE'' (''Chainloading '' @ hw_string (MAC req) @ '' (''
                @ ip_string (ClientIP req) @ '') to pxelinux (via '' @ ip_string sip @ '')'')),
              SendTo (ReplyPXE (pxe_answer req sip httpPort)) (dg_ifindex d) (dg_addr d)]
             @ (case ev_write ev of
                  None \<Rightarrow> []
                | Some e \<Rightarrow> [LogOut (Log ''PXE'' (''Responding to '' @ hw_string (MAC req) @ '': '' @ e))]), w))))"

interpretation pserv: udp_server "pxe_turn ifaces httpPort" "pxe_respond ifaces httpPort" 1024
  for ifaces httpPort
proof unfold_locales
  fix buf :: bytes and ev w
  assume len: "length buf = 1024"
  show "\<exists>buf'. length buf' = 1024 \<and> pxe_turn ifaces httpPort ev (buf, w) =
          Some (fst (pxe_respond ifaces httpPort ev w), buf', snd (pxe_respond ifaces httpPort ev w))"
  proof (cases "ev_read ev")
    case (Inl e)
    with len show ?thesis by (simp add: pxe_turn_def pxe_respond_def)
  next
    case (Inr d)
    obtain r where "ParsePXE (take 1024 (dg_data d)) = Some r" using ParsePXE_Some by blast
    with Inr len read_into_slice [of buf "dg_data d"] show ?thesis
      by (auto simp: pxe_turn_def pxe_respond_def pxe_answer_def split_beta split: sum.split option.split)
  qed
qed

lemma pxe_turn_eq:
  assumes "length buf = 1024"
  obtains buf' where "length buf' = 1024"
    "pxe_turn ifaces httpPort ev (buf, w) =
       Some (fst (pxe_respond ifaces httpPort ev w), buf', snd (pxe_respond ifaces httpPort ev w))"
  using pserv.step_respond [OF assms] by blast

lemma pxe_respond_sends:
  "SendTo pkt i a \<in> set (fst (pxe_respond ifaces httpPort ev w)) \<longleftrightarrow>
     (\<exists>d sip. ev_read ev = Inr d \<and> pxe_accepts (take 1024 (dg_data d)) \<and>
        InterfaceIP ifaces (dg_ifindex d) = Inr sip \<and>
        pkt = ReplyPXE (pxe_answer (pxe_request (take 1024 (dg_data d))) sip httpPort) \<and>
        i = dg_ifindex d \<and> a = dg_addr d)"
proof (cases "ev_read ev")
  case (Inl e)
  then show ?thesis by (simp add: pxe_respond_def)
next
  case (Inr d)
  let ?b = "take 1024 (dg_data d)"
  obtain r where r: "ParsePXE ?b = Some r" using ParsePXE_Some by blast
  show ?thesis
  proof (cases r)
    case (Inl e)
    then have "\<not> pxe_accepts ?b" using r ParsePXE_Inr [of ?b "pxe_request ?b"] by auto
    with Inl Inr r show ?thesis by (simp add: pxe_respond_def)
  next
    case req: (Inr req)
    then have "pxe_accepts ?b" "req = pxe_request ?b"
      using r ParsePXE_Inr [of ?b req] by simp_all
    with req Inr r show ?thesis
      by (auto simp: pxe_respond_def split: option.splits sum.splits)
  qed
qed

text \<open>The length of the path prefix fits the option that carries it.\<close>

lemma length_dotted: "length q = 4 \<Longrightarrow> length (ip_string q) \<le> 15"
proof -
  assume q: "length q = 4"
  have d: "length (dec_nat (unat (b :: byte))) \<le> 3" for b
  proof -
    have "unat b < 10 ^ Suc 2" by (rule less_trans [OF unat_byte_less]) simp
    then have "length (dec_nat (unat b)) \<le> Suc 2" by (rule length_dec_nat_le)
    then show ?thesis by simp
  qed
  have "ip_string q = join_with ''.'' (map (\<lambda>b. dec_nat (unat b)) [q ! 0, q ! 1, q ! 2, q ! 3])"
    using q list4_split [OF q] by (auto simp: ip_string_def)
  then show ?thesis
    using d [of "q ! 0"] d [of "q ! 1"] d [of "q ! 2"] d [of "q ! 3"] by simp
qed

lemma length_http_server_url:
  "length sip = 4 \<Longrightarrow> int64_range httpPort \<Longrightarrow> length (http_server_url sip httpPort) \<le> 44"
  using length_dotted [of sip] length_itoa_int64 [of httpPort] by (simp add: http_server_url_def)

lemma pxe_request_wf:
  assumes "pxe_accepts b"
  shows "wf_packet (pxe_request b)" "length (ClientIP (pxe_request b)) = 4"
    "BootType (pxe_request b) \<noteq> None"
proof -
  let ?os = "dhcp_options (drop 240 b)"
  have "opt_values 97 ?os \<noteq> []" "pxe_opts_ok ?os"
    using assms by (simp_all add: pxe_accepts_def)
  then have "length (tl (last (opt_values 97 ?os))) = 16"
    by (auto simp: pxe_opts_ok_def list_all_iff)
  then have "\<exists>g. last_guid ?os = Some g \<and> length g = 16"
    using \<open>opt_values 97 ?os \<noteq> []\<close> by (auto simp: last_guid_def split: list.splits)
  then show "wf_packet (pxe_request b)" "length (ClientIP (pxe_request b)) = 4"
    "BootType (pxe_request b) \<noteq> None"
    using assms by (auto simp: pxe_accepts_def wf_packet_def pxe_request_def last_boot_type_None)
qed

section \<open>The request of a PXE client\<close>

text \<open>The request a PXE ROM sends to a boot server after the user, or the timeout, has picked
  an entry of the menu: its own address, its identifier, and the picked boot server type with
  a layer in option 71 of the vendor field.\<close>

definition client_select :: "bytes \<Rightarrow> mac \<Rightarrow> ip \<Rightarrow> bytes \<Rightarrow> bytes \<Rightarrow> bytes" where
  "client_select tid mac cip guid bt =
     [1, 1, 6, 0] @ tid @ replicate 4 0 @ cip @ replicate 12 0 @ mac @ replicate 202 0 @ DhcpMagic
     @ enc_opts [(53, [3]), (97, 0 # guid), (43, enc_opts [(71, bt)] @ [255])] @ [255]"

lemma client_select_options:
  assumes "length tid = 4" "length mac = 6" "length cip = 4" "length guid = 16" "length bt < 250"
  shows "dhcp_options (drop 240 (client_select tid mac cip guid bt)) =
           [(53, [3]), (97, 0 # guid), (43, enc_opts [(71, bt)] @ [255])]"
    "dhcp_options (enc_opts [(71, bt)] @ [255]) = [(71, bt)]"
proof -
  let ?os = "[(53, [3]), (97, 0 # guid), (43, enc_opts [(71, bt)] @ [255])]"
  have "list_all wf_opt ?os"
    using assms by (simp add: wf_opt_def enc_opt_def)
  moreover have "drop 240 (client_select tid mac cip guid bt) = enc_opts ?os @ 255 # []"
    using assms by (simp add: client_select_def DhcpMagic_def)
  ultimately show "dhcp_options (drop 240 (client_select tid mac cip guid bt)) = ?os"
    by (simp only: dopt.opts_roundtrip)
  have "list_all wf_opt [(71, bt)]"
    using assms by (simp add: wf_opt_def)
  then show "dhcp_options (enc_opts [(71, bt)] @ [255]) = [(71, bt)]"
    using dopt.opts_roundtrip(1) [of _ "[]"] by blast
qed

lemma ParsePXE_client_select:
  assumes "length tid = 4" "length mac = 6" "length cip = 4" "length guid = 16" "length bt < 250"
  shows "ParsePXE (client_select tid mac cip guid bt) =
    Some (Inr \<lparr>TID = tid, MAC = mac, GUID = Some guid, ServerIP = [], ClientIP = cip,
               BootType = Some bt, HTTPServer = []\<rparr>)"
proof -
  let ?b = "client_select tid mac cip guid bt"
  let ?os = "[(53, [3]), (97, 0 # guid), (43, enc_opts [(71, bt)] @ [255])]"
  have "240 \<le> length ?b" "take 4 (drop 236 ?b) = DhcpMagic" "take 4 (drop 4 ?b) = tid"
    "take 6 (drop 28 ?b) = mac" "take 4 (drop 12 ?b) = cip"
    using assms by (simp_all add: client_select_def DhcpMagic_def)
  moreover have "boot_types ?os = [bt]" "opt_values 97 ?os = [0 # guid]"
    using client_select_options(2) [OF assms] by (simp_all add: boot_types_def)
  ultimately show ?thesis
    using assms(4) client_select_options(1) [OF assms]
    by (simp add: ParsePXE_Inr pxe_accepts_def pxe_request_def pxe_opts_ok_def last_guid_def
        last_boot_type_def)
qed

definition demo_select :: event where
  "demo_select =
     \<lparr>ev_read = Inr \<lparr>dg_data = client_select [1, 2, 3, 4] [2, 0, 0, 0, 0, 7] [10, 0, 0, 9] (replicate 16 9)
                        [0x80, 0, 0, 0],
                    dg_ifindex = 2, dg_addr = \<lparr>addr_ip = [10, 0, 0, 9], addr_port = 68\<rparr>\<rparr>,
      ev_write = None\<rparr>"

lemma demo_selection:
  "pxe_accepts (take 1024 (client_select [1, 2, 3, 4] [2, 0, 0, 0, 0, 7] [10, 0, 0, 9] (replicate 16 9)
     [0x80, 0, 0, 0]))"
  "pxe_request (take 1024 (client_select [1, 2, 3, 4] [2, 0, 0, 0, 0, 7] [10, 0, 0, 9] (replicate 16 9)
     [0x80, 0, 0, 0])) =
   \<lparr>TID = [1, 2, 3, 4], MAC = [2, 0, 0, 0, 0, 7], GUID = Some (replicate 16 9), ServerIP = [],
    ClientIP = [10, 0, 0, 9], BootType = Some [0x80, 0, 0, 0], HTTPServer = []\<rparr>"
proof -
  let ?b = "client_select [1, 2, 3, 4] [2, 0, 0, 0, 0, 7] [10, 0, 0, 9] (replicate 16 9) [0x80, 0, 0, 0]"
  have "length ?b \<le> 1024"
    by (simp add: client_select_def DhcpMagic_def enc_opt_def)
  then have "take 1024 ?b = ?b" by simp
  moreover have "ParsePXE ?b = Some (Inr \<lparr>TID = [1, 2, 3, 4], MAC = [2, 0, 0, 0, 0, 7],
      GUID = Some (replicate 16 9), ServerIP = [], ClientIP = [10, 0, 0, 9],
      BootType = Some [0x80, 0, 0, 0], HTTPServer = []\<rparr>)"
    by (rule ParsePXE_client_select) simp_all
  ultimately show "pxe_accepts (take 1024 ?b)"
    "pxe_request (take 1024 ?b) = \<lparr>TID = [1, 2, 3, 4], MAC = [2, 0, 0, 0, 0, 7],
      GUID = Some (replicate 16 9), ServerIP = [], ClientIP = [10, 0, 0, 9],
      BootType = Some [0x80, 0, 0, 0], HTTPServer = []\<rparr>"
    by (simp_all only: ParsePXE_Inr)
qed

text \<open>\<open>ReplyPXE\<close> announces four bytes of boot type whatever the length of the selection it
  mirrors, and \<open>ParsePXE\<close> accepts a selection of any length: the reply to a client that
  sent an empty one has lost its HTTP path prefix.\<close>

lemma empty_boot_type_breaks_reply:
  fixes p :: PXEPacket
  assumes p: "p = \<lparr>TID = [1, 2, 3, 4], MAC = [2, 0, 0, 0, 0, 7], GUID = Some (replicate 16 9),
    ServerIP = [10, 0, 0, 1], ClientIP = [10, 0, 0, 9], BootType = Some [],
    HTTPServer = ''http://10.0.0.1:70/''\<rparr>"
  shows "opt_values 210 (dhcp_options (drop 240 (ReplyPXE p))) = []"
proof -
  let ?os = "[(53, [5]), (54, [10, 0, 0, 1]), (60, bytes_of ''PXEClient''), (97, 0 # replicate 16 9),
     (43, [71, 4, 255, 210, 19] @ bytes_of ''ht'')] :: (byte \<times> bytes) list"
  let ?r = "bytes_of ''tp://10.0.0.1:70/'' @ [211, 4, 0, 0, 0, 5, 255]"
  have "drop 240 (ReplyPXE p) = enc_opts ?os @ ?r"
    by (simp add: p ReplyPXE_def DhcpMagic_def enc_opt_def guid_bytes_def bytes_of_Cons)
  moreover have "list_all wf_opt ?os" by (simp add: wf_opt_def)
  moreover have "DhcpOption ?r = Some (255, [], [])"
    by (simp add: DhcpOption_eq bytes_of_Cons)
  ultimately have "dhcp_options (drop 240 (ReplyPXE p)) = ?os"
    using dopt.opts_unfold [of ?r 255 "[]" "[]"] by (simp only: dopt.opts_enc_opts) simp
  then show ?thesis by simp
qed

section \<open>Properties\<close>

text \<open>
  C10. \<open>ParsePXE\<close> never panics and accepts exactly the packets of at least 240 bytes
  with the DHCP magic whose client identifiers are all well formed, with at least one client
  identifier and at least one menu selection; the result holds the client's own address, the
  last identifier and the last selection.
\<close>

theorem parse_pxe_exact:
  "ParsePXE b \<noteq> None \<and> (ParsePXE b = Some (Inr p) \<longleftrightarrow> pxe_accepts b \<and> p = pxe_request b)"
  by (simp add: ParsePXE_Inr) (simp add: ParsePXE_eq)

text \<open>
  C12. The reply to a request with a boot type of four bytes is well formed. Its BOOTP header,
  byte for byte, is that of a reply over Ethernet with the broadcast flag: it carries the client's
  transaction id and hardware address, the client's address, the server's own address as the TFTP
  server and the boot file name, and is zero elsewhere. Its options read back as exactly the
  acknowledgement, server id, vendor class, the client's identifier, the mirrored menu selection,
  the HTTP path prefix and the reboot timeout.
\<close>

theorem reply_reads_back:
  assumes "wf_reply p"
  shows "take 236 (ReplyPXE p) =
      [2, 1, 6, 0] @ TID p @ [0, 0, 0x80, 0] @ replicate 4 0 @ ClientIP p @ ServerIP p @
      replicate 4 0 @ MAC p @ replicate 74 0 @ bytes_of ''boot'' @ replicate 124 0 \<and>
    take 4 (drop 236 (ReplyPXE p)) = DhcpMagic \<and>
    dhcp_options (drop 240 (ReplyPXE p)) =
      [(53, [5]), (54, ServerIP p), (60, bytes_of ''PXEClient''), (97, 0 # the (GUID p)),
       (43, enc_opts [(71, the (BootType p))] @ [255]),
       (210, bytes_of (HTTPServer p)), (211, [0, 0, 0, 5])] \<and>
    dhcp_options (enc_opts [(71, the (BootType p))] @ [255]) = [(71, the (BootType p))]"
proof -
  have g: "guid_bytes (GUID p) = the (GUID p)" "guid_bytes (BootType p) = the (BootType p)"
    using assms by (auto simp: wf_reply_def wf_packet_def guid_bytes_def)
  have "take 236 (ReplyPXE p) = reply_bootp p" "take 4 (drop 236 (ReplyPXE p)) = DhcpMagic"
    by (simp_all add: ReplyPXE_def DhcpMagic_def)
  moreover have "length (TID p) = 4" "length (MAC p) = 6" "length (ServerIP p) = 4" "length (ClientIP p) = 4"
    using assms by (simp_all add: wf_reply_def wf_packet_def)
  ultimately show ?thesis
    using reply_bootp_eq [of p] reply_options [OF assms] by (simp only: reply_opts_def g simp_thms)
qed

theorem reply_reads_back_witness:
  "opt_values 210 (dhcp_options (drop 240 (ReplyPXE
     \<lparr>TID = [1, 2, 3, 4], MAC = [2, 0, 0, 0, 0, 7], GUID = Some (replicate 16 9), ServerIP = [10, 0, 0, 1],
      ClientIP = [10, 0, 0, 9], BootType = Some [0x80, 0, 0, 0], HTTPServer = ''http://10.0.0.1:70/''\<rparr>))) =
   [bytes_of ''http://10.0.0.1:70/'']"
  using reply_reads_back [of "\<lparr>TID = [1, 2, 3, 4], MAC = [2, 0, 0, 0, 0, 7],
      GUID = Some (replicate 16 9), ServerIP = [10, 0, 0, 1], ClientIP = [10, 0, 0, 9],
      BootType = Some [0x80, 0, 0, 0], HTTPServer = ''http://10.0.0.1:70/''\<rparr>"]
  by (simp add: wf_reply_def wf_packet_def)

text \<open>
  C24. One turn of the PXE server sends a packet exactly when the datagram is an acceptable
  request and the interface has a usable address; the packet is the reply to that request
  with that address and the HTTP prefix built from it, sent through the same interface to the
  sender. The path prefix always fits its option, for every port number.
\<close>

theorem pxe_turn_sends:
  assumes "length buf = 1024" "pxe_turn ifaces httpPort ev (buf, w) = Some (os, s')" "int64_range httpPort"
  shows "(SendTo pkt i a \<in> set os \<longleftrightarrow>
     (\<exists>d sip. ev_read ev = Inr d \<and> pxe_accepts (take 1024 (dg_data d)) \<and>
        InterfaceIP ifaces (dg_ifindex d) = Inr sip \<and>
        pkt = ReplyPXE ((pxe_request (take 1024 (dg_data d)))\<lparr>ServerIP := sip,
                HTTPServer := ''http://'' @ ip_string sip @ '':'' @ itoa httpPort @ ''/''\<rparr>) \<and>
        i = dg_ifindex d \<and> a = dg_addr d)) \<and>
   (InterfaceIP ifaces j = Inr sip \<longrightarrow> length (http_server_url sip httpPort) < 256)"
proof -
  have "os = fst (pxe_respond ifaces httpPort ev w)"
    using pxe_turn_eq [OF assms(1), of ifaces httpPort ev w] assms(2) by auto
  moreover have "InterfaceIP ifaces j = Inr sip \<longrightarrow> length (http_server_url sip httpPort) < 256"
    using length_http_server_url [OF _ assms(3), of sip] InterfaceIP_length [of ifaces j sip] by auto
  ultimately show ?thesis
    by (simp only: pxe_respond_sends pxe_answer_def http_server_url_def simp_thms)
qed

theorem pxe_turn_sends_witness:
  "\<exists>os s'. pxe_turn demo_ifaces 70 demo_select
       (replicate 1024 0, demo_world \<lparr>StatusCode = 200, Body = buffer_reader []\<rparr>) = Some (os, s') \<and>
     SendTo (ReplyPXE \<lparr>TID = [1, 2, 3, 4], MAC = [2, 0, 0, 0, 0, 7], GUID = Some (replicate 16 9),
         ServerIP = [10, 0, 0, 1], ClientIP = [10, 0, 0, 9], BootType = Some [0x80, 0, 0, 0],
         HTTPServer = ''http://'' @ ip_string [10, 0, 0, 1] @ '':'' @ itoa 70 @ ''/''\<rparr>)
       2 \<lparr>addr_ip = [10, 0, 0, 9], addr_port = 68\<rparr> \<in> set os"
proof -
  let ?w = "demo_world \<lparr>StatusCode = 200, Body = buffer_reader []\<rparr>"
  obtain buf where t: "pxe_turn demo_ifaces 70 demo_select (replicate 1024 0, ?w) =
      Some (fst (pxe_respond demo_ifaces 70 demo_select ?w), buf,
            snd (pxe_respond demo_ifaces 70 demo_select ?w))"
    by (rule pxe_turn_eq [of "replicate 1024 0"]) simp_all
  have "int64_range 70" by (simp add: int64_range_def)
  with pxe_turn_sends [OF _ t] t show ?thesis
    using demo_selection demo_interface_ip by (auto simp: demo_select_def)
qed

text \<open>
  C21. The PXE server never panics and never stops: on every sequence of reads it does
  exactly what the reference does that answers each event from the first 1024 bytes of its
  datagram alone.
\<close>

theorem serve_pxe_refines:
  "ServePXE ifaces \<lparr>listen_err = None, control_err = None\<rparr> pxePort httpPort evs w =
     Some (Inr (LogOut (Log ''PXE'' (''Listening on port '' @ itoa pxePort))
                  # fst (respond_all (pxe_respond ifaces httpPort) evs w),
                snd (respond_all (pxe_respond ifaces httpPort) evs w)))"
  using pserv.loop_respond [of "replicate 1024 0" ifaces httpPort evs w]
  by (auto simp: ServePXE_def)

text \<open>
  Every menu selection a PXE client sends is accepted, and parsing recovers the
  transaction id, the hardware address, the client's address, its identifier and the boot
  type that the reply has to mirror.
\<close>

lemma select_roundtrip:
  assumes "length tid = 4" "length mac = 6" "length cip = 4" "length guid = 16" "length bt = 4"
  shows "ParsePXE (client_select tid mac cip guid bt) =
    Some (Inr \<lparr>TID = tid, MAC = mac, GUID = Some guid, ServerIP = [], ClientIP = cip,
               BootType = Some bt, HTTPServer = []\<rparr>)"
  using assms by (intro ParsePXE_client_select) simp_all

lemma select_roundtrip_witness:
  "ParsePXE (client_select [1, 2, 3, 4] [2, 0, 0, 0, 0, 7] [10, 0, 0, 9] (replicate 16 9) [0x80, 0, 0, 0]) =
    Some (Inr \<lparr>TID = [1, 2, 3, 4], MAC = [2, 0, 0, 0, 0, 7], GUID = Some (replicate 16 9), ServerIP = [],
               ClientIP = [10, 0, 0, 9], BootType = Some [0x80, 0, 0, 0], HTTPServer = []\<rparr>)"
  by (rule select_roundtrip) simp_all

text \<open>
  Unlike the ProxyDHCP server, the PXE server takes its own replies for requests: every
  well-formed reply parses as a request again, with an unspecified client address. A reply
  that reaches a boot server, because the request came from another server's port, is
  therefore answered.
\<close>

lemma reply_is_request:
  assumes "wf_reply p"
  shows "ParsePXE (ReplyPXE p) =
    Some (Inr \<lparr>TID = TID p, MAC = MAC p, GUID = GUID p, ServerIP = [], ClientIP = [0, 0, 0, 0],
               BootType = BootType p, HTTPServer = []\<rparr>)"
proof -
  obtain g bt where p: "GUID p = Some g" "length g = 16" "BootType p = Some bt"
    using assms by (auto simp: wf_reply_def wf_packet_def)
  have len: "length (TID p) = 4" "length (MAC p) = 6" "length (ServerIP p) = 4" "length (ClientIP p) = 4"
    using assms by (simp_all add: wf_reply_def wf_packet_def)
  have "boot_types (reply_opts p) = [bt]" "opt_values 97 (reply_opts p) = [0 # g]"
    using reply_options(2) [OF assms] p by (simp_all add: boot_types_def reply_opts_def guid_bytes_def)
  moreover have "240 \<le> length (ReplyPXE p)" "take 4 (drop 236 (ReplyPXE p)) = DhcpMagic"
    by (simp_all add: ReplyPXE_def DhcpMagic_def)
  ultimately show ?thesis
    using p reply_options(1) [OF assms] reply_bootp_slices [OF len]
    by (simp add: ParsePXE_Inr pxe_accepts_def pxe_request_def pxe_opts_ok_def last_guid_def
        last_boot_type_def ReplyPXE_slice)
qed

lemma reply_is_request_witness:
  "\<exists>q. ParsePXE (ReplyPXE
     \<lparr>TID = [1, 2, 3, 4], MAC = [2, 0, 0, 0, 0, 7], GUID = Some (replicate 16 9), ServerIP = [10, 0, 0, 1],
      ClientIP = [10, 0, 0, 9], BootType = Some [0x80, 0, 0, 0], HTTPServer = ''http://10.0.0.1:70/''\<rparr>) =
    Some (Inr q)"
  using reply_is_request [of "\<lparr>TID = [1, 2, 3, 4], MAC = [2, 0, 0, 0, 0, 7],
      GUID = Some (replicate 16 9), ServerIP = [10, 0, 0, 1], ClientIP = [10, 0, 0, 9],
      BootType = Some [0x80, 0, 0, 0], HTTPServer = ''http://10.0.0.1:70/''\<rparr>"]
  by (simp add: wf_reply_def wf_packet_def)

end
