(* ===== verification/Tftp_Packet.thy ===== *)
theory Tftp_Packet
  imports Go_Net Boot_Api
begin

text \<open>
  The packets of \<open>src/tftp/tftp.go\<close>: \<open>nullStr\<close>, the read request parser \<open>parseRRQ\<close>
  and the error packet \<open>mkError\<close>. The lemmas give the bounds on the negotiated block size
  and the round trips of requests and errors.
\<close>

section \<open>Definitions\<close>

record rrq =
  Filename :: string
  BlockSize :: int

text \<open>\<open>bytes.IndexByte\<close>, with \<open>None\<close> for -1.\<close>

fun index_byte :: "bytes \<Rightarrow> byte \<Rightarrow> nat option" where
  "index_byte [] c = None"
| "index_byte (x # xs) c = (if x = c then Some 0 else map_option Suc (index_byte xs c))"

definition nullStr :: "bytes \<Rightarrow> (string \<times> bytes \<times> bool) option" where
  "nullStr b = (case index_byte b 0 of
      None \<Rightarrow> Some ([], [], False)
    | Some off \<Rightarrow> do {
        str \<leftarrow> go_slice b 0 off;
        remaining \<leftarrow> go_from b (off + 1);
        Some (string_of str, remaining, True)
      })"

datatype rrq_err =
    RrqTooSmall
  | NotRrq
  | NoFilename
  | NoMode
  | UnsupportedMode string
  | UnterminatedName
  | UnterminatedValue string
  | NonInteger string string
  | UnsupportedBlockSize int

text \<open>\<open>UDPAddr.String\<close> for the IPv4 socket the server listens on.\<close>

definition addr_string :: "udp_addr \<Rightarrow> string" where
  "addr_string a = ip_string (addr_ip a) @ '':'' @ itoa (addr_port a)"

fun rrq_err_text :: "golib \<Rightarrow> udp_addr \<Rightarrow> rrq_err \<Rightarrow> string" where
  "rrq_err_text lib a RrqTooSmall = ''packet from '' @ addr_string a @ '' too small to be an RRQ''"
| "rrq_err_text lib a NotRrq = ''packet from '' @ addr_string a @ '' is not an RRQ''"
| "rrq_err_text lib a NoFilename = ''request from '' @ addr_string a @ '' contains no filename''"
| "rrq_err_text lib a NoMode = ''request from '' @ addr_string a @ '' has no transfer mode''"
| "rrq_err_text lib a (UnsupportedMode m) =
     addr_string a @ '' requested unsupported transfer mode '' @ quote lib m"
| "rrq_err_text lib a UnterminatedName = addr_string a @ '' sent unterminated option name''"
| "rrq_err_text lib a (UnterminatedValue opt) =
     addr_string a @ '' sent unterminated value for option '' @ quote lib opt"
| "rrq_err_text lib a (NonInteger val opt) =
     addr_string a @ '' sent non-integer '' @ quote lib val @ '' for option '' @ quote lib opt"
| "rrq_err_text lib a (UnsupportedBlockSize val) =
     addr_string a @ '' requested unsupported blocksize '' @ quote_rune lib val"

lemma index_byte_Some:
  "index_byte b c = Some i \<Longrightarrow> i < length b \<and> b ! i = c \<and> c \<notin> set (take i b)"
  by (induction b arbitrary: i) (auto split: if_splits)

lemma index_byte_None: "index_byte b c = None \<longleftrightarrow> c \<notin> set b"
  by (induction b) auto

lemma nullStr_returns: "\<exists>s r ok. nullStr b = Some (s, r, ok)"
  by (auto simp: nullStr_def split: option.splits dest!: index_byte_Some)

lemma nullStr_ok:
  "nullStr b = Some (s, r, True) \<longleftrightarrow> b = bytes_of s @ 0 # r \<and> 0 \<notin> set (bytes_of s)"
proof
  assume "nullStr b = Some (s, r, True)"
  then obtain i where i: "index_byte b 0 = Some i" and s: "s = string_of (take i b)" and r: "r = drop (Suc i) b"
    by (auto simp: nullStr_def bind_eq_Some_conv go_ret split: option.splits)
  from index_byte_Some [OF i] have "i < length b" "b ! i = 0" "0 \<notin> set (take i b)"
    by simp_all
  then show "b = bytes_of s @ 0 # r \<and> 0 \<notin> set (bytes_of s)"
    using id_take_nth_drop [of i b] by (simp add: s r)
next
  assume b: "b = bytes_of s @ 0 # r \<and> 0 \<notin> set (bytes_of s)"
  have "index_byte (xs @ 0 # r) 0 = Some (length xs)" if "0 \<notin> set xs" for xs
    using that by (induction xs) auto
  from this [of "bytes_of s"] b show "nullStr b = Some (s, r, True)"
    by (simp add: nullStr_def)
qed

lemma nullStr_fail: "nullStr b = Some (s, r, False) \<longleftrightarrow> 0 \<notin> set b \<and> s = [] \<and> r = []"
  by (auto simp: nullStr_def index_byte_None bind_eq_Some_conv split: option.splits dest!: index_byte_Some)
    (metis nth_mem)

lemma nullStr_shorter: "nullStr b = Some (s, r, True) \<Longrightarrow> length r < length b"
  by (simp add: nullStr_ok)

text \<open>The loop of \<open>parseRRQ\<close> over the options.\<close>

function parse_rrq_opts :: "rrq \<Rightarrow> bytes \<Rightarrow> (rrq_err, rrq) go" where
  "parse_rrq_opts req b =
     (if b = [] then Some (Inr req)
      else do {
        (opt, b1, ok1) \<leftarrow> nullStr b;
        if \<not> ok1 then Some (Inl UnterminatedName)
        else do {
          (valStr, b2, ok2) \<leftarrow> nullStr b1;
          if \<not> ok2 then Some (Inl (UnterminatedValue opt))
          else case atoi valStr of
            None \<Rightarrow> Some (Inl (NonInteger valStr opt))
          | Some val \<Rightarrow>
              (if opt = ''blksize'' then
                 (if val < 8 \<or> val > 65464 then Some (Inl (UnsupportedBlockSize val))
                  else parse_rrq_opts (req\<lparr>BlockSize := (if val > 1450 then 1450 else val)\<rparr>) b2)
               else parse_rrq_opts req b2)
        }
      })"
  by pat_completeness auto
termination
  by (relation "measure (\<lambda>(req, b). length b)") (auto dest!: nullStr_shorter)

declare parse_rrq_opts.simps [simp del]

definition parseRRQ :: "bytes \<Rightarrow> (rrq_err, rrq) go" where
  "parseRRQ b =
     (if length b < 6 then Some (Inl RrqTooSmall)
      else do {
        hd2 \<leftarrow> go_slice b 0 2;
        opcode \<leftarrow> be_uint16 hd2;
        if opcode \<noteq> 1 then Some (Inl NotRrq)
        else do {
          b0 \<leftarrow> go_from b 2;
          (fname, b1, ok1) \<leftarrow> nullStr b0;
          if \<not> ok1 then Some (Inl NoFilename)
          else do {
            (mode, b2, ok2) \<leftarrow> nullStr b1;
            if \<not> ok2 then Some (Inl NoMode)
            else if mode \<noteq> ''octet'' then Some (Inl (UnsupportedMode mode))
            else parse_rrq_opts \<lparr>Filename = fname, BlockSize = 0\<rparr> b2
          }
        }
      })"

text \<open>\<open>make\<close>, one store and a \<open>copy\<close>.\<close>

definition mkError :: "string \<Rightarrow> bytes" where
  "mkError s = copy_at 4 (bytes_of s) ((replicate (length s + 5) 0)[1 := 5])"

section \<open>Errors\<close>

lemma mkError_eq: "mkError s = [0, 5, 0, 0] @ bytes_of s @ [0]"
proof -
  have "replicate (length s + 5) (0 :: byte) = [0, 0, 0, 0] @ replicate (length s) 0 @ [0]"
    by (simp add: numeral_eq_Suc replicate_append_same)
  then show ?thesis
    by (simp add: mkError_def copy_at_def) (simp add: numeral_eq_Suc)
qed

lemma nullStr_bytes_of: "0 \<notin> set (bytes_of s) \<Longrightarrow> nullStr (bytes_of s @ 0 # r) = Some (s, r, True)"
  by (simp add: nullStr_ok)

section \<open>Requests\<close>

definition wf_rrq :: "rrq \<Rightarrow> bool" where
  "wf_rrq r \<longleftrightarrow> (BlockSize r = 0 \<or> 8 \<le> BlockSize r \<and> BlockSize r \<le> 1450) \<and> 0 \<notin> set (bytes_of (Filename r))"

lemma parse_rrq_opts_wf:
  "wf_rrq req \<Longrightarrow> \<exists>r. parse_rrq_opts req b = Some r \<and> (\<forall>q. r = Inr q \<longrightarrow> wf_rrq q \<and> Filename q = Filename req)"
proof (induction b arbitrary: req rule: length_induct)
  case (1 b)
  obtain opt b1 ok1 where n1: "nullStr b = Some (opt, b1, ok1)" using nullStr_returns by blast
  obtain v b2 ok2 where n2: "nullStr b1 = Some (v, b2, ok2)" using nullStr_returns by blast
  have IH: "\<exists>r. parse_rrq_opts req' b2 = Some r \<and> (\<forall>q. r = Inr q \<longrightarrow> wf_rrq q \<and> Filename q = Filename req)"
    if "ok1" "ok2" "wf_rrq req'" "Filename req' = Filename req" for req'
  proof -
    have "length b1 < length b" "length b2 < length b1"
      using n1 n2 that by (simp_all add: nullStr_shorter)
    then show ?thesis using "1.IH" [rule_format, of b2 req'] that by auto
  qed
  show ?case
    using "1.prems" IH [of req] IH [of "req\<lparr>BlockSize := (if the (atoi v) > 1450 then 1450 else the (atoi v))\<rparr>"]
    by (subst parse_rrq_opts.simps) (auto simp: n1 n2 wf_rrq_def split: option.split)
qed

lemma parseRRQ_total:
  "\<exists>r. parseRRQ b = Some r \<and> (\<forall>q. r = Inr q \<longrightarrow> wf_rrq q)"
proof (cases "length b < 6")
  case True
  then show ?thesis by (simp add: parseRRQ_def)
next
  case False
  then obtain oc where oc: "be_uint16 (take 2 b) = Some oc"
    by (cases "be_uint16 (take 2 b)") auto
  obtain f b1 ok1 where n1: "nullStr (drop 2 b) = Some (f, b1, ok1)" using nullStr_returns by blast
  obtain m b2 ok2 where n2: "nullStr b1 = Some (m, b2, ok2)" using nullStr_returns by blast
  have "\<exists>r. parse_rrq_opts \<lparr>Filename = f, BlockSize = 0\<rparr> b2 = Some r \<and> (\<forall>q. r = Inr q \<longrightarrow> wf_rrq q)" if ok1
    using parse_rrq_opts_wf [of "\<lparr>Filename = f, BlockSize = 0\<rparr>" b2] n1 that
    by (auto simp: wf_rrq_def nullStr_ok)
  with False oc n1 n2 show ?thesis
    by (auto simp: parseRRQ_def)
qed

text \<open>The read request a client builds: opcode, file name, mode, and options with integer
  values, each string followed by a null byte.\<close>

definition rrq_opt_bytes :: "string \<times> int \<Rightarrow> bytes" where
  "rrq_opt_bytes nv = bytes_of (fst nv) @ 0 # bytes_of (itoa (snd nv)) @ [0]"

definition client_rrq :: "string \<Rightarrow> (string \<times> int) list \<Rightarrow> bytes" where
  "client_rrq fname os =
     [0, 1] @ bytes_of fname @ 0 # bytes_of ''octet'' @ 0 # concat (map rrq_opt_bytes os)"

definition wf_rrq_opt :: "string \<times> int \<Rightarrow> bool" where
  "wf_rrq_opt nv \<longleftrightarrow> 0 \<notin> set (bytes_of (fst nv)) \<and> int64_range (snd nv) \<and>
     (fst nv = ''blksize'' \<longrightarrow> 8 \<le> snd nv \<and> snd nv \<le> 65464)"

text \<open>What the options ask for: the last block size, clamped to what fits an Ethernet
  frame.\<close>

fun negotiate :: "int \<Rightarrow> (string \<times> int) list \<Rightarrow> int" where
  "negotiate bs [] = bs"
| "negotiate bs ((n, v) # os) = negotiate (if n = ''blksize'' then min v 1450 else bs) os"

lemma itoa_no_null: "0 \<notin> set (bytes_of (itoa i))"
proof
  assume "0 \<in> set (bytes_of (itoa i))"
  then obtain c where "c \<in> set (itoa i)" and c: "(of_char c :: byte) = 0"
    by (auto simp: bytes_of_def)
  then have "c = CHR ''-'' \<or> (\<exists>d<10. c = digit_char d)" by (blast dest: itoa_chars)
  moreover have "(of_char c :: nat) = 0" using c by (metis unat_of_char unat_0)
  ultimately show False by (auto simp: digit_char_code)
qed

text \<open>Options whose names and values can be written down, and the block sizes among them that the
  server refuses.\<close>

definition int_opt :: "string \<times> int \<Rightarrow> bool" where
  "int_opt nv \<longleftrightarrow> 0 \<notin> set (bytes_of (fst nv)) \<and> int64_range (snd nv)"

definition bad_blksize :: "string \<times> int \<Rightarrow> bool" where
  "bad_blksize nv \<longleftrightarrow> fst nv = ''blksize'' \<and> (snd nv < 8 \<or> 65464 < snd nv)"

lemma wf_rrq_opt_iff: "wf_rrq_opt nv \<longleftrightarrow> int_opt nv \<and> \<not> bad_blksize nv"
  by (auto simp: wf_rrq_opt_def int_opt_def bad_blksize_def)

lemma parse_rrq_opts_client:
  "list_all int_opt os \<Longrightarrow>
   parse_rrq_opts req (concat (map rrq_opt_bytes os)) = Some (case find bad_blksize os of
      None \<Rightarrow> Inr (req\<lparr>BlockSize := negotiate (BlockSize req) os\<rparr>)
    | Some nv \<Rightarrow> Inl (UnsupportedBlockSize (snd nv)))"
proof (induction os arbitrary: req)
  case Nil
  show ?case by (cases req) (simp add: parse_rrq_opts.simps)
next
  case (Cons x os)
  obtain n v where x: "x = (n, v)" by (cases x)
  let ?rest = "concat (map rrq_opt_bytes os)"
  have n: "nullStr (bytes_of n @ 0 # bytes_of (itoa v) @ 0 # ?rest) = Some (n, bytes_of (itoa v) @ 0 # ?rest, True)"
    "nullStr (bytes_of (itoa v) @ 0 # ?rest) = Some (itoa v, ?rest, True)" "atoi (itoa v) = Some v"
    using Cons.prems x itoa_no_null by (simp_all add: nullStr_ok int_opt_def)
  have b: "concat (map rrq_opt_bytes (x # os)) = bytes_of n @ 0 # bytes_of (itoa v) @ 0 # ?rest"
    by (simp add: x rrq_opt_bytes_def)
  have "list_all int_opt os" using Cons.prems by simp
  moreover have "bad_blksize (n, v) \<longleftrightarrow> n = ''blksize'' \<and> (v < 8 \<or> 65464 < v)" by (simp add: bad_blksize_def)
  ultimately show ?case
    unfolding b by (subst parse_rrq_opts.simps) (auto simp: n x Cons.IH min_def split: option.split)
qed

lemma parseRRQ_int_opts:
  assumes "0 \<notin> set (bytes_of fname)" "list_all int_opt os"
  shows "parseRRQ (client_rrq fname os) = Some (case find bad_blksize os of
      None \<Rightarrow> Inr \<lparr>Filename = fname, BlockSize = negotiate 0 os\<rparr>
    | Some nv \<Rightarrow> Inl (UnsupportedBlockSize (snd nv)))"
proof -
  let ?opts = "concat (map rrq_opt_bytes os)"
  have "nullStr (bytes_of fname @ 0 # bytes_of ''octet'' @ 0 # ?opts) =
      Some (fname, bytes_of ''octet'' @ 0 # ?opts, True)"
    "nullStr (bytes_of ''octet'' @ 0 # ?opts) = Some (''octet'', ?opts, True)"
    using assms(1) by (simp_all add: nullStr_ok) (simp add: bytes_of_Cons)
  then show ?thesis
    using parse_rrq_opts_client [OF assms(2), of "\<lparr>Filename = fname, BlockSize = 0\<rparr>"]
    by (simp add: parseRRQ_def client_rrq_def be_uint16_def split: option.split)
qed

lemma parseRRQ_client:
  assumes "0 \<notin> set (bytes_of fname)" "list_all wf_rrq_opt os"
  shows "parseRRQ (client_rrq fname os) = Some (Inr \<lparr>Filename = fname, BlockSize = negotiate 0 os\<rparr>)"
proof -
  have "list_all int_opt os" "find bad_blksize os = None"
    using assms(2) by (auto simp: list_all_iff wf_rrq_opt_iff find_None_iff)
  with parseRRQ_int_opts [OF assms(1)] show ?thesis by simp
qed

section \<open>Properties\<close>

text \<open>
  C26. \<open>parseRRQ\<close> never panics, and a request it accepts has no block size or one
  between 8 and 1450 bytes, and a file name without null bytes: every data packet of the
  transfer fits an Ethernet frame.
\<close>

theorem parse_rrq_bounds:
  "\<exists>r. parseRRQ b = Some r \<and>
     (\<forall>q. r = Inr q \<longrightarrow>
        (BlockSize q = 0 \<or> 8 \<le> BlockSize q \<and> BlockSize q \<le> 1450) \<and> 0 \<notin> set (bytes_of (Filename q)))"
  using parseRRQ_total [of b] by (simp add: wf_rrq_def)

theorem parse_rrq_bounds_witness:
  "\<exists>r. parseRRQ (client_rrq ''boot'' []) = Some r \<and>
     (\<forall>q. r = Inr q \<longrightarrow> BlockSize q = 0 \<or> 8 \<le> BlockSize q \<and> BlockSize q \<le> 1450)"
  using parse_rrq_bounds [of "client_rrq ''boot'' []"] by auto

text \<open>
  C27. The outcome of every read request in octet mode whose options have 64-bit integer values,
  if no name in it has a null byte: it is accepted exactly when every block size asked for is
  between 8 and 65464, and then parsing recovers the file name, and the block size is the last one
  asked for, clamped to 1450, or unset; otherwise the first block size out of range is refused.
\<close>

theorem rrq_roundtrip:
  assumes "0 \<notin> set (bytes_of fname)" "list_all (\<lambda>(n, v). 0 \<notin> set (bytes_of n) \<and> int64_range v) os"
  shows "parseRRQ (client_rrq fname os) =
    Some (case find (\<lambda>(n, v). n = ''blksize'' \<and> (v < 8 \<or> 65464 < v)) os of
      None \<Rightarrow> Inr \<lparr>Filename = fname, BlockSize = negotiate 0 os\<rparr>
    | Some (n, v) \<Rightarrow> Inl (UnsupportedBlockSize v))"
proof -
  have eq: "(\<lambda>(n, v). n = ''blksize'' \<and> (v < 8 \<or> 65464 < v)) = bad_blksize"
    "(\<lambda>(n, v). 0 \<notin> set (bytes_of n) \<and> int64_range v) = int_opt"
    by (auto simp: bad_blksize_def int_opt_def)
  show ?thesis
    using parseRRQ_int_opts [OF assms(1)] assms(2) unfolding eq by (auto split: option.split)
qed

theorem rrq_roundtrip_witness:
  "parseRRQ (client_rrq ''boot'' [(''tsize'', 0), (''blksize'', 4096)]) =
     Some (Inr \<lparr>Filename = ''boot'', BlockSize = 1450\<rparr>) \<and>
   parseRRQ (client_rrq ''boot'' [(''blksize'', 7)]) = Some (Inl (UnsupportedBlockSize 7))"
  using rrq_roundtrip [of "''boot''" "[(''tsize'', 0), (''blksize'', 4096)]"]
    rrq_roundtrip [of "''boot''" "[(''blksize'', 7)]"]
  by (simp add: int64_range_def bytes_of_Cons)

text \<open>
  C37. An error packet carries the error opcode and code 0, and its message reads back to
  exactly the text of the error, if that has no null byte.
\<close>

theorem error_packet_roundtrip:
  assumes "0 \<notin> set (bytes_of s)"
  shows "be_uint16 (take 2 (mkError s)) = Some 5 \<and> be_uint16 (take 2 (drop 2 (mkError s))) = Some 0 \<and>
    nullStr (drop 4 (mkError s)) = Some (s, [], True)"
  using assms by (simp add: mkError_eq nullStr_bytes_of be_uint16_def)

theorem error_packet_roundtrip_witness:
  "nullStr (drop 4 (mkError ''EOF'')) = Some (''EOF'', [], True)"
  using error_packet_roundtrip [of "''EOF''"] by (simp add: bytes_of_Cons)

text \<open>An option other than \<open>blksize\<close> is not ignored but refused if its value is no
  integer, although the transfer code says that all other options are ignored.\<close>

lemma other_option_refused:
  "parseRRQ ([0, 1] @ bytes_of ''f'' @ 0 # bytes_of ''octet'' @ 0 # bytes_of ''foo'' @ 0 # bytes_of ''x'' @ [0]) =
     Some (Inl (NonInteger ''x'' ''foo''))"
proof -
  let ?x = "bytes_of ''x'' @ [0]"
  have "nullStr (bytes_of ''f'' @ 0 # bytes_of ''octet'' @ 0 # bytes_of ''foo'' @ 0 # ?x) =
      Some (''f'', bytes_of ''octet'' @ 0 # bytes_of ''foo'' @ 0 # ?x, True)"
    "nullStr (bytes_of ''octet'' @ 0 # bytes_of ''foo'' @ 0 # ?x) = Some (''octet'', bytes_of ''foo'' @ 0 # ?x, True)"
    "nullStr (bytes_of ''foo'' @ 0 # ?x) = Some (''foo'', ?x, True)" "nullStr ?x = Some (''x'', [], True)"
    by (simp_all only: nullStr_ok) (simp_all add: bytes_of_Cons)
  moreover from this have "parse_rrq_opts req (bytes_of ''foo'' @ 0 # ?x) = Some (Inl (NonInteger ''x'' ''foo''))" for req
    by (subst parse_rrq_opts.simps) (simp add: atoi_def atoi_sign_def digit_val_def)
  ultimately show ?thesis
    by (simp add: parseRRQ_def be_uint16_def)
qed

end
