(* ===== verification/Tftp_Transfer.thy ===== *)
theory Tftp_Transfer
  imports Tftp_Packet Udp_Server
begin

text \<open>
  The transfers of \<open>src/tftp/tftp.go\<close>: \<open>sendPacket\<close>, which repeats a packet until it is
  acknowledged, \<open>transfer\<close>, which sends a whole file, the handler \<open>Blob\<close>, and the
  listening loop \<open>Serve\<close>. What arrives on the connection of a transfer is a list of read
  results; a run that has used up the list is \<open>Waiting\<close> for the next one.
\<close>

section \<open>sendPacket\<close>

definition numRetries :: nat where
  "numRetries = 5"

datatype rx = RxTimeout | RxError string | RxData bytes

datatype send_err = NetErr string | ClientAborted string | TimedOut "16 word"

datatype wait = Acked | WaitTimeout | WaitFailed send_err | WaitBlocked

datatype send_res = SendOk | SendFail send_err | SendBlocked

fun send_err_text :: "golib \<Rightarrow> send_err \<Rightarrow> string" where
  "send_err_text lib (NetErr e) = e"
| "send_err_text lib (ClientAborted msg) = ''client aborted transfer ('' @ quote lib msg @ '')''"
| "send_err_text lib (TimedOut seq) = ''timed out waiting for ACK #'' @ itoa (uint seq)"

text \<open>The inner loop: read packets until the acknowledgement, an error packet, a read error
  or the deadline. \<open>recv\<close> is the array the reads share within one try.\<close>

fun wait_ack :: "16 word \<Rightarrow> bytes \<Rightarrow> rx list \<Rightarrow> (wait \<times> rx list) option" where
  "wait_ack seq recv [] = Some (WaitBlocked, [])"
| "wait_ack seq recv (RxTimeout # es) = Some (WaitTimeout, es)"
| "wait_ack seq recv (RxError e # es) = Some (WaitFailed (NetErr e), es)"
| "wait_ack seq recv (RxData d # es) =
     (case read_into recv d of (n, recv) \<Rightarrow>
        if n < 4 then wait_ack seq recv es
        else do {
          op2 \<leftarrow> go_slice recv 0 2;
          opcode \<leftarrow> be_uint16 op2;
          if opcode = 4 then do {
            num2 \<leftarrow> go_slice recv 2 4;
            num \<leftarrow> be_uint16 num2;
            if num = seq then Some (Acked, es) else wait_ack seq recv es
          }
          else if opcode = 5 then do {
            rest \<leftarrow> go_from recv 4;
            (msg, _, _) \<leftarrow> nullStr rest;
            Some (WaitFailed (ClientAborted msg), es)
          }
          else wait_ack seq recv es
        })"

text \<open>The loop over the tries; the list holds every copy of the packet that was written.\<close>

fun send_tries :: "nat \<Rightarrow> bytes \<Rightarrow> 16 word \<Rightarrow> rx list \<Rightarrow> (send_res \<times> bytes list \<times> rx list) option" where
  "send_tries 0 b seq es = Some (SendFail (TimedOut seq), [], es)"
| "send_tries (Suc k) b seq es = do {
     (r, es1) \<leftarrow> wait_ack seq (replicate 256 0) es;
     (case r of
        Acked \<Rightarrow> Some (SendOk, [b], es1)
      | WaitFailed e \<Rightarrow> Some (SendFail e, [b], es1)
      | WaitBlocked \<Rightarrow> Some (SendBlocked, [b], es1)
      | WaitTimeout \<Rightarrow> do {
          (r', ws, es2) \<leftarrow> send_tries k b seq es1;
          Some (r', b # ws, es2)
        })
   }"

definition sendPacket :: "bytes \<Rightarrow> 16 word \<Rightarrow> rx list \<Rightarrow> (send_res \<times> bytes list \<times> rx list) option" where
  "sendPacket b seq es = send_tries numRetries b seq es"

lemma wait_ack_returns: "length recv = 256 \<Longrightarrow> \<exists>r es'. wait_ack seq recv es = Some (r, es')"
proof (induction es arbitrary: recv)
  case (Cons e es)
  show ?case
  proof (cases e)
    case (RxData d)
    obtain n recv' where rd: "read_into recv d = (n, recv')" by (cases "read_into recv d")
    then have len: "length recv' = 256" using Cons.prems length_read_into [of recv d] by simp
    obtain oc where "be_uint16 (take 2 recv') = Some oc"
      using len by (cases "be_uint16 (take 2 recv')") auto
    moreover obtain sq where "be_uint16 (take 2 (drop 2 recv')) = Some sq"
      using len by (cases "be_uint16 (take 2 (drop 2 recv'))") auto
    moreover obtain m r ok where "nullStr (drop 4 recv') = Some (m, r, ok)"
      using nullStr_returns by blast
    ultimately show ?thesis
      using RxData rd len Cons.IH [OF len] by simp
  qed simp_all
qed simp

text \<open>The reads a call uses are a prefix of what arrives; only a call that is still waiting
  has used none or all of it.\<close>

lemma wait_ack_consumes:
  "wait_ack seq recv es = Some (r, es') \<Longrightarrow>
     \<exists>used. es = used @ es' \<and> (r = WaitBlocked \<longrightarrow> es' = []) \<and> (r \<noteq> WaitBlocked \<longrightarrow> used \<noteq> [])"
proof (induction es arbitrary: recv)
  case (Cons e es)
  have skip: "\<exists>used. e # es = used @ es' \<and> (r = WaitBlocked \<longrightarrow> es' = []) \<and> (r \<noteq> WaitBlocked \<longrightarrow> used \<noteq> [])"
    if "wait_ack seq recv' es = Some (r, es')" for recv'
    using Cons.IH [OF that] by (metis append_Cons list.distinct(1))
  show ?case
    using Cons.prems skip
    by (cases e) (auto simp: bind_eq_Some_conv split: prod.splits if_splits)
qed simp

lemma send_tries_returns: "\<exists>r ws es'. send_tries k b seq es = Some (r, ws, es')"
proof (induction k arbitrary: es)
  case (Suc k)
  obtain r es1 where "wait_ack seq (replicate 256 0) es = Some (r, es1)"
    using wait_ack_returns [of "replicate 256 0" seq es] by auto
  with Suc [of es1] show ?case by (auto split: wait.split)
qed simp

lemma send_tries_shape:
  "send_tries k b seq es = Some (r, ws, es') \<Longrightarrow>
     (\<exists>n. ws = replicate n b \<and> n \<le> k \<and> (0 < k \<longrightarrow> 0 < n)) \<and> (\<exists>used. es = used @ es') \<and>
     (r = SendOk \<longrightarrow> length es' < length es)"
proof (induction k arbitrary: es r ws)
  case (Suc k)
  obtain w es1 where w: "wait_ack seq (replicate 256 0) es = Some (w, es1)"
    using wait_ack_returns [of "replicate 256 0" seq es] by auto
  obtain used where used: "es = used @ es1" "w \<noteq> WaitBlocked \<longrightarrow> used \<noteq> []"
    using wait_ack_consumes [OF w] by blast
  show ?case
  proof (cases "w = WaitTimeout")
    case True
    then obtain ws' where t: "send_tries k b seq es1 = Some (r, ws', es')" "ws = b # ws'"
      using Suc.prems w by (auto simp: bind_eq_Some_conv)
    from Suc.IH [OF t(1)] obtain n u where
      "ws' = replicate n b" "n \<le> k" "es1 = u @ es'" "r = SendOk \<longrightarrow> length es' < length es1"
      by blast
    then show ?thesis
      using used t(2) by (auto intro!: exI [of _ "Suc n"])
  next
    case False
    with Suc.prems w used show ?thesis
      by (auto split: wait.splits intro!: exI [of _ "Suc 0"])
  qed
qed simp

lemma sendPacket_returns: "\<exists>r ws es'. sendPacket b seq es = Some (r, ws, es')"
  by (simp add: sendPacket_def send_tries_returns)

lemma sendPacket_writes:
  "sendPacket b seq es = Some (r, ws, es') \<Longrightarrow> \<exists>n. ws = replicate n b \<and> 0 < n \<and> n \<le> numRetries"
  using send_tries_shape [of numRetries b seq es r ws es'] by (auto simp: sendPacket_def numRetries_def)

lemma sendPacket_shorter: "sendPacket b seq es = Some (SendOk, ws, es') \<Longrightarrow> length es' < length es"
  using send_tries_shape by (fastforce simp: sendPacket_def)

section \<open>transfer\<close>

datatype outcome = Sent | Failed | Waiting

datatype tx = TxPkt bytes | TxLog LogEntry

type_synonym handler = "string \<Rightarrow> udp_addr \<Rightarrow> string + reader"

text \<open>The errors of \<open>io.ReadFull\<close> that end a transfer: all but a short last block.\<close>

definition read_error :: "io_err option \<Rightarrow> io_err option" where
  "read_error err = (case err of
      None \<Rightarrow> None
    | Some e \<Rightarrow> if e \<noteq> ErrUnexpectedEOF then Some e else None)"

text \<open>The loop over the blocks; \<open>buf\<close> is the packet buffer, \<open>bsize + 4\<close> bytes long.\<close>

function transfer_loop ::
  "golib \<Rightarrow> udp_addr \<Rightarrow> rrq \<Rightarrow> nat \<Rightarrow> 16 word \<Rightarrow> bytes \<Rightarrow> reader \<Rightarrow> rx list \<Rightarrow> (outcome \<times> tx list) option" where
  "transfer_loop lib addr req bsize seq buf f es =
     (case read_full (length buf - 4) f of (data, err, f') \<Rightarrow>
        case read_error err of
          Some e \<Rightarrow>
            Some (Failed, [TxLog (Log ''TFTP'' (''Transfer to '' @ addr_string addr @ '' failed: '' @ io_err_text e)),
                           TxPkt (mkError (io_err_text e))])
        | None \<Rightarrow> do {
            let buf1 = copy_at 4 data (copy_at 2 (be_put16 seq) buf);
            let n = length data;
            pkt \<leftarrow> go_slice buf1 0 (n + 4);
            (r, ws, es1) \<leftarrow> sendPacket pkt seq es;
            (case r of
               SendBlocked \<Rightarrow> Some (Waiting, map TxPkt ws)
             | SendFail e \<Rightarrow>
                 Some (Failed, map TxPkt ws @ [TxLog (Log ''TFTP''
                   (''Transfer to '' @ addr_string addr @ '' failed: '' @ send_err_text lib e))])
             | SendOk \<Rightarrow>
                 (if n < bsize then
                    Some (Sent, map TxPkt ws @ [TxLog (Log ''TFTP''
                      (''Sent '' @ quote lib (Filename req) @ '' to '' @ addr_string addr))])
                  else do {
                    (oc, out) \<leftarrow> transfer_loop lib addr req bsize (seq + 1) buf1 f' es1;
                    Some (oc, map TxPkt ws @ out)
                  }))
          })"
  by pat_completeness auto
termination
  by (relation "measure (\<lambda>(lib, addr, req, bsize, seq, buf, f, es). length es)")
    (auto dest: sendPacket_shorter)

declare transfer_loop.simps [simp del]

definition oack_packet :: "int \<Rightarrow> bytes" where
  "oack_packet bs = [0, 6] @ bytes_of (''blksize'' @ [CHR 0x00] @ itoa bs @ [CHR 0x00])"

definition transfer ::
  "golib \<Rightarrow> (udp_addr \<Rightarrow> string option) \<Rightarrow> udp_addr \<Rightarrow> rrq \<Rightarrow> handler \<Rightarrow> rx list \<Rightarrow> (outcome \<times> tx list) option" where
  "transfer lib dial addr req handler es = (case dial addr of
      Some e \<Rightarrow>
        Some (Failed, [TxLog (Log ''TFTP'' (''Couldn't set up TFTP socket for '' @ addr_string addr @ '': '' @ e))])
    | None \<Rightarrow> (case handler (Filename req) addr of
        Inl e \<Rightarrow>
          Some (Failed, [TxLog (Debug ''TFTP'' (''Error getting bytes for '' @ quote lib (Filename req) @ '': '' @ e)),
                         TxPkt (mkError e)])
      | Inr f \<Rightarrow>
          (if BlockSize req > 0 then do {
             let bsize = nat (BlockSize req);
             (r, ws, es1) \<leftarrow> sendPacket (oack_packet (BlockSize req)) 0 es;
             (case r of
                SendBlocked \<Rightarrow> Some (Waiting, map TxPkt ws)
              | SendFail e \<Rightarrow>
                  Some (Failed, map TxPkt ws @ [TxLog (Debug ''TFTP''
                    (''Transfer to '' @ addr_string addr @ '' failed: '' @ send_err_text lib e))])
              | SendOk \<Rightarrow> do {
                  (oc, out) \<leftarrow> transfer_loop lib addr req bsize 1 ((replicate (bsize + 4) 0)[1 := 3]) f es1;
                  Some (oc, map TxPkt ws @ out)
                })
           }
           else transfer_loop lib addr req 512 1 ((replicate (512 + 4) 0)[1 := 3]) f es)))"

definition Blob :: "bytes \<Rightarrow> handler" where
  "Blob b = (\<lambda>path clientAddr. Inr (buffer_reader b))"

section \<open>Serve and ListenAndServe\<close>

text \<open>A turn of the listening loop answers a bad request with an error packet and hands a
  good one to a new goroutine.\<close>

datatype srv = SrvLog LogEntry | SrvReply bytes udp_addr | SrvSpawn udp_addr rrq

definition tftp_turn ::
  "golib \<Rightarrow> string + bytes \<times> udp_addr \<Rightarrow> bytes \<times> unit \<Rightarrow> (srv list \<times> bytes \<times> unit) option" where
  "tftp_turn lib ev s = (case s of (buf, u) \<Rightarrow> case ev of
      Inl e \<Rightarrow> Some ([SrvLog (Log ''TFTP'' (''Reading from socket: '' @ e))], buf, u)
    | Inr (d, addr) \<Rightarrow> do {
        let (n, buf) = read_into buf d;
        b \<leftarrow> go_slice buf 0 n;
        res \<leftarrow> parseRRQ b;
        case res of
          Inl e \<Rightarrow>
            Some ([SrvLog (Debug ''TFTP'' (''parseRRQ: '' @ rrq_err_text lib addr e)),
                   SrvReply (mkError (rrq_err_text lib addr e)) addr], buf, u)
        | Inr req \<Rightarrow> Some ([SrvSpawn addr req], buf, u)
      })"

definition Serve ::
  "golib \<Rightarrow> string \<Rightarrow> (string + bytes \<times> udp_addr) list \<Rightarrow> srv list option" where
  "Serve lib localAddr evs = do {
     (os, _) \<leftarrow> serve_loop (tftp_turn lib) evs (replicate 512 0, ());
     Some (SrvLog (Log ''TFTP'' (''Listening on '' @ localAddr)) # os)
   }"

definition ListenAndServe ::
  "golib \<Rightarrow> string option \<Rightarrow> string \<Rightarrow> (string + bytes \<times> udp_addr) list \<Rightarrow> (string, srv list) go" where
  "ListenAndServe lib listenErr localAddr evs = (case listenErr of
      Some e \<Rightarrow> Some (Inl e)
    | None \<Rightarrow> do { os \<leftarrow> Serve lib localAddr evs; Some (Inr os) })"

definition tftp_respond ::
  "golib \<Rightarrow> string + bytes \<times> udp_addr \<Rightarrow> unit \<Rightarrow> srv list \<times> unit" where
  "tftp_respond lib ev u = (case ev of
      Inl e \<Rightarrow> ([SrvLog (Log ''TFTP'' (''Reading from socket: '' @ e))], u)
    | Inr (d, addr) \<Rightarrow> (case the (parseRRQ (take 512 d)) of
        Inl e \<Rightarrow> ([SrvLog (Debug ''TFTP'' (''parseRRQ: '' @ rrq_err_text lib addr e)),
                   SrvReply (mkError (rrq_err_text lib addr e)) addr], u)
      | Inr req \<Rightarrow> ([SrvSpawn addr req], u)))"

interpretation tserv: udp_server "tftp_turn lib" "tftp_respond lib" 512 for lib
proof unfold_locales
  fix buf :: bytes and ev and w :: unit
  assume len: "length buf = 512"
  show "\<exists>buf'. length buf' = 512 \<and>
      tftp_turn lib ev (buf, w) = Some (fst (tftp_respond lib ev w), buf', snd (tftp_respond lib ev w))"
  proof (cases ev)
    case (Inl e)
    with len show ?thesis by (simp add: tftp_turn_def tftp_respond_def)
  next
    case (Inr da)
    obtain d addr where da: "da = (d, addr)" by (cases da)
    obtain r where "parseRRQ (take 512 d) = Some r" using parseRRQ_total by blast
    with Inr da len read_into_slice [of buf d] show ?thesis
      by (auto simp: tftp_turn_def tftp_respond_def split_beta split: sum.split)
  qed
qed

section \<open>The packets of a transfer\<close>

text \<open>The reference: RFC 1350 cuts a file into blocks of \<open>bs\<close> bytes and one last block
  that is shorter, possibly empty, and numbers them from 1 modulo 2 to the 16.\<close>

function blocks :: "nat \<Rightarrow> bytes \<Rightarrow> bytes list" where
  "blocks bs d = (if bs = 0 \<or> length d < bs then [d] else take bs d # blocks bs (drop bs d))"
  by pat_completeness auto
termination
  by (relation "measure (\<lambda>(bs, d). length d)") auto

declare blocks.simps [simp del]

definition data_pkt :: "16 word \<Rightarrow> bytes \<Rightarrow> bytes" where
  "data_pkt seq d = [0, 3] @ be_put16 seq @ d"

fun data_pkts :: "16 word \<Rightarrow> bytes list \<Rightarrow> bytes list" where
  "data_pkts seq [] = []"
| "data_pkts seq (d # ds) = data_pkt seq d # data_pkts (seq + 1) ds"

fun tx_pkts :: "tx list \<Rightarrow> bytes list" where
  "tx_pkts [] = []"
| "tx_pkts (TxPkt p # xs) = p # tx_pkts xs"
| "tx_pkts (TxLog l # xs) = tx_pkts xs"

text \<open>The same packets in the same order, each sent between one and \<open>k\<close> times.\<close>

inductive retransmitted :: "nat \<Rightarrow> bytes list \<Rightarrow> bytes list \<Rightarrow> bool" for k where
  retx_Nil: "retransmitted k [] []"
| retx_Cons: "0 < n \<Longrightarrow> n \<le> k \<Longrightarrow> retransmitted k ps ws \<Longrightarrow> retransmitted k (p # ps) (replicate n p @ ws)"

inductive_simps retransmitted_Nil [simp]: "retransmitted k [] ws"

lemma tx_pkts_append [simp]: "tx_pkts (xs @ ys) = tx_pkts xs @ tx_pkts ys"
  by (induction xs rule: tx_pkts.induct) auto

lemma tx_pkts_map [simp]: "tx_pkts (map TxPkt ws) = ws"
  by (induction ws) auto

lemma tx_pkts_replicate [simp]: "tx_pkts (replicate n (TxPkt p)) = replicate n p"
  using tx_pkts_map [of "replicate n p"] by simp

lemma blocks_last: "bs = 0 \<or> length d < bs \<Longrightarrow> blocks bs d = [d]"
  by (simp add: blocks.simps)

lemma blocks_more: "0 < bs \<Longrightarrow> bs \<le> length d \<Longrightarrow> blocks bs d = take bs d # blocks bs (drop bs d)"
  by (subst blocks.simps) simp

lemma concat_blocks: "concat (blocks bs d) = d"
proof (induction bs d rule: blocks.induct)
  case (1 bs d)
  then show ?case by (subst blocks.simps) auto
qed

lemma length_data_pkt [simp]: "length (data_pkt seq d) = length d + 4"
  by (simp add: data_pkt_def be_put16_def)

lemma data_pkt_of_buffer:
  assumes "length buf = bsize + 4" "take 2 buf = [0, 3]" "length data \<le> bsize"
  shows "copy_at 4 data (copy_at 2 (be_put16 seq) buf) = data_pkt seq data @ drop (4 + length data) buf"
proof -
  obtain rest where "buf = 0 # 3 # rest"
    using assms(2) by (cases buf; cases "tl buf") (auto simp: numeral_2_eq_2)
  moreover obtain a b tail where "rest = a # b # tail"
    using assms(1) calculation by (cases rest; cases "tl rest") auto
  moreover have "drop (4 + n) (x # y # z # w # xs) = drop n xs" for n and x y z w :: byte and xs
    by (simp add: eval_nat_numeral)
  ultimately show ?thesis
    using assms(1,3) by (simp add: copy_at_def data_pkt_def be_put16_def)
qed

definition good_buf :: "nat \<Rightarrow> bytes \<Rightarrow> bool" where
  "good_buf bsize buf \<longleftrightarrow> length buf = bsize + 4 \<and> take 2 buf = [0, 3]"

lemma good_buf_init: "good_buf bsize ((replicate (bsize + 4) 0)[1 := 3])"
proof -
  have "(replicate (bsize + 4) 0)[1 := 3] = 0 # 3 # replicate (bsize + 2) (0 :: byte)"
    by (simp add: replicate_add [symmetric] replicate_app_Cons_same eval_nat_numeral)
  then show ?thesis by (simp add: good_buf_def)
qed

text \<open>One turn of the loop, for a file that ends with \<open>io.EOF\<close>.\<close>

lemma transfer_loop_empty:
  assumes "good_buf bsize buf" "0 < bsize" "final f = EOF" "reader_data f = []"
  shows "transfer_loop lib addr req bsize seq buf f es =
    Some (Failed, [TxLog (Log ''TFTP'' (''Transfer to '' @ addr_string addr @ '' failed: EOF'')),
                   TxPkt (mkError ''EOF'')])"
proof -
  obtain f1 where "read_full bsize f = ([], Some EOF, f1)"
    by (rule read_full_spec [of bsize f]) (use assms in \<open>simp add: full_err_def\<close>)
  moreover have "length buf - 4 = bsize" using assms(1) by (simp add: good_buf_def)
  ultimately show ?thesis
    by (subst transfer_loop.simps) (simp add: read_error_def)
qed

lemma transfer_loop_step:
  assumes "good_buf bsize buf" "0 < bsize" "final f = EOF" "reader_data f \<noteq> []"
    and send: "sendPacket (data_pkt seq (take bsize (reader_data f))) seq es = Some (r, ws, es1)"
  obtains buf1 f1 where "good_buf bsize buf1" "final f1 = EOF" "reader_data f1 = drop bsize (reader_data f)"
    "transfer_loop lib addr req bsize seq buf f es =
       (case r of
          SendBlocked \<Rightarrow> Some (Waiting, map TxPkt ws)
        | SendFail e \<Rightarrow> Some (Failed, map TxPkt ws @ [TxLog (Log ''TFTP''
            (''Transfer to '' @ addr_string addr @ '' failed: '' @ send_err_text lib e))])
        | SendOk \<Rightarrow>
            (if length (reader_data f) < bsize then
               Some (Sent, map TxPkt ws @ [TxLog (Log ''TFTP''
                 (''Sent '' @ quote lib (Filename req) @ '' to '' @ addr_string addr))])
             else do {
               (oc, out) \<leftarrow> transfer_loop lib addr req bsize (seq + 1) buf1 f1 es1;
               Some (oc, map TxPkt ws @ out)
             }))"
proof -
  let ?d = "take bsize (reader_data f)"
  let ?buf1 = "copy_at 4 ?d (copy_at 2 (be_put16 seq) buf)"
  obtain f1 where rd: "read_full bsize f = (?d, full_err bsize (reader_data f) EOF, f1)"
    and f1: "reader_data f1 = drop bsize (reader_data f)" "final f1 = EOF"
    using read_full_spec [of bsize f] assms(3) by metis
  have err: "read_error (full_err bsize (reader_data f) EOF) = None"
    using assms(4) by (simp add: full_err_def read_error_def)
  have buf: "length buf = bsize + 4" "take 2 buf = [0, 3]"
    using assms(1) by (simp_all add: good_buf_def)
  have pkt: "go_slice ?buf1 0 (length ?d + 4) = Some (data_pkt seq ?d)"
    by (simp add: data_pkt_of_buffer [OF buf])
  have buf1: "good_buf bsize ?buf1"
    using buf by (simp add: data_pkt_of_buffer [OF buf] good_buf_def) (simp add: data_pkt_def)
  have n: "length ?d < bsize \<longleftrightarrow> length (reader_data f) < bsize"
    by (simp add: min_less_iff_disj)
  have eq: "transfer_loop lib addr req bsize seq buf f es =
       (case r of
          SendBlocked \<Rightarrow> Some (Waiting, map TxPkt ws)
        | SendFail e \<Rightarrow> Some (Failed, map TxPkt ws @ [TxLog (Log ''TFTP''
            (''Transfer to '' @ addr_string addr @ '' failed: '' @ send_err_text lib e))])
        | SendOk \<Rightarrow>
            (if length (reader_data f) < bsize then
               Some (Sent, map TxPkt ws @ [TxLog (Log ''TFTP''
                 (''Sent '' @ quote lib (Filename req) @ '' to '' @ addr_string addr))])
             else do {
               (oc, out) \<leftarrow> transfer_loop lib addr req bsize (seq + 1) ?buf1 f1 es1;
               Some (oc, map TxPkt ws @ out)
             }))"
    by (subst transfer_loop.simps, unfold buf(1) add_diff_cancel_right' rd prod.case err option.case
        Let_def pkt bind.simps send n) (rule refl)
  show ?thesis
    by (rule that [OF buf1 f1(2) f1(1) eq])
qed

end
