(* ===== verification/Tftp_Delivery.thy ===== *)
theory Tftp_Delivery
  imports Tftp_Transfer "HOL-Library.Sublist"
begin

text \<open>
  What a TFTP transfer of \<open>src/tftp/tftp.go\<close> achieves: the packets it writes against the
  numbered blocks of RFC 1350, the file a receiver puts together from them, and the runs in
  which the transfer ends. The receiver and the peers of this theory are the other side of
  the protocol; the server's operations are those of \<open>Tftp_Transfer\<close>.
\<close>

section \<open>The packets of a run\<close>

text \<open>A run over the bytes \<open>d\<close> writes the first \<open>m\<close> blocks, each a few times, and perhaps
  an error packet at the end; a run that reports success has written every block, and its
  last block is not empty.\<close>

definition run_of :: "nat \<Rightarrow> 16 word \<Rightarrow> bytes \<Rightarrow> outcome \<Rightarrow> bytes list \<Rightarrow> bool" where
  "run_of bs seq d oc ps \<longleftrightarrow> (\<exists>m ws e.
     ps = ws @ e \<and> (e = [] \<or> e = [mkError ''EOF''] \<and> oc = Failed) \<and>
     retransmitted numRetries (take m (data_pkts seq (blocks bs d))) ws \<and>
     m \<le> length (blocks bs d) \<and> (m = length (blocks bs d) \<longrightarrow> last (blocks bs d) \<noteq> []) \<and>
     (oc = Sent \<longrightarrow> m = length (blocks bs d)))"

lemma length_data_pkts [simp]: "length (data_pkts seq ds) = length ds"
  by (induction ds arbitrary: seq) auto

lemma blocks_nonempty [simp]: "blocks bs d \<noteq> []"
  by (subst blocks.simps) simp

lemma blocks_unfold:
  "0 < bs \<Longrightarrow> blocks bs d = take bs d # (if length d < bs then [] else blocks bs (drop bs d))"
  by (subst blocks.simps) simp

lemma last_blocks_empty: "0 < bs \<Longrightarrow> last (blocks bs d) = [] \<longleftrightarrow> bs dvd length d"
proof (induction bs d rule: blocks.induct)
  case (1 bs d)
  show ?case
  proof (cases "length d < bs")
    case True
    then show ?thesis by (auto simp: blocks_last dest: dvd_imp_le)
  next
    case False
    with 1 show ?thesis by (simp add: blocks_more dvd_minus_self)
  qed
qed

lemma run_of_error:
  "0 < bs \<Longrightarrow> d = [] \<Longrightarrow> run_of bs seq d Failed [mkError ''EOF'']"
  unfolding run_of_def by (rule exI [of _ 0], rule exI [of _ "[]"]) (simp add: blocks_last)

lemma run_of_stop:
  assumes "0 < bs" "d \<noteq> []" "oc \<noteq> Sent" "0 < n" "n \<le> numRetries"
  shows "run_of bs seq d oc (replicate n (data_pkt seq (take bs d)))"
  unfolding run_of_def using assms retx_Cons [OF assms(4,5) retx_Nil, of "data_pkt seq (take bs d)"]
  by (intro exI [of _ "Suc 0"] exI [of _ "replicate n (data_pkt seq (take bs d))"] exI [of _ "[]"])
    (auto simp: blocks_unfold [of bs d])

lemma run_of_last:
  assumes "0 < bs" "d \<noteq> []" "length d < bs" "0 < n" "n \<le> numRetries"
  shows "run_of bs seq d Sent (replicate n (data_pkt seq d))"
  unfolding run_of_def using assms retx_Cons [OF assms(4,5) retx_Nil, of "data_pkt seq d"]
  by (intro exI [of _ "Suc 0"] exI [of _ "replicate n (data_pkt seq d)"] exI [of _ "[]"])
    (auto simp: blocks_last)

lemma run_of_more:
  assumes "0 < bs" "bs \<le> length d" "0 < n" "n \<le> numRetries" "run_of bs (seq + 1) (drop bs d) oc ps"
  shows "run_of bs seq d oc (replicate n (data_pkt seq (take bs d)) @ ps)"
proof -
  from assms(5) obtain m ws e where "ps = ws @ e" "e = [] \<or> e = [mkError ''EOF''] \<and> oc = Failed"
    "retransmitted numRetries (take m (data_pkts (seq + 1) (blocks bs (drop bs d)))) ws"
    "m \<le> length (blocks bs (drop bs d))"
    "m = length (blocks bs (drop bs d)) \<longrightarrow> last (blocks bs (drop bs d)) \<noteq> []"
    "oc = Sent \<longrightarrow> m = length (blocks bs (drop bs d))"
    unfolding run_of_def by blast
  then show ?thesis
    unfolding run_of_def using assms(1-4)
    by (intro exI [of _ "Suc m"] exI [of _ "replicate n (data_pkt seq (take bs d)) @ ws"] exI [of _ e])
      (auto simp: blocks_more [of bs d] intro!: retx_Cons)
qed

section \<open>Acknowledgements\<close>

text \<open>The number a packet acknowledges, and consecutive numbers modulo 2 to the 16.\<close>

definition ack_no :: "rx \<Rightarrow> 16 word option" where
  "ack_no e = (case e of
      RxData d \<Rightarrow> if 4 \<le> length d \<and> be_uint16 d = Some 4 then be_uint16 (drop 2 d) else None
    | _ \<Rightarrow> None)"

fun numbers :: "16 word \<Rightarrow> nat \<Rightarrow> 16 word list" where
  "numbers seq 0 = []"
| "numbers seq (Suc n) = seq # numbers (seq + 1) n"

definition acked :: "16 word \<Rightarrow> nat \<Rightarrow> rx list \<Rightarrow> bool" where
  "acked seq n es \<longleftrightarrow> subseq (map Some (numbers seq n)) (map ack_no es)"

definition is_ack :: "16 word \<Rightarrow> bytes \<Rightarrow> bool" where
  "is_ack seq d \<longleftrightarrow> 4 \<le> length d \<and> be_uint16 d = Some 4 \<and> be_uint16 (drop 2 d) = Some seq"

definition is_abort :: "bytes \<Rightarrow> bool" where
  "is_abort d \<longleftrightarrow> 4 \<le> length d \<and> be_uint16 d = Some 5"

definition ack :: "16 word \<Rightarrow> bytes" where
  "ack seq = [0, 4] @ be_put16 seq"

lemma is_ack_ack [simp]: "is_ack seq (ack seq)"
  using be_uint16_put16 [of 4 "be_put16 seq"] be_uint16_put16 [of seq "[]"]
  by (simp add: is_ack_def ack_def be_put16_def)

lemma be_uint16_take [simp]: "be_uint16 (take 2 b) = be_uint16 b"
  by (simp add: be_uint16_def eval_nat_numeral split: list.split)

lemma be_uint16_read_into:
  assumes "length recv = 256" "4 \<le> length d"
  shows "be_uint16 (snd (read_into recv d)) = be_uint16 d"
    and "be_uint16 (drop 2 (snd (read_into recv d))) = be_uint16 (drop 2 d)"
proof -
  obtain a b x y r where "d = a # b # x # y # r"
    using assms(2) by (auto simp: eval_nat_numeral Suc_le_length_iff)
  then show "be_uint16 (snd (read_into recv d)) = be_uint16 d"
    and "be_uint16 (drop 2 (snd (read_into recv d))) = be_uint16 (drop 2 d)"
    using assms(1) by (simp_all add: read_into_def copy_at_def be_uint16_def)
qed

lemma wait_ack_data:
  assumes "length recv = 256"
  shows "\<exists>recv' msg. length recv' = 256 \<and> wait_ack seq recv (RxData d # es) =
    (if is_ack seq d then Some (Acked, es)
     else if is_abort d then Some (WaitFailed (ClientAborted msg), es)
     else wait_ack seq recv' es)"
proof (cases "4 \<le> length d")
  case False
  then have "\<not> is_ack seq d" "\<not> is_abort d" by (simp_all add: is_ack_def is_abort_def)
  with False assms show ?thesis
    by (intro exI [of _ "snd (read_into recv d)"]) (simp add: read_into_def copy_at_def)
next
  case True
  obtain recv' where rd: "read_into recv d = (min (length d) 256, recv')" and len: "length recv' = 256"
    using assms by (simp add: read_into_def)
  then have fields: "be_uint16 recv' = be_uint16 d" "be_uint16 (drop 2 recv') = be_uint16 (drop 2 d)"
    using be_uint16_read_into [OF assms True] by simp_all
  obtain oc num where oc: "be_uint16 d = Some oc" and num: "be_uint16 (drop 2 d) = Some num"
    using True by (cases "be_uint16 d"; cases "be_uint16 (drop 2 d)") auto
  obtain m r ok where "nullStr (drop 4 recv') = Some (m, r, ok)"
    using nullStr_returns by blast
  with rd len True oc num fields show ?thesis
    by (intro exI [of _ recv'] exI [of _ m]) (auto simp: is_ack_def is_abort_def)
qed

text \<open>The loop returns success only on the acknowledgement it waits for.\<close>

lemma wait_ack_Acked:
  "length recv = 256 \<Longrightarrow> wait_ack seq recv es = Some (Acked, es') \<Longrightarrow>
     \<exists>pre d. es = pre @ RxData d # es' \<and> is_ack seq d"
proof (induction es arbitrary: recv)
  case (Cons e es)
  show ?case
  proof (cases e)
    case (RxData d)
    obtain recv' msg where "length recv' = 256" and eq: "wait_ack seq recv (RxData d # es) =
        (if is_ack seq d then Some (Acked, es)
         else if is_abort d then Some (WaitFailed (ClientAborted msg), es)
         else wait_ack seq recv' es)"
      using wait_ack_data [OF Cons.prems(1)] by blast
    moreover have "\<exists>pre d. e # es = pre @ RxData d # es' \<and> is_ack seq d"
      if "wait_ack seq recv' es = Some (Acked, es')"
      using Cons.IH [OF \<open>length recv' = 256\<close> that] by (metis append_Cons)
    ultimately show ?thesis
      using Cons.prems(2) unfolding RxData eq
      by (cases "is_ack seq d"; cases "is_abort d") auto
  qed (use Cons.prems in auto)
qed simp

lemma send_tries_SendOk:
  "send_tries k b seq es = Some (SendOk, ws, es') \<Longrightarrow> \<exists>pre d. es = pre @ RxData d # es' \<and> is_ack seq d"
proof (induction k arbitrary: es ws)
  case (Suc k)
  obtain w es1 where w: "wait_ack seq (replicate 256 0) es = Some (w, es1)"
    using wait_ack_returns [of "replicate 256 0" seq es] by auto
  show ?case
  proof (cases w)
    case WaitTimeout
    then obtain ws' where "send_tries k b seq es1 = Some (SendOk, ws', es')"
      using Suc.prems w by (auto simp: bind_eq_Some_conv)
    with Suc.IH obtain pre d where "es1 = pre @ RxData d # es'" "is_ack seq d" by blast
    with wait_ack_consumes [OF w] show ?thesis by (metis append.assoc)
  qed (use Suc.prems w wait_ack_Acked [of "replicate 256 0" seq es es1] in auto)
qed simp

lemma acked_Suc:
  assumes "es = pre @ RxData d # es'" "is_ack seq d" "acked (seq + 1) n es'"
  shows "acked seq (Suc n) es"
proof -
  have "ack_no (RxData d) = Some seq" using assms(2) by (simp add: ack_no_def is_ack_def)
  with assms(1,3) show ?thesis
    by (simp add: acked_def) (intro list_emb_append2 subseq_Cons2)
qed

lemma acked_0 [simp]: "acked seq 0 es"
  by (simp add: acked_def)

lemma sendPacket_acked:
  assumes "sendPacket b seq es = Some (SendOk, ws, es1)" "acked (seq + 1) n es1"
  shows "acked seq (Suc n) es"
  using send_tries_SendOk assms acked_Suc unfolding sendPacket_def by blast

section \<open>Every run of the loop\<close>

lemma transfer_loop_run:
  assumes "good_buf bs buf" "0 < bs" "final f = EOF"
  shows "\<exists>oc out. transfer_loop lib addr req bs seq buf f es = Some (oc, out) \<and>
    run_of bs seq (reader_data f) oc (tx_pkts out) \<and>
    (oc = Sent \<longrightarrow> acked seq (length (blocks bs (reader_data f))) es)"
  using assms
proof (induction es arbitrary: seq buf f rule: length_induct)
  case (1 es)
  let ?d = "reader_data f"
  show ?case
  proof (cases "?d = []")
    case True
    then show ?thesis
      using transfer_loop_empty [OF "1.prems" True] run_of_error [OF "1.prems"(2) True] by simp
  next
    case False
    obtain r ws es1 where s: "sendPacket (data_pkt seq (take bs ?d)) seq es = Some (r, ws, es1)"
      using sendPacket_returns by blast
    obtain n where n: "ws = replicate n (data_pkt seq (take bs ?d))" "0 < n" "n \<le> numRetries"
      using sendPacket_writes [OF s] by blast
    obtain buf1 f1 where step: "good_buf bs buf1" "final f1 = EOF" "reader_data f1 = drop bs ?d"
      and eq: "transfer_loop lib addr req bs seq buf f es =
       (case r of
          SendBlocked \<Rightarrow> Some (Waiting, map TxPkt ws)
        | SendFail e \<Rightarrow> Some (Failed, map TxPkt ws @ [TxLog (Log ''TFTP''
            (''Transfer to '' @ addr_string addr @ '' failed: '' @ send_err_text lib e))])
        | SendOk \<Rightarrow>
            (if length ?d < bs then
               Some (Sent, map TxPkt ws @ [TxLog (Log ''TFTP''
                 (''Sent '' @ quote lib (Filename req) @ '' to '' @ addr_string addr))])
             else do {
               (oc, out) \<leftarrow> transfer_loop lib addr req bs (seq + 1) buf1 f1 es1;
               Some (oc, map TxPkt ws @ out)
             }))"
      using transfer_loop_step [OF "1.prems" False s, of lib addr req] by blast
    have acks: "r = SendOk \<Longrightarrow> acked (seq + 1) m es1 \<Longrightarrow> acked seq (Suc m) es" for m
      using s sendPacket_acked by blast
    show ?thesis
    proof (cases "r = SendOk \<and> bs \<le> length ?d")
      case True
      then have "length es1 < length es" using s sendPacket_shorter by blast
      from "1.IH" [rule_format, OF this step(1) "1.prems"(2) step(2), of "seq + 1"] obtain oc out where
        "transfer_loop lib addr req bs (seq + 1) buf1 f1 es1 = Some (oc, out)"
        "run_of bs (seq + 1) (drop bs ?d) oc (tx_pkts out)"
        "oc = Sent \<longrightarrow> acked (seq + 1) (length (blocks bs (drop bs ?d))) es1"
        unfolding step(3) by blast
      with True n "1.prems"(2) show ?thesis
        unfolding eq using acks by (simp add: run_of_more blocks_more [of bs ?d])
    next
      case False
      with \<open>?d \<noteq> []\<close> n "1.prems"(2) show ?thesis
        unfolding eq using acks [of 0]
        by (cases r) (auto simp: run_of_stop run_of_last blocks_last)
    qed
  qed
qed

section \<open>The receiver\<close>

text \<open>A client takes the data packet with the number it expects and ignores every other
  packet, repeated ones included. Its second result says that it has seen the short block
  that ends a transfer.\<close>

fun receive :: "nat \<Rightarrow> 16 word \<Rightarrow> bytes list \<Rightarrow> bytes \<times> bool" where
  "receive bs seq [] = ([], False)"
| "receive bs seq (p # ps) =
     (if 4 \<le> length p \<and> be_uint16 p = Some 3 \<and> be_uint16 (drop 2 p) = Some seq
      then if length p < bs + 4 then (drop 4 p, True)
           else (case receive bs (seq + 1) ps of (d, fin) \<Rightarrow> (drop 4 p @ d, fin))
      else receive bs seq ps)"

lemma data_pkt_fields [simp]:
  "be_uint16 (data_pkt seq d) = Some 3"
  "be_uint16 (drop 2 (data_pkt seq d)) = Some seq"
  "drop 4 (data_pkt seq d) = d"
  using be_uint16_put16 [of 3 "be_put16 seq @ d"] be_uint16_put16 [of seq d]
  by (simp_all add: data_pkt_def be_put16_def)

lemma mkError_opcode [simp]: "be_uint16 (mkError s) = Some 5"
  using be_uint16_put16 [of 5 "[0, 0] @ bytes_of s @ [0]"]
  by (simp add: mkError_eq be_put16_def)

lemma oack_opcode [simp]: "be_uint16 (oack_packet bs) = Some 6"
  using be_uint16_put16 [of 6 "bytes_of (''blksize'' @ [CHR 0x00] @ itoa bs @ [CHR 0x00])"]
  by (simp add: oack_packet_def be_put16_def)

lemma receive_other:
  "list_all (\<lambda>p. be_uint16 p \<noteq> Some 3) ps \<Longrightarrow> receive bs seq (ps @ qs) = receive bs seq qs"
  by (induction ps) auto

lemma receive_duplicate:
  "receive bs (seq + 1) (replicate n (data_pkt seq d) @ ps) = receive bs (seq + 1) ps"
  by (induction n) auto

lemma receive_block:
  "0 < n \<Longrightarrow> receive bs seq (replicate n (data_pkt seq d) @ ps) =
     (if length d < bs then (d, True)
      else (case receive bs (seq + 1) ps of (d', fin) \<Rightarrow> (d @ d', fin)))"
  by (cases n) (simp_all add: receive_duplicate)

lemma receive_blocks:
  assumes "0 < bs" "list_all (\<lambda>p. be_uint16 p \<noteq> Some 3) e" "m \<le> length (blocks bs d)"
    and "retransmitted k (take m (data_pkts seq (blocks bs d))) ws"
  shows "receive bs seq (ws @ e) = (concat (take m (blocks bs d)), m = length (blocks bs d))"
  using assms
proof (induction bs d arbitrary: m seq ws rule: blocks.induct)
  case (1 bs d)
  show ?case
  proof (cases m)
    case 0
    with "1.prems" receive_other [of e bs seq "[]"] show ?thesis by simp
  next
    case (Suc m')
    let ?rest = "if length d < bs then [] else blocks bs (drop bs d)"
    have bl: "blocks bs d = take bs d # ?rest" using "1.prems"(1) by (rule blocks_unfold)
    obtain n ws' where ws: "ws = replicate n (data_pkt seq (take bs d)) @ ws'" "0 < n"
      "retransmitted k (take m' (data_pkts (seq + 1) ?rest)) ws'"
      using "1.prems"(4) unfolding bl Suc by (auto elim: retransmitted.cases)
    show ?thesis
    proof (cases "length d < bs")
      case True
      with "1.prems"(3) bl Suc have "m' = 0" by simp
      with True ws Suc show ?thesis by (simp add: bl receive_block)
    next
      case False
      with "1.prems" bl Suc have m': "m' \<le> length (blocks bs (drop bs d))" by simp
      have "receive bs (seq + 1) (ws' @ e) =
          (concat (take m' (blocks bs (drop bs d))), m' = length (blocks bs (drop bs d)))"
        using "1.IH" [of m' "seq + 1" ws'] False "1.prems"(1,2) m' ws(3) by simp
      with False ws Suc show ?thesis by (simp add: bl receive_block)
    qed
  qed
qed

text \<open>What the receiver has after a run.\<close>

lemma run_of_received:
  assumes "0 < bs" "run_of bs seq d oc ps"
  shows "\<exists>rest. d = fst (receive bs seq ps) @ rest \<and>
    (snd (receive bs seq ps) \<longrightarrow> rest = [] \<and> \<not> bs dvd length d) \<and>
    (oc = Sent \<longrightarrow> snd (receive bs seq ps))"
proof -
  from assms(2) obtain m ws e where ps: "ps = ws @ e" "e = [] \<or> e = [mkError ''EOF''] \<and> oc = Failed"
    and run: "retransmitted numRetries (take m (data_pkts seq (blocks bs d))) ws"
      "m \<le> length (blocks bs d)" "m = length (blocks bs d) \<longrightarrow> last (blocks bs d) \<noteq> []"
      "oc = Sent \<longrightarrow> m = length (blocks bs d)"
    unfolding run_of_def by blast
  have "list_all (\<lambda>p. be_uint16 p \<noteq> Some 3) e" using ps(2) by auto
  then have "receive bs seq ps = (concat (take m (blocks bs d)), m = length (blocks bs d))"
    unfolding ps(1) using receive_blocks assms(1) run(1,2) by blast
  moreover have "d = concat (take m (blocks bs d)) @ concat (drop m (blocks bs d))"
    by (metis append_take_drop_id concat_append concat_blocks)
  ultimately show ?thesis
    using run(3,4) last_blocks_empty [OF assms(1), of d] by auto
qed

section \<open>A patient client\<close>

text \<open>A client that answers each packet in time: before the acknowledgement there may be
  tries that time out, fewer than \<open>numRetries\<close>, and packets the server ignores.\<close>

type_synonym reply = "rx list list \<times> rx list"

definition ignored :: "16 word \<Rightarrow> rx \<Rightarrow> bool" where
  "ignored seq e = (case e of RxData d \<Rightarrow> \<not> is_ack seq d \<and> \<not> is_abort d | _ \<Rightarrow> False)"

definition reply_events :: "16 word \<Rightarrow> reply \<Rightarrow> rx list" where
  "reply_events seq r = concat (map (\<lambda>ns. ns @ [RxTimeout]) (fst r)) @ snd r @ [RxData (ack seq)]"

definition patient_reply :: "16 word \<Rightarrow> reply \<Rightarrow> bool" where
  "patient_reply seq r \<longleftrightarrow> length (fst r) < numRetries \<and>
     list_all (list_all (ignored seq)) (fst r) \<and> list_all (ignored seq) (snd r)"

fun replies :: "16 word \<Rightarrow> reply list \<Rightarrow> rx list" where
  "replies seq [] = []"
| "replies seq (r # rs) = reply_events seq r @ replies (seq + 1) rs"

fun patient :: "16 word \<Rightarrow> reply list \<Rightarrow> bool" where
  "patient seq [] \<longleftrightarrow> True"
| "patient seq (r # rs) \<longleftrightarrow> patient_reply seq r \<and> patient (seq + 1) rs"

lemma wait_ack_noise:
  "length recv = 256 \<Longrightarrow> list_all (ignored seq) ns \<Longrightarrow>
     \<exists>recv'. length recv' = 256 \<and> wait_ack seq recv (ns @ es) = wait_ack seq recv' es"
proof (induction ns arbitrary: recv)
  case (Cons e ns)
  then obtain d where e: "e = RxData d" "\<not> is_ack seq d" "\<not> is_abort d"
    by (auto simp: ignored_def split: rx.splits)
  then obtain recv' where "length recv' = 256" "wait_ack seq recv ((e # ns) @ es) = wait_ack seq recv' (ns @ es)"
    using wait_ack_data [OF Cons.prems(1), of seq d "ns @ es"] by auto
  with Cons.IH [of recv'] Cons.prems(2) show ?case by auto
qed auto

lemma wait_ack_timeout:
  "list_all (ignored seq) ns \<Longrightarrow> wait_ack seq (replicate 256 0) (ns @ RxTimeout # es) = Some (WaitTimeout, es)"
  using wait_ack_noise [of "replicate 256 0" seq ns "RxTimeout # es"] by auto

lemma wait_ack_hit:
  assumes "list_all (ignored seq) ns"
  shows "wait_ack seq (replicate 256 0) (ns @ RxData (ack seq) # es) = Some (Acked, es)"
proof -
  obtain recv' :: bytes where "length recv' = 256"
    "wait_ack seq (replicate 256 0) (ns @ RxData (ack seq) # es) = wait_ack seq recv' (RxData (ack seq) # es)"
    using wait_ack_noise [OF _ assms, of "replicate 256 0"] by (metis length_replicate)
  then show ?thesis using wait_ack_data [of recv' seq "ack seq" es] by auto
qed

lemma send_tries_patient:
  "length tos < k \<Longrightarrow> list_all (list_all (ignored seq)) tos \<Longrightarrow> list_all (ignored seq) ns \<Longrightarrow>
     send_tries k b seq (concat (map (\<lambda>ns. ns @ [RxTimeout]) tos) @ ns @ RxData (ack seq) # es) =
       Some (SendOk, replicate (Suc (length tos)) b, es)"
proof (induction tos arbitrary: k)
  case Nil
  then obtain k' where "k = Suc k'" by (cases k) auto
  with Nil show ?case by (simp add: wait_ack_hit)
next
  case (Cons t tos)
  then obtain k' where "k = Suc k'" "length tos < k'" by (cases k) auto
  with Cons show ?case by (simp add: wait_ack_timeout)
qed

lemma sendPacket_patient:
  "patient_reply seq r \<Longrightarrow>
     sendPacket b seq (reply_events seq r @ es) = Some (SendOk, replicate (Suc (length (fst r))) b, es)"
  using send_tries_patient [of "fst r" numRetries seq "snd r" b es]
  by (simp add: sendPacket_def reply_events_def patient_reply_def)

lemma transfer_loop_patient:
  assumes "good_buf bs buf" "0 < bs" "final f = EOF" "patient seq rs"
    and "length rs = (length (reader_data f) + bs - 1) div bs"
  shows "\<exists>out. transfer_loop lib addr req bs seq buf f (replies seq rs @ es) =
    Some (if bs dvd length (reader_data f) then Failed else Sent, out)"
  using assms
proof (induction rs arbitrary: seq buf f)
  case Nil
  then have "length (reader_data f) + bs - 1 < bs" by (simp add: div_eq_0_iff)
  with Nil(2) have "reader_data f = []" by (cases "reader_data f") auto
  with transfer_loop_empty [OF Nil(1-3) this] show ?case by simp
next
  case (Cons r rs)
  let ?d = "reader_data f"
  have ne: "?d \<noteq> []" using Cons.prems(2,5) by auto
  have s: "sendPacket (data_pkt seq (take bs ?d)) seq (replies seq (r # rs) @ es) =
      Some (SendOk, replicate (Suc (length (fst r))) (data_pkt seq (take bs ?d)), replies (seq + 1) rs @ es)"
    using Cons.prems(4) by (simp add: sendPacket_patient del: replicate.simps)
  show ?case
  proof (rule transfer_loop_step [OF Cons.prems(1-3) ne s, of lib addr req], goal_cases)
    case (1 buf1 f1)
    show ?case
    proof (cases "length ?d < bs")
      case True
      then have "\<not> bs dvd length ?d" using ne by (auto dest: dvd_imp_le)
      with True 1(4) show ?thesis by simp
    next
      case False
      then obtain k where k: "length ?d = bs + k" by (metis le_Suc_ex not_less)
      have "bs + k + bs - 1 = (k + bs - 1) + bs" using Cons.prems(2) by simp
      then have "Suc (length rs) = Suc ((k + bs - 1) div bs)"
        using Cons.prems(2,5) unfolding k by (simp only: list.size div_add_self2)
      then have "length rs = (length (reader_data f1) + bs - 1) div bs"
        using 1(3) k by simp
      with Cons.IH [of buf1 f1 "seq + 1"] 1(1,2) Cons.prems(2,4) obtain out where
        "transfer_loop lib addr req bs (seq + 1) buf1 f1 (replies (seq + 1) rs @ es) =
          Some (if bs dvd length (reader_data f1) then Failed else Sent, out)"
        by auto
      with False k 1(3,4) show ?thesis by simp
    qed
  qed
qed

section \<open>Whole transfers\<close>

definition block_size :: "rrq \<Rightarrow> nat" where
  "block_size req = (if BlockSize req > 0 then nat (BlockSize req) else 512)"

text \<open>The acknowledgements of a whole transfer: with a negotiated block size the option
  acknowledgement comes first, with number 0.\<close>

definition all_acked :: "rrq \<Rightarrow> nat \<Rightarrow> rx list \<Rightarrow> bool" where
  "all_acked req n es = (if BlockSize req > 0 then acked 0 (Suc n) es else acked 1 n es)"

lemma block_size_pos [simp]: "0 < block_size req"
  by (simp add: block_size_def)

lemma run_of_none: "oc \<noteq> Sent \<Longrightarrow> run_of bs seq d oc []"
  unfolding run_of_def by (rule exI [of _ 0], rule exI [of _ "[]"]) simp

lemma transfer_run:
  assumes "dial addr = None" "handler (Filename req) addr = Inr f" "final f = EOF"
  shows "\<exists>oc out oacks ps. transfer lib dial addr req handler es = Some (oc, out) \<and>
    tx_pkts out = oacks @ ps \<and> list_all (\<lambda>p. p = oack_packet (BlockSize req)) oacks \<and>
    run_of (block_size req) 1 (reader_data f) oc ps \<and>
    (oc = Sent \<longrightarrow> all_acked req (length (blocks (block_size req) (reader_data f))) es)"
proof (cases "BlockSize req > 0")
  case False
  then have bs: "block_size req = 512" by (simp add: block_size_def)
  from transfer_loop_run [OF good_buf_init _ assms(3), of 512 lib addr req 1 es] obtain oc out where
    "transfer_loop lib addr req 512 1 ((replicate (512 + 4) 0)[1 := 3]) f es = Some (oc, out)"
    "run_of 512 1 (reader_data f) oc (tx_pkts out)"
    "oc = Sent \<longrightarrow> acked 1 (length (blocks 512 (reader_data f))) es"
    by auto
  with False assms show ?thesis
    by (intro exI [of _ oc] exI [of _ out] exI [of _ "[]"] exI [of _ "tx_pkts out"])
      (simp add: transfer_def bs all_acked_def)
next
  case True
  let ?bs = "nat (BlockSize req)"
  have bs: "block_size req = ?bs" using True by (simp add: block_size_def)
  obtain r ws es1 where s: "sendPacket (oack_packet (BlockSize req)) 0 es = Some (r, ws, es1)"
    using sendPacket_returns by blast
  then obtain n where n: "ws = replicate n (oack_packet (BlockSize req))"
    using sendPacket_writes by blast
  from transfer_loop_run [OF good_buf_init _ assms(3), of ?bs lib addr req 1 es1] True obtain oc out where
    l: "transfer_loop lib addr req ?bs 1 ((replicate (?bs + 4) 0)[1 := 3]) f es1 = Some (oc, out)"
    "run_of ?bs 1 (reader_data f) oc (tx_pkts out)"
    "oc = Sent \<longrightarrow> acked 1 (length (blocks ?bs (reader_data f))) es1"
    by auto
  have "r = SendOk \<Longrightarrow> oc = Sent \<longrightarrow> acked 0 (Suc (length (blocks ?bs (reader_data f)))) es"
    using s l(3) sendPacket_acked [of _ 0] by auto
  then obtain oc' out' where
    "transfer lib dial addr req handler es = Some (oc', map TxPkt ws @ out')"
    "run_of ?bs 1 (reader_data f) oc' (tx_pkts out')"
    "oc' = Sent \<longrightarrow> acked 0 (Suc (length (blocks ?bs (reader_data f)))) es"
    using that [of Waiting "[]"] that [of oc out]
      that [of Failed "[TxLog (Debug ''TFTP'' (''Transfer to '' @ addr_string addr @ '' failed: '' @
        (case r of SendFail e \<Rightarrow> send_err_text lib e | _ \<Rightarrow> [])))]"]
    by (cases r) (use True assms s l in \<open>simp_all add: transfer_def run_of_none\<close>)
  with True n show ?thesis
    by (intro exI [of _ oc'] exI [of _ "map TxPkt ws @ out'"] exI [of _ ws] exI [of _ "tx_pkts out'"])
      (simp add: bs all_acked_def list_all_iff)
qed

lemma receive_oacks:
  "list_all (\<lambda>p. p = oack_packet bs) oacks \<Longrightarrow> receive k seq (oacks @ ps) = receive k seq ps"
  by (rule receive_other) (auto simp: list_all_iff)

lemma transfer_received:
  assumes "dial addr = None" "handler (Filename req) addr = Inr f" "final f = EOF"
  shows "\<exists>oc out rest. transfer lib dial addr req handler es = Some (oc, out) \<and>
    reader_data f = fst (receive (block_size req) 1 (tx_pkts out)) @ rest \<and>
    (snd (receive (block_size req) 1 (tx_pkts out)) \<longrightarrow>
       rest = [] \<and> \<not> block_size req dvd length (reader_data f)) \<and>
    (oc = Sent \<longrightarrow> snd (receive (block_size req) 1 (tx_pkts out)) \<and>
       all_acked req (length (blocks (block_size req) (reader_data f))) es)"
proof -
  obtain oc out oacks ps where t: "transfer lib dial addr req handler es = Some (oc, out)"
    "tx_pkts out = oacks @ ps" "list_all (\<lambda>p. p = oack_packet (BlockSize req)) oacks"
    "run_of (block_size req) 1 (reader_data f) oc ps"
    "oc = Sent \<longrightarrow> all_acked req (length (blocks (block_size req) (reader_data f))) es"
    using transfer_run [where es = es and lib = lib and dial = dial and handler = handler, OF assms] by blast
  with run_of_received [OF block_size_pos t(4)] show ?thesis
    by (auto simp: receive_oacks)
qed

lemma transfer_patient:
  assumes "dial addr = None" "handler (Filename req) addr = Inr f" "final f = EOF"
    and "BlockSize req > 0 \<longrightarrow> patient_reply 0 r0" "patient 1 rs"
    and "length rs = (length (reader_data f) + block_size req - 1) div block_size req"
  shows "\<exists>out. transfer lib dial addr req handler
      ((if BlockSize req > 0 then reply_events 0 r0 else []) @ replies 1 rs @ es) =
    Some (if block_size req dvd length (reader_data f) then Failed else Sent, out)"
proof -
  obtain out where l: "transfer_loop lib addr req (block_size req) 1
      ((replicate (block_size req + 4) 0)[1 := 3]) f (replies 1 rs @ es) =
    Some (if block_size req dvd length (reader_data f) then Failed else Sent, out)"
    using transfer_loop_patient [OF good_buf_init block_size_pos assms(3,5,6)] by blast
  show ?thesis
  proof (cases "BlockSize req > 0")
    case False
    then have "block_size req = 512" by (simp add: block_size_def)
    with False l assms(1,2) show ?thesis by (simp add: transfer_def)
  next
    case True
    then have "block_size req = nat (BlockSize req)" by (simp add: block_size_def)
    with True l assms(1,2,4) show ?thesis by (simp add: transfer_def sendPacket_patient)
  qed
qed

section \<open>Properties\<close>

text \<open>A transfer of one short file in a single block, which the client acknowledges after one
  timeout and one stray packet.\<close>

definition demo_golib :: golib where
  "demo_golib = demo_lib ([], [], [])"

definition demo_req :: rrq where
  "demo_req = \<lparr>Filename = ''pxelinux.0'', BlockSize = 0\<rparr>"

definition demo_peer :: udp_addr where
  "demo_peer = \<lparr>addr_ip = ipv4 10 0 0 7, addr_port = 2070\<rparr>"

definition demo_reply :: reply where
  "demo_reply = ([[]], [RxData [1, 2]])"

lemma demo_replies: "patient_reply 1 demo_reply" "\<not> (512 :: nat) dvd Suc (Suc (Suc 0))" "block_size demo_req = 512" "Filename demo_req = ''pxelinux.0''"
  "\<not> BlockSize demo_req > 0"
  by (auto simp: patient_reply_def demo_reply_def numRetries_def ignored_def is_ack_def is_abort_def
      block_size_def demo_req_def dest: dvd_imp_le)

lemma demo_transfer:
  "\<exists>out. transfer demo_golib (\<lambda>_. None) demo_peer demo_req (Blob [1, 2, 3]) (replies 1 [demo_reply]) = Some (Sent, out)"
  using transfer_patient [of "\<lambda>_. None" demo_peer "Blob [1, 2, 3]" demo_req "buffer_reader [1, 2, 3]" demo_reply
      "[demo_reply]" demo_golib "[]"]
  by (simp add: Blob_def demo_replies buffer_reader_def reader_data_def)

text \<open>C2. A transfer that reports success has delivered the file: a receiver that follows the
  protocol with the agreed block size puts together exactly the bytes the handler gave and has
  seen the final block, and the client had acknowledged every block in order, the option
  acknowledgement first when a block size was negotiated. This covers files of more than 65535
  blocks, where the block number wraps.\<close>

theorem transfer_delivers:
  assumes "dial addr = None" "handler (Filename req) addr = Inr f" "final f = EOF"
    and "transfer lib dial addr req handler es = Some (Sent, out)"
  shows "receive (block_size req) 1 (tx_pkts out) = (reader_data f, True) \<and>
    all_acked req (length (blocks (block_size req) (reader_data f))) es"
  using transfer_received [where lib = lib and es = es and dial = dial and handler = handler, OF assms(1-3)] assms(4)
  by (cases "receive (block_size req) 1 (tx_pkts out)") auto

theorem transfer_delivers_witness:
  "\<exists>out. transfer demo_golib (\<lambda>_. None) demo_peer demo_req (Blob [1, 2, 3]) (replies 1 [demo_reply]) = Some (Sent, out) \<and>
     receive (block_size demo_req) 1 (tx_pkts out) = ([1, 2, 3], True)"
proof -
  obtain out where "transfer demo_golib (\<lambda>_. None) demo_peer demo_req (Blob [1, 2, 3]) (replies 1 [demo_reply]) = Some (Sent, out)"
    using demo_transfer by blast
  with transfer_delivers [of "\<lambda>_. None" demo_peer "Blob [1, 2, 3]" demo_req "buffer_reader [1, 2, 3]"] show ?thesis
    by (auto simp: Blob_def buffer_reader_def reader_data_def)
qed

text \<open>C17. Whatever the network does, a transfer of a file that can be read returns, and what a
  receiver has put together at its end is a prefix of the file; if the receiver has seen a final
  block, it is the whole file.\<close>

theorem transfer_prefix:
  assumes "dial addr = None" "handler (Filename req) addr = Inr f" "final f = EOF"
  shows "\<exists>oc out rest. transfer lib dial addr req handler es = Some (oc, out) \<and>
    reader_data f = fst (receive (block_size req) 1 (tx_pkts out)) @ rest \<and>
    (snd (receive (block_size req) 1 (tx_pkts out)) \<longrightarrow> rest = [])"
  using transfer_received [where lib = lib and es = es and dial = dial and handler = handler, OF assms] by blast

theorem transfer_prefix_witness:
  "\<exists>oc out rest. transfer demo_golib (\<lambda>_. None) demo_peer demo_req (Blob [1, 2, 3]) [RxTimeout, RxError ''closed''] =
      Some (oc, out) \<and> [1, 2, 3] = fst (receive 512 1 (tx_pkts out)) @ rest"
  using transfer_prefix [of "\<lambda>_. None" demo_peer "Blob [1, 2, 3]" demo_req "buffer_reader [1, 2, 3]" demo_golib
      "[RxTimeout, RxError ''closed'']"]
  by (auto simp: Blob_def buffer_reader_def reader_data_def demo_replies)

text \<open>C4. A transfer succeeds with every client that acknowledges each packet, even when each of
  them needs up to four retransmissions and stray packets arrive in between, provided the length
  of the file is not a multiple of the block size.\<close>

theorem transfer_completes:
  assumes "dial addr = None" "handler (Filename req) addr = Inr f" "final f = EOF"
    and "BlockSize req > 0 \<longrightarrow> patient_reply 0 r0" "patient 1 rs"
    and "length rs = (length (reader_data f) + block_size req - 1) div block_size req"
    and "\<not> block_size req dvd length (reader_data f)"
  shows "\<exists>out. transfer lib dial addr req handler
      ((if BlockSize req > 0 then reply_events 0 r0 else []) @ replies 1 rs @ es) = Some (Sent, out)"
  using transfer_patient [where dial = dial and handler = handler, OF assms(1-6)] assms(7) by simp

theorem transfer_completes_witness:
  "\<exists>out. transfer demo_golib (\<lambda>_. None) demo_peer demo_req (Blob [1, 2, 3])
     [RxTimeout, RxData [1, 2], RxData (ack 1), RxTimeout] = Some (Sent, out)"
  using transfer_completes [of "\<lambda>_. None" demo_peer "Blob [1, 2, 3]" demo_req "buffer_reader [1, 2, 3]" demo_reply
      "[demo_reply]" demo_golib "[RxTimeout]"]
  by (simp add: Blob_def demo_replies buffer_reader_def reader_data_def)
    (simp add: reply_events_def demo_reply_def)

text \<open>C19. A file whose length is a multiple of the block size, the empty file included, never
  transfers: the read after the last full block returns \<open>io.EOF\<close>, which the loop treats as a
  failure, so the run does not report success and the receiver never sees the final short block
  that RFC 1350 asks for.\<close>

theorem exact_multiple_fails:
  assumes "dial addr = None" "handler (Filename req) addr = Inr f" "final f = EOF"
    and "block_size req dvd length (reader_data f)"
  shows "\<exists>oc out. transfer lib dial addr req handler es = Some (oc, out) \<and> oc \<noteq> Sent \<and>
    \<not> snd (receive (block_size req) 1 (tx_pkts out))"
  using transfer_received [where lib = lib and es = es and dial = dial and handler = handler, OF assms(1-3)] assms(4)
  by blast

theorem exact_multiple_fails_witness:
  "\<exists>oc out. transfer demo_golib (\<lambda>_. None) demo_peer demo_req (Blob (replicate 512 7)) [RxData (ack 1), RxData (ack 2)] =
     Some (oc, out) \<and> oc \<noteq> Sent \<and> \<not> snd (receive 512 1 (tx_pkts out))"
  using exact_multiple_fails [of "\<lambda>_. None" demo_peer "Blob (replicate 512 7)" demo_req "buffer_reader (replicate 512 7)"
      demo_golib "[RxData (ack 1), RxData (ack 2)]"]
  by (simp add: Blob_def buffer_reader_def reader_data_def demo_replies)

text \<open>C22. The listening loop never panics and serves its events one by one: after the log line,
  its outputs are those of a stateless function of each datagram, which replies with an error
  packet to a request it cannot parse and starts a transfer for the others. No byte of an
  earlier datagram reaches a later answer, although the loop keeps one buffer.\<close>

theorem serve_tftp_refines:
  "Serve lib localAddr evs =
     Some (SrvLog (Log ''TFTP'' (''Listening on '' @ localAddr)) # fst (respond_all (tftp_respond lib) evs ()))"
  using tserv.loop_respond [of "replicate 512 0" lib evs "()"]
  by (auto simp: Serve_def)

text \<open>C38. The error paths of a transfer: when the handler refuses a file, the client gets exactly
  one packet, the error with the handler's message; when the socket cannot be set up it gets
  none; and neither run reports success.\<close>

theorem transfer_error_paths:
  assumes "dial addr \<noteq> None \<or> (\<exists>e. handler (Filename req) addr = Inl e)"
  shows "\<exists>out. transfer lib dial addr req handler es = Some (Failed, out) \<and>
    tx_pkts out = (case dial addr of Some _ \<Rightarrow> [] | None \<Rightarrow> (case handler (Filename req) addr of
      Inl e \<Rightarrow> [mkError e] | Inr _ \<Rightarrow> []))"
  using assms by (auto simp: transfer_def split: option.split)

theorem transfer_error_paths_witness:
  "\<exists>out. transfer demo_golib (\<lambda>_. None) demo_peer demo_req (\<lambda>_ _. Inl ''no such file'') [] = Some (Failed, out) \<and>
     tx_pkts out = [mkError ''no such file'']"
  using transfer_error_paths [of "\<lambda>_. None" demo_peer "\<lambda>_ _. Inl ''no such file''" demo_req demo_golib "[]"]
  by simp

end
