(* ===== verification/Go_Http.thy ===== *)
theory Go_Http
  imports Go_Text Go_Io
begin

text \<open>
  What the program uses of \<open>net/http\<close>: the response a handler writes to, \<open>http.Error\<close>,
  \<open>io.Copy\<close> to a response, and the choice of a handler by the default \<open>ServeMux\<close>.
\<close>

section \<open>Requests and responses\<close>

text \<open>\<open>url_string\<close> is the text of the whole URL, which is only logged.\<close>

record request =
  Method :: string
  url_path :: string
  url_string :: string
  RemoteAddr :: string
  Host :: string

text \<open>\<open>code\<close> is set by the first write. \<open>broken = Some (n, e)\<close> is a connection that takes
  \<open>n\<close> more bytes and then fails with \<open>e\<close>.\<close>

record writer =
  headers :: "string \<rightharpoonup> string"
  code :: "int option"
  sent :: bytes
  broken :: "(nat \<times> string) option"

definition new_writer :: "(nat \<times> string) option \<Rightarrow> writer" where
  "new_writer brk = \<lparr>headers = Map.empty, code = None, sent = [], broken = brk\<rparr>"

definition set_header :: "string \<Rightarrow> string \<Rightarrow> writer \<Rightarrow> writer" where
  "set_header k v w = w\<lparr>headers := (headers w)(k \<mapsto> v)\<rparr>"

definition write_header :: "int \<Rightarrow> writer \<Rightarrow> writer" where
  "write_header c w = (case code w of None \<Rightarrow> w\<lparr>code := Some c\<rparr> | Some _ \<Rightarrow> w)"

text \<open>\<open>Write\<close> returns the number of bytes it took and an error.\<close>

definition write_body :: "bytes \<Rightarrow> writer \<Rightarrow> (nat \<times> string option) \<times> writer" where
  "write_body d w =
     (let w = write_header 200 w in
      case broken w of
        None \<Rightarrow> ((length d, None), w\<lparr>sent := sent w @ d\<rparr>)
      | Some (n, e) \<Rightarrow>
          (if length d \<le> n
           then ((length d, None), w\<lparr>sent := sent w @ d, broken := Some (n - length d, e)\<rparr>)
           else ((n, Some e), w\<lparr>sent := sent w @ take n d, broken := Some (0, e)\<rparr>)))"

text \<open>What a client sees as the status: a handler that never wrote anything is completed
  with 200.\<close>

definition status :: "writer \<Rightarrow> int" where
  "status w = (case code w of None \<Rightarrow> 200 | Some c \<Rightarrow> c)"

definition http_error :: "string \<Rightarrow> int \<Rightarrow> writer \<Rightarrow> writer" where
  "http_error msg c w =
     snd (write_body (bytes_of (msg @ [CHR 0x0A]))
       (write_header c
         (set_header ''X-Content-Type-Options'' ''nosniff''
           (set_header ''Content-Type'' ''text/plain; charset=utf-8'' w))))"

text \<open>\<open>io.Copy(w, r)\<close>: nothing is written for an empty stream, and an error of the reader
  counts once everything before it has been written.\<close>

definition copy_to :: "reader \<Rightarrow> writer \<Rightarrow> (nat \<times> string option) \<times> writer" where
  "copy_to r w =
     (let rerr = (if final r = EOF then None else Some (io_err_text (final r))) in
      if reader_data r = [] then ((0, rerr), w)
      else case write_body (reader_data r) w of
        ((n, Some e), w) \<Rightarrow> ((n, Some e), w)
      | ((n, None), w) \<Rightarrow> ((n, rerr), w))"

section \<open>The default ServeMux\<close>

datatype 'h route = Run 'h | Redirect string | NotFound

definition path_match :: "string \<Rightarrow> string \<Rightarrow> bool" where
  "path_match pat path =
     (if pat = [] then False
      else if last pat \<noteq> CHR ''/'' then pat = path
      else has_prefix path pat)"

text \<open>Registering a subtree also registers a redirect from its name without the slash.\<close>

definition mux_entries :: "(string \<times> 'h) list \<Rightarrow> (string \<times> 'h route) list" where
  "mux_entries hs =
     map (\<lambda>(p, h). (p, Run h)) hs @
     map (\<lambda>(p, h). (butlast p, Redirect p))
       (filter (\<lambda>(p, h). p \<noteq> [] \<and> last p = CHR ''/'' \<and> butlast p \<notin> set (map fst hs)) hs)"

fun mux_best ::
  "(string \<times> 'h route) list \<Rightarrow> string \<Rightarrow> (string \<times> 'h route) option \<Rightarrow> (string \<times> 'h route) option" where
  "mux_best [] path best = best"
| "mux_best ((p, h) # es) path best =
     (if path_match p path \<and> (case best of None \<Rightarrow> True | Some (q, _) \<Rightarrow> length q < length p)
      then mux_best es path (Some (p, h))
      else mux_best es path best)"

definition mux_handler :: "(string \<times> 'h) list \<Rightarrow> string \<Rightarrow> 'h route" where
  "mux_handler hs path = (case mux_best (mux_entries hs) path None of
      None \<Rightarrow> NotFound
    | Some (_, h) \<Rightarrow> h)"

text \<open>\<open>path.Clean\<close> of a rooted path, on its elements; \<open>cleanPath\<close> puts back a slash at
  the end.\<close>

fun clean_elems :: "string list \<Rightarrow> string list \<Rightarrow> string list" where
  "clean_elems acc [] = rev acc"
| "clean_elems acc (e # es) =
     (if e = [] \<or> e = ''.'' then clean_elems acc es
      else if e = ''..'' then clean_elems (tl acc) es
      else clean_elems (e # acc) es)"

definition clean_path :: "string \<Rightarrow> string" where
  "clean_path p =
     (if p = [] then ''/''
      else let p = (if hd p \<noteq> CHR ''/'' then CHR ''/'' # p else p);
               np = CHR ''/'' # join_with ''/'' (clean_elems [] (split_on CHR ''/'' p))
           in if last p = CHR ''/'' \<and> np \<noteq> ''/'' then np @ ''/'' else np)"

definition mux_route :: "(string \<times> 'h) list \<Rightarrow> request \<Rightarrow> 'h route" where
  "mux_route hs r =
     (if Method r \<noteq> ''CONNECT'' \<and> clean_path (url_path r) \<noteq> url_path r
      then Redirect (clean_path (url_path r))
      else mux_handler hs (url_path r))"

section \<open>Lemmas\<close>

lemma new_writer_simps [simp]:
  "headers (new_writer b) = Map.empty" "code (new_writer b) = None" "sent (new_writer b) = []"
  "broken (new_writer b) = b"
  by (simp_all add: new_writer_def)

lemma set_header_simps [simp]:
  "headers (set_header k v w) = (headers w)(k \<mapsto> v)" "code (set_header k v w) = code w"
  "sent (set_header k v w) = sent w" "broken (set_header k v w) = broken w"
  by (simp_all add: set_header_def)

lemma write_header_simps [simp]:
  "code (write_header c w) = Some (case code w of None \<Rightarrow> c | Some c' \<Rightarrow> c')"
  "headers (write_header c w) = headers w" "sent (write_header c w) = sent w"
  "broken (write_header c w) = broken w"
  by (simp_all add: write_header_def split: option.split)

lemma write_body_code [simp]:
  "code (snd (write_body d w)) = Some (case code w of None \<Rightarrow> 200 | Some c \<Rightarrow> c)"
  "headers (snd (write_body d w)) = headers w"
  by (auto simp: write_body_def Let_def split: option.split)

lemma write_body_ok [simp]:
  "broken w = None \<Longrightarrow> fst (write_body d w) = (length d, None)"
  "broken w = None \<Longrightarrow> sent (snd (write_body d w)) = sent w @ d"
  by (simp_all add: write_body_def Let_def)

text \<open>What a client gets of \<open>d\<close>: all of it, or as much as the connection takes.\<close>

definition taken :: "(nat \<times> string) option \<Rightarrow> bytes \<Rightarrow> bytes" where
  "taken brk d = (case brk of None \<Rightarrow> d | Some (n, e) \<Rightarrow> take n d)"

lemma taken_simps [simp]: "taken None d = d" "taken (Some (n, e)) d = take n d" "taken brk [] = []"
  by (simp_all add: taken_def split: option.split)

lemma write_body_sent: "sent (snd (write_body d w)) = sent w @ taken (broken w) d"
  by (auto simp: write_body_def Let_def split: option.split)

lemma http_error_simps [simp]:
  "code w = None \<Longrightarrow> status (http_error msg c w) = c"
  "headers (http_error msg c w) =
     (headers w)(''Content-Type'' \<mapsto> ''text/plain; charset=utf-8'', ''X-Content-Type-Options'' \<mapsto> ''nosniff'')"
  "broken w = None \<Longrightarrow> sent (http_error msg c w) = sent w @ bytes_of msg @ [10]"
  by (simp_all add: http_error_def status_def bytes_of_def)

lemma copy_to_ok:
  assumes "broken w = None" "final r = EOF"
  shows "fst (copy_to r w) = (length (reader_data r), None)"
    and "sent (snd (copy_to r w)) = sent w @ reader_data r"
  using assms by (auto simp: copy_to_def Let_def split: prod.split option.split dest: write_body_ok)
    (metis fst_conv prod.inject snd_conv write_body_ok option.distinct)+

lemma copy_to_status: "code w = None \<Longrightarrow> status (snd (copy_to r w)) = 200"
  using write_body_code(1) [of "reader_data r" w]
  by (cases "write_body (reader_data r) w")
    (auto simp: copy_to_def status_def Let_def split: prod.split option.split)

lemma copy_to_sent:
  "sent (snd (copy_to r w)) = sent w @ taken (broken w) (reader_data r)"
  "headers (snd (copy_to r w)) = headers w"
  using write_body_sent [of "reader_data r" w] write_body_code(2) [of "reader_data r" w]
  by (cases "write_body (reader_data r) w"; auto simp: copy_to_def Let_def split: prod.split option.split)+

text \<open>A path of two plain elements is clean.\<close>

lemma clean_path_two:
  assumes "d \<notin> {[], ''.'', ''..''}" "e \<notin> {[], ''.'', ''..''}" "CHR ''/'' \<notin> set d" "CHR ''/'' \<notin> set e"
  shows "clean_path (CHR ''/'' # d @ CHR ''/'' # e) = CHR ''/'' # d @ CHR ''/'' # e"
proof -
  have "split_on CHR ''/'' (CHR ''/'' # d @ CHR ''/'' # e) = [[], d, e]"
    using assms by (simp add: split_on_append)
  moreover have "last e \<noteq> CHR ''/''" using assms by (metis insertI1 last_in_set)
  ultimately show ?thesis using assms by (simp add: clean_path_def)
qed

end
