(* ===== verification/Url_Base64.thy ===== *)
theory Url_Base64
  imports Go_Prelude
begin

text \<open>
  \<open>base64.URLEncoding\<close> of Go's standard library, which \<open>src/http/http.go\<close> uses to put
  file ids into URLs: the alphabet with minus and underscore, padding required on decoding,
  line breaks skipped, unused bits of the last digit ignored.
\<close>

definition b64_char :: "nat \<Rightarrow> char" where
  "b64_char v =
     (if v < 26 then char_of (65 + v)
      else if v < 52 then char_of (71 + v)
      else if v < 62 then char_of (v - 4)
      else if v = 62 then CHR ''-'' else CHR ''_'')"

definition b64_val :: "char \<Rightarrow> nat option" where
  "b64_val c = (let n = (of_char c :: nat) in
     if 65 \<le> n \<and> n \<le> 90 then Some (n - 65)
     else if 97 \<le> n \<and> n \<le> 122 then Some (n - 71)
     else if 48 \<le> n \<and> n \<le> 57 then Some (n + 4)
     else if c = CHR ''-'' then Some 62
     else if c = CHR ''_'' then Some 63
     else None)"

fun b64_encode :: "bytes \<Rightarrow> string" where
  "b64_encode [] = []"
| "b64_encode [a] =
     [b64_char (unat a div 4), b64_char (unat a mod 4 * 16), CHR ''='', CHR ''='']"
| "b64_encode [a, b] =
     [b64_char (unat a div 4), b64_char (unat a mod 4 * 16 + unat b div 16),
      b64_char (unat b mod 16 * 4), CHR ''='']"
| "b64_encode (a # b # c # r) =
     [b64_char (unat a div 4), b64_char (unat a mod 4 * 16 + unat b div 16),
      b64_char (unat b mod 16 * 4 + unat c div 64), b64_char (unat c mod 64)] @ b64_encode r"

definition b64_byte1 :: "nat \<Rightarrow> nat \<Rightarrow> byte" where
  "b64_byte1 s0 s1 = of_nat (s0 * 4 + s1 div 16)"

definition b64_byte2 :: "nat \<Rightarrow> nat \<Rightarrow> byte" where
  "b64_byte2 s1 s2 = of_nat (s1 mod 16 * 16 + s2 div 4)"

definition b64_byte3 :: "nat \<Rightarrow> nat \<Rightarrow> byte" where
  "b64_byte3 s2 s3 = of_nat (s2 mod 4 * 64 + s3)"

text \<open>Padding may only end the input; one pad sign stands for a quantum of two bytes, two
  for a quantum of one byte.\<close>

fun b64_quanta :: "string \<Rightarrow> bytes option" where
  "b64_quanta [] = Some []"
| "b64_quanta (c0 # c1 # c2 # c3 # r) = do {
     s0 \<leftarrow> b64_val c0;
     s1 \<leftarrow> b64_val c1;
     if c2 = CHR ''='' then
       (if c3 = CHR ''='' \<and> r = [] then Some [b64_byte1 s0 s1] else None)
     else do {
       s2 \<leftarrow> b64_val c2;
       if c3 = CHR ''='' then
         (if r = [] then Some [b64_byte1 s0 s1, b64_byte2 s1 s2] else None)
       else do {
         s3 \<leftarrow> b64_val c3;
         bs \<leftarrow> b64_quanta r;
         Some (b64_byte1 s0 s1 # b64_byte2 s1 s2 # b64_byte3 s2 s3 # bs)
       }
     }
   }"
| "b64_quanta _ = None"

definition is_newline :: "char \<Rightarrow> bool" where
  "is_newline c \<longleftrightarrow> c = CHR 0x0A \<or> c = CHR 0x0D"

definition b64_decode :: "string \<Rightarrow> bytes option" where
  "b64_decode s = b64_quanta (filter (\<lambda>c. \<not> is_newline c) s)"

lemma b64_char_code:
  "v < 64 \<Longrightarrow> (of_char (b64_char v) :: nat) =
     (if v < 26 then 65 + v else if v < 52 then 71 + v else if v < 62 then v - 4
      else if v = 62 then 45 else 95)"
  by (simp add: b64_char_def)

lemma b64_val_char [simp]: "v < 64 \<Longrightarrow> b64_val (b64_char v) = Some v"
  by (auto simp: b64_val_def b64_char_code Let_def b64_char_def)

text \<open>The characters of an encoding: none of the separators that a URL, a configuration
  line or a list of initrds uses.\<close>

lemma b64_char_neq:
  assumes "v < 64" "(of_char c :: nat) \<le> 44 \<or> of_char c = (47 :: nat) \<or> of_char c = (61 :: nat)"
  shows "b64_char v \<noteq> c"
proof
  assume "b64_char v = c"
  with assms b64_char_code [OF assms(1)] show False by (auto split: if_splits)
qed

lemma b64_sextets [simp]:
  fixes a b c :: byte
  shows "unat a div 4 < 64" "unat a mod 4 * 16 < 64" "unat a mod 4 * 16 + unat b div 16 < 64"
    "unat b mod 16 * 4 < 64" "unat b mod 16 * 4 + unat c div 64 < 64" "unat c mod 64 < 64"
proof -
  have "unat a div 4 < 64" "unat b div 16 < 16" "unat c div 64 < 4"
    using unat_byte_less [of a] unat_byte_less [of b] unat_byte_less [of c]
    by (auto intro!: less_mult_imp_div_less simp del: unat_byte_less)
  moreover have "unat a mod 4 < 4" "unat b mod 16 < 16" by simp_all
  ultimately show "unat a div 4 < 64" "unat a mod 4 * 16 < 64" "unat a mod 4 * 16 + unat b div 16 < 64"
    "unat b mod 16 * 4 < 64" "unat b mod 16 * 4 + unat c div 64 < 64" "unat c mod 64 < 64"
    by linarith+
qed

lemma b64_encode_chars:
  "x \<in> set (b64_encode b) \<Longrightarrow> x = CHR ''='' \<or> (\<exists>v<64. x = b64_char v)"
proof (induction b rule: b64_encode.induct)
  case (4 a b c r)
  then show ?case by (auto intro: b64_sextets)
next
  case (2 a)
  then show ?case by (auto intro: b64_sextets)
next
  case (3 a b)
  then show ?case by (auto intro: b64_sextets)
qed simp

lemma b64_encode_plain:
  assumes "(of_char c :: nat) \<le> 44 \<or> of_char c = (47 :: nat)"
  shows "c \<notin> set (b64_encode b)"
proof
  assume "c \<in> set (b64_encode b)"
  with assms b64_encode_chars [of c b] obtain v where "v < 64" "c = b64_char v" by auto
  with b64_char_neq [of v c] assms show False by blast
qed

lemma b64_encode_ne [simp]: "b64_encode b = [] \<longleftrightarrow> b = []"
  by (induction b rule: b64_encode.induct) auto

lemma b64_no_newline: "filter (\<lambda>c. \<not> is_newline c) (b64_encode b) = b64_encode b"
proof (rule filter_True, rule ballI)
  fix x
  assume "x \<in> set (b64_encode b)"
  with b64_encode_plain [of x b] show "\<not> is_newline x" by (auto simp: is_newline_def)
qed

lemma digit_split: "k < n \<Longrightarrow> (m * n + k) div n = m" "k < n \<Longrightarrow> (m * n + k) mod n = (k :: nat)"
  by simp_all

lemma b64_bytes:
  fixes a b c :: byte
  shows "b64_byte1 (unat a div 4) (unat a mod 4 * 16 + unat b div 16) = a"
    "b64_byte1 (unat a div 4) (unat a mod 4 * 16) = a"
    "b64_byte2 (unat a mod 4 * 16 + unat b div 16) (unat b mod 16 * 4 + unat c div 64) = b"
    "b64_byte2 (unat a mod 4 * 16 + unat b div 16) (unat b mod 16 * 4) = b"
    "b64_byte3 (unat b mod 16 * 4 + unat c div 64) (unat c mod 64) = c"
proof -
  have lt: "unat b div 16 < 16" "unat c div 64 < 4"
    using unat_byte_less [of b] unat_byte_less [of c]
    by (auto intro!: less_mult_imp_div_less simp del: unat_byte_less)
  show "b64_byte1 (unat a div 4) (unat a mod 4 * 16 + unat b div 16) = a"
    "b64_byte1 (unat a div 4) (unat a mod 4 * 16) = a"
    unfolding b64_byte1_def digit_split(1) [OF lt(1)] nonzero_mult_div_cancel_right [of 16, simplified]
    by (simp_all only: div_mult_mod_eq) simp_all
  show "b64_byte2 (unat a mod 4 * 16 + unat b div 16) (unat b mod 16 * 4 + unat c div 64) = b"
    "b64_byte2 (unat a mod 4 * 16 + unat b div 16) (unat b mod 16 * 4) = b"
    unfolding b64_byte2_def digit_split(1) [OF lt(2)] digit_split(2) [OF lt(1)]
      nonzero_mult_div_cancel_right [of 4, simplified]
    by (simp_all only: div_mult_mod_eq) simp_all
  show "b64_byte3 (unat b mod 16 * 4 + unat c div 64) (unat c mod 64) = c"
    unfolding b64_byte3_def digit_split(2) [OF lt(2)]
    by (simp only: div_mult_mod_eq) simp
qed

lemma b64_char_not_pad [simp]: "v < 64 \<Longrightarrow> b64_char v \<noteq> CHR ''=''"
  by (rule b64_char_neq) simp_all

lemma b64_quanta_encode: "b64_quanta (b64_encode b) = Some b"
  by (induction b rule: b64_encode.induct) (simp_all add: b64_bytes)

interpretation b64: codec b64_encode b64_decode "\<lambda>_. True"
  by unfold_locales (simp add: b64_decode_def b64_no_newline b64_quanta_encode)

end
