(* ===== verification/Http_Server.thy ===== *)
theory Http_Server
  imports Boot_Api Go_Http Url_Base64 Logging
begin

text \<open>
  \<open>src/http/http.go\<close>: the HTTP server that pxelinux fetches its second stage, its
  configuration and the kernel and initrds from. A handler takes the response it writes to,
  the request and the outside world, and returns the response, the log entries and the world,
  or \<open>None\<close> where it panics.
\<close>

section \<open>The texts\<close>

abbreviation nl :: string where
  "nl \<equiv> [CHR 0x0A]"

definition bootFromDisk :: string where
  "bootFromDisk = nl @ ''DEFAULT local'' @ nl @ ''LABEL local'' @ nl @ ''LOCALBOOT 0'' @ nl"

definition limerick :: string where
  "limerick = concat (map (\<lambda>l. nl @ [CHR 0x09] @ ''        '' @ l)
     [''There once was a protocol called PXE,'',
      ''Whose specification was overly tricksy.'',
      ''A committee refined it,'',
      ''Into a big Turing tarpit,'',
      ''And now you're using it to boot your PC.'']) @ nl"

section \<open>The handlers\<close>

record httpServer =
  srv_booter :: booter
  ldlinux :: bytes
  srv_key :: bytes

definition Ldlinux ::
  "httpServer \<Rightarrow> writer \<Rightarrow> request \<Rightarrow> world \<Rightarrow> writer \<times> LogEntry list \<times> world" where
  "Ldlinux s w r wd =
     (snd (write_body (ldlinux s) (set_header ''Content-Type'' ''application/octet-stream'' w)),
      [Debug ''HTTP'' (''Starting send of ldlinux.c32 to '' @ RemoteAddr r @ '' ('' @
         itoa (int (length (ldlinux s))) @ '' bytes)''),
       Log ''HTTP'' (''Sent ldlinux.c32 to '' @ RemoteAddr r @ '' ('' @
         itoa (int (length (ldlinux s))) @ '' bytes)'')],
      wd)"

definition encode_id :: "string \<Rightarrow> string" where
  "encode_id f = ''f/'' @ b64_encode (bytes_of f)"

definition encode_spec :: "BootSpec \<Rightarrow> BootSpec" where
  "encode_spec sp = sp\<lparr>Kernel := encode_id (Kernel sp), Initrd := map encode_id (Initrd sp)\<rparr>"

definition pxelinux_cfg :: "BootSpec \<Rightarrow> string" where
  "pxelinux_cfg sp =
     nl @ ''SAY '' @ replace_char CHR 0x0A (nl @ ''SAY '') limerick @ nl @
     ''DEFAULT linux'' @ nl @
     ''LABEL linux'' @ nl @
     ''LINUX '' @ Kernel sp @ nl @
     ''APPEND initrd='' @ join_with '','' (Initrd sp) @ '' '' @ Cmdline sp @ nl"

definition PxelinuxConfig ::
  "golib \<Rightarrow> httpServer \<Rightarrow> writer \<Rightarrow> request \<Rightarrow> world \<Rightarrow> (writer \<times> LogEntry list \<times> world) option" where
  "PxelinuxConfig lib s w r wd =
     (let w = set_header ''Content-Type'' ''text/plain'' w;
          macStr = filepath_base (url_path r);
          errStr = RemoteAddr r @ '' requested a pxelinux config from URL '' @ quote lib (url_string r) @
            '', which does not include a MAC address'' in
      if \<not> has_prefix macStr ''01-'' then
        Some (http_error ''Missing MAC address in request'' 400 w, [Debug ''HTTP'' (sprintf0 lib errStr)], wd)
      else do {
        rest \<leftarrow> go_from macStr 3;
        case parse_mac rest of
          None \<Rightarrow>
            Some (http_error ''Malformed MAC address in request'' 400 w, [Debug ''HTTP'' (sprintf0 lib errStr)], wd)
        | Some mac \<Rightarrow> Some (case GetBootSpec (srv_booter s) mac wd of
            (Inl e, wd) \<Rightarrow>
              (snd (write_body (bytes_of bootFromDisk) w),
               [Debug ''HTTP'' (''Telling pxelinux on '' @ hw_string mac @ '' ('' @ RemoteAddr r @
                  '') to boot from disk because of API server verdict: '' @ e)],
               wd)
          | (Inr sp, wd) \<Rightarrow>
              (snd (write_body (bytes_of (pxelinux_cfg (encode_spec sp))) w),
               [Log ''HTTP'' (''Sent pxelinux config to '' @ hw_string mac @ '' ('' @ RemoteAddr r @ '')'')],
               wd))
      })"

definition File ::
  "golib \<Rightarrow> httpServer \<Rightarrow> writer \<Rightarrow> request \<Rightarrow> world \<Rightarrow> (writer \<times> LogEntry list \<times> world) option" where
  "File lib s w r wd =
     (let encodedID = filepath_base (url_path r) in
      case b64_decode encodedID of
        None \<Rightarrow>
          Some (http_error ''Malformed file ID'' 400 w,
           [Log ''http'' (''Bad base64 encoding for URL '' @ quote lib (url_string r) @ '' from '' @
              RemoteAddr r @ '': '' @ corrupt_input lib encodedID)],
           wd)
      | Some fid \<Rightarrow> do {
          (res, wd) \<leftarrow> GetFile (srv_booter s) (string_of fid) wd;
          Some (case res of
            Inl e \<Rightarrow>
              (http_error ''Couldn't get byte stream'' 500 w,
               [Log ''HTTP'' (''Couldn't get byte stream for '' @ quote lib (url_string r) @ '' from '' @
                  RemoteAddr r @ '': '' @ e)],
               wd)
          | Inr (f, pretty) \<Rightarrow>
              (case copy_to f (set_header ''Content-Type'' ''application/octet-stream'' w) of
                 ((written, Some e), w) \<Rightarrow>
                   (w, [Log ''HTTP'' (''Error serving '' @ pretty @ '' to '' @ RemoteAddr r @ '': '' @ e)], wd)
               | ((written, None), w) \<Rightarrow>
                   (w, [Log ''HTTP'' (''Sent '' @ pretty @ '' to '' @ RemoteAddr r @ '' ('' @
                          itoa (int written) @ '' bytes)'')], wd)))
        })"

section \<open>ServeHTTP\<close>

datatype http_handler = HLdlinux | HPxelinuxConfig | HFile

definition handlers :: "(string \<times> http_handler) list" where
  "handlers = [(''/ldlinux.c32'', HLdlinux), (''/pxelinux.cfg/'', HPxelinuxConfig), (''/f/'', HFile)]"

fun run_handler ::
  "golib \<Rightarrow> httpServer \<Rightarrow> http_handler \<Rightarrow> writer \<Rightarrow> request \<Rightarrow> world \<Rightarrow> (writer \<times> LogEntry list \<times> world) option" where
  "run_handler lib s HLdlinux w r wd = Some (Ldlinux s w r wd)"
| "run_handler lib s HPxelinuxConfig w r wd = PxelinuxConfig lib s w r wd"
| "run_handler lib s HFile w r wd = File lib s w r wd"

text \<open>The answer to a request: what a handler wrote, or one of the mux's own two answers.\<close>

datatype answer = Response writer | MovedTo string | PageNotFound

definition http_request ::
  "golib \<Rightarrow> httpServer \<Rightarrow> request \<times> (nat \<times> string) option \<Rightarrow> world \<Rightarrow> (answer \<times> LogEntry list \<times> world) option" where
  "http_request lib s rb wd = (case mux_route handlers (fst rb) of
      Run h \<Rightarrow> do {
        (w, ls, wd) \<leftarrow> run_handler lib s h (new_writer (snd rb)) (fst rb) wd;
        Some (Response w, ls, wd)
      }
    | Redirect p \<Rightarrow> Some (MovedTo p, [], wd)
    | NotFound \<Rightarrow> Some (PageNotFound, [], wd))"

fun http_serve ::
  "golib \<Rightarrow> httpServer \<Rightarrow> (request \<times> (nat \<times> string) option) list \<Rightarrow> world \<Rightarrow>
     (answer list \<times> LogEntry list \<times> world) option" where
  "http_serve lib s [] wd = Some ([], [], wd)"
| "http_serve lib s (rb # rbs) wd = do {
     (a, ls, wd) \<leftarrow> http_request lib s rb wd;
     (as, ls', wd) \<leftarrow> http_serve lib s rbs wd;
     Some (a # as, ls @ ls', wd)
   }"

text \<open>The requests are served one after the other; each comes with the fate of its
  connection.\<close>

definition ServeHTTP ::
  "golib \<Rightarrow> int \<Rightarrow> booter \<Rightarrow> bytes \<Rightarrow> string option \<Rightarrow> (request \<times> (nat \<times> string) option) list \<Rightarrow> world \<Rightarrow>
     ((string + answer list) \<times> LogEntry list \<times> world) option" where
  "ServeHTTP lib port bt ldl listenErr reqs wd = (case rand_read 32 wd of
      (Inl e, wd) \<Rightarrow> Some (Inl (''cannot initialize ephemeral signing key: '' @ io_err_text e), [], wd)
    | (Inr k, wd) \<Rightarrow>
        (let s = \<lparr>srv_booter = bt, ldlinux = ldl, srv_key = k\<rparr>;
             l = Log ''HTTP'' (''Listening on port '' @ itoa port) in
         case listenErr of
           Some e \<Rightarrow> Some (Inl e, [l], wd)
         | None \<Rightarrow> do {
             (as, ls, wd) \<leftarrow> http_serve lib s reqs wd;
             Some (Inr as, l # ls, wd)
           }))"

section \<open>Requests the program's own texts lead to\<close>

text \<open>The request a client makes for a path relative to the server's root.\<close>

definition get :: "string \<Rightarrow> string \<Rightarrow> request" where
  "get client p = \<lparr>Method = ''GET'', url_path = CHR ''/'' # p, url_string = CHR ''/'' # p,
     RemoteAddr = client, Host = []\<rparr>"

definition config_path :: "mac \<Rightarrow> string" where
  "config_path m = ''pxelinux.cfg/01-'' @ hw_format CHR ''-'' m"

lemma get_simps [simp]:
  "Method (get c p) = ''GET''" "url_path (get c p) = CHR ''/'' # p" "RemoteAddr (get c p) = c"
  by (simp_all add: get_def)

lemma config_base:
  "filepath_base (CHR ''/'' # config_path m) = ''01-'' @ hw_format CHR ''-'' m"
  using filepath_base_last [of "''01-'' @ hw_format CHR ''-'' m" "''/pxelinux.cfg''"]
    hw_format_plain [of "CHR ''/''" "CHR ''-''" m]
  by (simp add: config_path_def)

lemma route_config: "mux_route handlers (get c (config_path m)) = Run HPxelinuxConfig"
proof -
  have "clean_path (url_path (get c (config_path m))) = url_path (get c (config_path m))"
    using clean_path_two [of "''pxelinux.cfg''" "''01-'' @ hw_format CHR ''-'' m"]
      hw_format_plain [of "CHR ''/''" "CHR ''-''" m]
    by (simp add: config_path_def)
  then show ?thesis
    by (simp add: mux_route_def mux_handler_def handlers_def mux_entries_def path_match_def
        has_prefix_def config_path_def)
qed

lemma file_base:
  "f \<noteq> [] \<Longrightarrow> filepath_base (CHR ''/'' # encode_id f) = b64_encode (bytes_of f)"
  using filepath_base_last [of "b64_encode (bytes_of f)" "''/f''"]
    b64_encode_plain [of "CHR ''/''" "bytes_of f"]
  by (simp add: encode_id_def bytes_of_def)

lemma b64_dot: "CHR ''.'' \<notin> set (b64_encode b)"
proof
  assume "CHR ''.'' \<in> set (b64_encode b)"
  from b64_encode_chars [OF this] obtain v where "v < 64" "CHR ''.'' = b64_char v" by auto
  with b64_char_code [of v] show False
    by (auto split: if_splits dest!: arg_cong [where f = "of_char :: char \<Rightarrow> nat"])
qed

lemma route_file: "f \<noteq> [] \<Longrightarrow> mux_route handlers (get c (encode_id f)) = Run HFile"
proof -
  assume "f \<noteq> []"
  then have "b64_encode (bytes_of f) \<notin> {[], ''.'', ''..''}"
    using b64_dot [of "bytes_of f"] by (auto simp: bytes_of_def)
  then have "clean_path (url_path (get c (encode_id f))) = url_path (get c (encode_id f))"
    using clean_path_two [of "''f''" "b64_encode (bytes_of f)"] b64_encode_plain [of "CHR ''/''" "bytes_of f"]
    by (simp add: encode_id_def)
  then show ?thesis
    by (simp add: mux_route_def mux_handler_def handlers_def mux_entries_def path_match_def
        has_prefix_def encode_id_def)
qed

section \<open>Reading a configuration\<close>

text \<open>What a pxelinux client takes from the text: the rest of the \<open>LINUX\<close> line, the list
  behind \<open>initrd=\<close> up to the first blank of the \<open>APPEND\<close> line, and the rest of that line.\<close>

fun find_line :: "string \<Rightarrow> string list \<Rightarrow> string option" where
  "find_line pre [] = None"
| "find_line pre (l # ls) = (if has_prefix l pre then Some (drop (length pre) l) else find_line pre ls)"

definition read_config :: "string \<Rightarrow> (string \<times> string list \<times> string) option" where
  "read_config cfg = do {
     k \<leftarrow> find_line ''LINUX '' (split_on CHR 0x0A cfg);
     a \<leftarrow> find_line ''APPEND initrd='' (split_on CHR 0x0A cfg);
     Some (k, split_on CHR '','' (takeWhile (\<lambda>c. c \<noteq> CHR '' '') a), tl (dropWhile (\<lambda>c. c \<noteq> CHR '' '') a))
   }"

definition cfg_header :: "string list" where
  "cfg_header = [[], ''SAY ''] @
     map (\<lambda>l. ''SAY '' @ [CHR 0x09] @ ''        '' @ l)
       [''There once was a protocol called PXE,'',
        ''Whose specification was overly tricksy.'',
        ''A committee refined it,'',
        ''Into a big Turing tarpit,'',
        ''And now you're using it to boot your PC.''] @
     [''SAY '', ''DEFAULT linux'', ''LABEL linux'']"

lemma split_cfg:
  "split_on CHR 0x0A (pxelinux_cfg sp) =
     cfg_header @ split_on CHR 0x0A (''LINUX '' @ Kernel sp @ nl @
       ''APPEND initrd='' @ join_with '','' (Initrd sp) @ '' '' @ Cmdline sp @ nl)"
  by (simp add: pxelinux_cfg_def cfg_header_def limerick_def replace_char_def)

lemma find_line_header:
  "find_line ''LINUX '' (cfg_header @ ls) = find_line ''LINUX '' ls"
  "find_line ''APPEND initrd='' (cfg_header @ ls) = find_line ''APPEND initrd='' ls"
  by (simp_all add: cfg_header_def has_prefix_def)

lemma encode_id_plain:
  "(of_char c :: nat) \<le> 44 \<Longrightarrow> c \<notin> set (encode_id f)"
  using b64_encode_plain [of c "bytes_of f"] by (auto simp: encode_id_def)

lemma while_sep:
  "c \<notin> set s \<Longrightarrow> takeWhile (\<lambda>x. x \<noteq> c) (s @ c # t) = s"
  "c \<notin> set s \<Longrightarrow> dropWhile (\<lambda>x. x \<noteq> c) (s @ c # t) = c # t"
  by (induction s) auto

text \<open>What is read back from any configuration: an empty list of initrds is written as one empty
  name, and a line break ends the command line.\<close>

definition read_back :: "BootSpec \<Rightarrow> string \<times> string list \<times> string" where
  "read_back sp = (encode_id (Kernel sp), if Initrd sp = [] then [[]] else map encode_id (Initrd sp),
     takeWhile (\<lambda>c. c \<noteq> CHR 0x0A) (Cmdline sp))"

lemma read_back_plain:
  "Initrd sp \<noteq> [] \<Longrightarrow> CHR 0x0A \<notin> set (Cmdline sp) \<Longrightarrow>
     read_back sp = (encode_id (Kernel sp), map encode_id (Initrd sp), Cmdline sp)"
  by (auto simp: read_back_def takeWhile_eq_all_conv)

lemma split_first_line:
  "\<exists>ls. split_on CHR 0x0A (s @ nl) = takeWhile (\<lambda>c. c \<noteq> CHR 0x0A) s # ls"
proof (cases "CHR 0x0A \<in> set s")
  case True
  then obtain a b where "s = a @ CHR 0x0A # b" "CHR 0x0A \<notin> set a" by (meson split_list_first)
  then show ?thesis using while_sep(1) [of "CHR 0x0A" a b] by (simp add: split_on_append)
next
  case False
  then have "takeWhile (\<lambda>c. c \<noteq> CHR 0x0A) s = s" by (auto simp: takeWhile_eq_all_conv)
  moreover have "split_on CHR 0x0A (s @ nl) = s # [[]]" using False split_on_append [of "CHR 0x0A" s "[]"] by simp
  ultimately show ?thesis by metis
qed

lemma read_config_cfg: "read_config (pxelinux_cfg (encode_spec sp)) = Some (read_back sp)"
proof -
  let ?is = "join_with '','' (map encode_id (Initrd sp))"
  let ?c = "takeWhile (\<lambda>c. c \<noteq> CHR 0x0A) (Cmdline sp)"
  have plain: "CHR 0x0A \<notin> set ?is" "CHR '' '' \<notin> set ?is"
    using join_with_set [of _ "'',''" "map encode_id (Initrd sp)"] encode_id_plain by fastforce+
  have "takeWhile (\<lambda>c. c \<noteq> CHR 0x0A) (''APPEND initrd='' @ ?is @ '' '' @ Cmdline sp) = ''APPEND initrd='' @ ?is @ '' '' @ ?c"
    using plain(1) by (subst takeWhile_append2) (auto simp: takeWhile_append)
  then obtain ls where "split_on CHR 0x0A (''LINUX '' @ encode_id (Kernel sp) @ nl @
      ''APPEND initrd='' @ ?is @ '' '' @ Cmdline sp @ nl) =
    (''LINUX '' @ encode_id (Kernel sp)) # (''APPEND initrd='' @ ?is @ '' '' @ ?c) # ls"
    using split_on_append [of "CHR 0x0A" "''LINUX '' @ encode_id (Kernel sp)"]
      split_first_line [of "''APPEND initrd='' @ ?is @ '' '' @ Cmdline sp"]
      encode_id_plain [of "CHR 0x0A" "Kernel sp"]
    by auto
  moreover have "takeWhile (\<lambda>c. c \<noteq> CHR '' '') (?is @ CHR '' '' # x) = ?is"
    "dropWhile (\<lambda>c. c \<noteq> CHR '' '') (?is @ CHR '' '' # x) = CHR '' '' # x" for x
    using plain(2) by (rule while_sep)+
  moreover have "split_on CHR '','' ?is = (if Initrd sp = [] then [[]] else map encode_id (Initrd sp))"
    using encode_id_plain by (auto intro!: split_join)
  ultimately show ?thesis
    by (simp add: read_config_def read_back_def encode_spec_def split_cfg find_line_header has_prefix_def)
qed

section \<open>Files through the server\<close>

lemma File_id:
  "f \<noteq> [] \<Longrightarrow> File lib s w (get c (encode_id f)) wd = do {
     (res, wd) \<leftarrow> GetFile (srv_booter s) f wd;
     Some (case res of
        Inl e \<Rightarrow>
          (http_error ''Couldn't get byte stream'' 500 w,
           [Log ''HTTP'' (''Couldn't get byte stream for '' @ quote lib (url_string (get c (encode_id f))) @
              '' from '' @ c @ '': '' @ e)],
           wd)
      | Inr (d, pretty) \<Rightarrow>
          (case copy_to d (set_header ''Content-Type'' ''application/octet-stream'' w) of
             ((written, Some e), w) \<Rightarrow>
               (w, [Log ''HTTP'' (''Error serving '' @ pretty @ '' to '' @ c @ '': '' @ e)], wd)
           | ((written, None), w) \<Rightarrow>
               (w, [Log ''HTTP'' (''Sent '' @ pretty @ '' to '' @ c @ '' ('' @
                      itoa (int written) @ '' bytes)'')], wd)))
   }"
  unfolding File_def Let_def get_simps
  by (simp only: file_base b64.dec_enc [OF TrueI] option.case string_of_bytes_of not_False_eq_True)

context booter_contract
begin

text \<open>An id with a source, requested the way the configuration names it, is answered with
  the bytes of that source; the ids of a specification have one.\<close>

lemma source_served:
  assumes "source f = Some x" "f \<noteq> []" "srv_booter srv = bt" "fetch x v = (Inr d, v')" "final d = EOF"
  shows "\<exists>wr ls. http_request lib srv (get c (encode_id f), None) v = Some (Response wr, ls, v') \<and>
    status wr = 200 \<and> sent wr = reader_data d"
proof -
  let ?w = "set_header ''Content-Type'' ''application/octet-stream'' (new_writer None)"
  obtain n where "GetFile bt f v = Some (Inr (d, n), v')" using file_known [OF assms(1), of v] assms(4) by auto
  moreover obtain wr where "copy_to d ?w = ((length (reader_data d), None), wr)"
    and "sent wr = reader_data d"
    using copy_to_ok [of ?w d] assms(5) by (cases "copy_to d ?w") auto
  moreover from this have "status wr = 200" using copy_to_status [of ?w d] by simp
  ultimately show ?thesis
    using assms(2,3) by (simp add: http_request_def route_file File_id)
qed

lemma issued_served:
  assumes "pre" "GetBootSpec bt m w = (Inr s, w')" "f \<in> set (Kernel s # Initrd s)"
    and "srv_booter srv = bt"
  obtains x where "source f = Some x"
    "\<And>v d v'. fetch x v = (Inr d, v') \<Longrightarrow> final d = EOF \<Longrightarrow>
       \<exists>wr ls. http_request lib srv (get c (encode_id f), None) v = Some (Response wr, ls, v') \<and>
         status wr = 200 \<and> sent wr = reader_data d"
proof -
  obtain x where "source f = Some x" "f \<noteq> []" using issued [OF assms(1-3)] by blast
  with source_served [OF _ _ assms(4)] that show ?thesis by blast
qed

end

definition config_mac :: "request \<Rightarrow> mac option" where
  "config_mac r = (let b = filepath_base (url_path r) in
     if has_prefix b ''01-'' then parse_mac (drop 3 b) else None)"

lemma config_mac_path: "valid_mac m \<Longrightarrow> config_mac (get c (config_path m)) = Some m"
  by (simp add: config_mac_def config_base parse_mac_hw_format has_prefix_def)

lemma PxelinuxConfig_mac:
  "config_mac r = Some m \<Longrightarrow> PxelinuxConfig lib s w r wd =
     Some (case GetBootSpec (srv_booter s) m wd of
        (Inl e, wd) \<Rightarrow>
          (snd (write_body (bytes_of bootFromDisk) (set_header ''Content-Type'' ''text/plain'' w)),
           [Debug ''HTTP'' (''Telling pxelinux on '' @ hw_string m @ '' ('' @ RemoteAddr r @
              '') to boot from disk because of API server verdict: '' @ e)],
           wd)
      | (Inr sp, wd) \<Rightarrow>
          (snd (write_body (bytes_of (pxelinux_cfg (encode_spec sp))) (set_header ''Content-Type'' ''text/plain'' w)),
           [Log ''HTTP'' (''Sent pxelinux config to '' @ hw_string m @ '' ('' @ RemoteAddr r @ '')'')],
           wd))"
  by (auto simp: PxelinuxConfig_def config_mac_def Let_def dest!: has_prefixE split: if_splits)

lemma PxelinuxConfig_no_mac:
  "config_mac r = None \<Longrightarrow> \<exists>msg ls. PxelinuxConfig lib s w r wd =
     Some (http_error msg 400 (set_header ''Content-Type'' ''text/plain'' w), ls, wd)"
  by (auto simp: PxelinuxConfig_def config_mac_def Let_def dest!: has_prefixE split: if_splits)

text \<open>No request makes a handler panic, as long as the booter does not.\<close>

definition file_total :: "booter \<Rightarrow> bool" where
  "file_total bt \<longleftrightarrow> (\<forall>f w. GetFile bt f w \<noteq> None)"

lemma booters_total: "file_total (static_booter lib b)" "file_total (remote_booter lib rb)"
proof -
  show "file_total (static_booter lib b)"
    unfolding file_total_def static_booter_def static_File_def
    by (auto simp: go_index_def nat_less_iff split: option.split)
  show "file_total (remote_booter lib rb)"
    using getURL_eq [of lib rb]
    by (simp add: file_total_def remote_booter_def remote_File_def split: sum.split)
qed

lemma PxelinuxConfig_returns: "PxelinuxConfig lib s w r wd \<noteq> None"
proof (cases "config_mac r")
  case None
  then obtain msg ls where eq: "PxelinuxConfig lib s w r wd =
      Some (http_error msg 400 (set_header ''Content-Type'' ''text/plain'' w), ls, wd)"
    using PxelinuxConfig_no_mac by blast
  show ?thesis unfolding eq by (rule option.distinct)
next
  case (Some m)
  show ?thesis unfolding PxelinuxConfig_mac [OF Some] by (rule option.distinct)
qed

lemma File_returns:
  assumes "file_total (srv_booter s)"
  shows "File lib s w r wd \<noteq> None"
proof (cases "b64_decode (filepath_base (url_path r))")
  case (Some fid)
  obtain res wd' where "GetFile (srv_booter s) (string_of fid) wd = Some (res, wd')"
    using assms unfolding file_total_def by (metis not_None_eq surj_pair)
  with Some show ?thesis by (simp add: File_def)
qed (simp add: File_def)

lemma run_handler_returns: "file_total (srv_booter s) \<Longrightarrow> run_handler lib s h w r wd \<noteq> None"
  by (cases h) (simp_all only: run_handler.simps PxelinuxConfig_returns File_returns option.distinct not_False_eq_True)

lemma http_request_returns:
  assumes "file_total (srv_booter s)"
  obtains a ls wd' where "http_request lib s rb wd = Some (a, ls, wd')"
proof -
  have "http_request lib s rb wd \<noteq> None"
  proof (cases "mux_route handlers (fst rb)")
    case (Run h)
    obtain w ls wd' where "run_handler lib s h (new_writer (snd rb)) (fst rb) wd = Some (w, ls, wd')"
      using run_handler_returns [OF assms] by (metis not_None_eq prod_cases3)
    with Run show ?thesis by (simp add: http_request_def)
  qed (simp_all add: http_request_def)
  then show ?thesis using that by (metis not_None_eq prod_cases3)
qed

lemma http_serve_returns:
  assumes "file_total (srv_booter s)"
  shows "\<exists>as ls wd'. http_serve lib s rbs wd = Some (as, ls, wd')"
proof (induction rbs arbitrary: wd)
  case (Cons rb rbs)
  obtain a ls wd1 where "http_request lib s rb wd = Some (a, ls, wd1)"
    using http_request_returns [OF assms] .
  with Cons.IH [of wd1] show ?case by auto
qed simp

lemma handler_of_path:
  "mux_handler handlers p =
     (if p = ''/ldlinux.c32'' then Run HLdlinux
      else if has_prefix p ''/pxelinux.cfg/'' then Run HPxelinuxConfig
      else if has_prefix p ''/f/'' then Run HFile
      else if p = ''/pxelinux.cfg'' then Redirect ''/pxelinux.cfg/''
      else if p = ''/f'' then Redirect ''/f/''
      else NotFound)"
proof -
  consider "p \<in> {''/ldlinux.c32'', ''/pxelinux.cfg'', ''/f''}" | "has_prefix p ''/pxelinux.cfg/''" | "has_prefix p ''/f/''" |
    "p \<notin> {''/ldlinux.c32'', ''/pxelinux.cfg'', ''/f''}" "\<not> has_prefix p ''/pxelinux.cfg/''" "\<not> has_prefix p ''/f/''"
    by blast
  then show ?thesis
  proof cases
    case 4
    then show ?thesis
      by (auto simp: mux_handler_def handlers_def mux_entries_def path_match_def)
  qed (auto dest!: has_prefixE simp: mux_handler_def handlers_def mux_entries_def path_match_def has_prefix_def)
qed

lemma config_answer:
  assumes "valid_mac m" "GetBootSpec (srv_booter s) m wd = (Inr sp, wd')"
  shows "\<exists>wr ls. http_request lib s (get c (config_path m), None) wd = Some (Response wr, ls, wd') \<and>
    status wr = 200 \<and> headers wr ''Content-Type'' = Some ''text/plain'' \<and>
    read_config (string_of (sent wr)) = Some (read_back sp)"
  using assms(2) read_config_cfg
  by (simp add: http_request_def route_config PxelinuxConfig_mac [OF config_mac_path [OF assms(1)]] status_def)

section \<open>Properties\<close>

definition demo_static :: httpServer where
  "demo_static = \<lparr>srv_booter = static_booter (demo_lib ([], [], [])) (StaticBooter ''vmlinuz'' [''a'', ''b''] ''quiet''),
     ldlinux = [1, 2], srv_key = []\<rparr>"

abbreviation demo_wd :: world where
  "demo_wd \<equiv> demo_world \<lparr>StatusCode = 200, Body = buffer_reader []\<rparr>"

text \<open>C3. A machine that asks for its pxelinux configuration under its own hardware address, the
  way pxelinux names the file, gets a 200 response from which it reads back the boot specification
  of the booter: the kernel and each initrd as a path of the server that encodes its id, in order,
  and the command line. Nothing is assumed of the specification, and two cases are lossy: an empty
  list of initrds is read back as one empty name, and a command line only up to its first line
  break. With an initrd and no line break the specification comes back exactly.\<close>

theorem config_reads_back:
  assumes "valid_mac m" "GetBootSpec (srv_booter s) m wd = (Inr sp, wd')"
  shows "\<exists>wr ls. http_request lib s (get c (config_path m), None) wd = Some (Response wr, ls, wd') \<and>
    status wr = 200 \<and> headers wr ''Content-Type'' = Some ''text/plain'' \<and>
    read_config (string_of (sent wr)) =
      Some (encode_id (Kernel sp), if Initrd sp = [] then [[]] else map encode_id (Initrd sp),
        takeWhile (\<lambda>c. c \<noteq> CHR 0x0A) (Cmdline sp)) \<and>
    (Initrd sp \<noteq> [] \<and> CHR 0x0A \<notin> set (Cmdline sp) \<longrightarrow>
       read_config (string_of (sent wr)) = Some (encode_id (Kernel sp), map encode_id (Initrd sp), Cmdline sp))"
proof -
  obtain wr ls where "http_request lib s (get c (config_path m), None) wd = Some (Response wr, ls, wd')"
    "status wr = 200" "headers wr ''Content-Type'' = Some ''text/plain''"
    "read_config (string_of (sent wr)) = Some (read_back sp)"
    using config_answer [OF assms] by blast
  then show ?thesis
    using read_back_plain [of sp] by (intro exI [of _ wr] exI [of _ ls]) (simp add: read_back_def)
qed

theorem config_reads_back_witness:
  "\<exists>wr ls. http_request (demo_lib ([], [], [])) demo_static (get ''10.0.0.7'' (config_path [2, 0, 0, 0, 0, 7]), None) demo_wd =
      Some (Response wr, ls, demo_wd) \<and>
    read_config (string_of (sent wr)) = Some (''f/a2VybmVs'', [''f/MA=='', ''f/MQ==''], ''quiet'')"
proof -
  let ?sp = "\<lparr>Kernel = ''kernel'', Initrd = [''0'', ''1''], Cmdline = ''quiet''\<rparr>"
  have "char_of (48 :: nat) = CHR ''0''" "char_of (49 :: nat) = CHR ''1''" by code_simp+
  then have "GetBootSpec (srv_booter demo_static) [2, 0, 0, 0, 0, 7] demo_wd = (Inr ?sp, demo_wd)"
    by (simp add: demo_static_def static_booter_def static_BootSpec_def numeral_2_eq_2 itoa_def
        dec_nat.simps digit_char_def)
  moreover have "encode_id ''kernel'' = ''f/a2VybmVs''" "encode_id ''0'' = ''f/MA==''" "encode_id ''1'' = ''f/MQ==''"
    by code_simp+
  ultimately show ?thesis
    using config_reads_back [of "[2, 0, 0, 0, 0, 7]" demo_static demo_wd ?sp demo_wd
        "demo_lib ([], [], [])" "''10.0.0.7''"]
    by (auto simp: valid_mac_def)
qed

text \<open>C31. The booter is asked exactly when the last element of the path is \<open>01-\<close> and a hardware
  address, and then for that address; every other request for a configuration is answered with
  400 and changes nothing. If the booter refuses the machine, it is told to boot from its disk.\<close>

theorem config_gate:
  "case config_mac r of
     None \<Rightarrow> \<exists>wr ls. PxelinuxConfig lib s (new_writer brk) r wd = Some (wr, ls, wd) \<and> status wr = 400
   | Some m \<Rightarrow> \<exists>wr ls. PxelinuxConfig lib s (new_writer brk) r wd = Some (wr, ls, snd (GetBootSpec (srv_booter s) m wd)) \<and>
       status wr = 200 \<and>
       (\<forall>e. fst (GetBootSpec (srv_booter s) m wd) = Inl e \<and> brk = None \<longrightarrow> sent wr = bytes_of bootFromDisk)"
proof (cases "config_mac r")
  case None
  then show ?thesis
    using PxelinuxConfig_no_mac [of r lib s "new_writer brk" wd] by auto
next
  case (Some m)
  then show ?thesis
    by (auto simp: PxelinuxConfig_mac status_def split: prod.split sum.split)
qed

theorem config_gate_witness:
  "\<exists>wr ls. PxelinuxConfig (demo_lib ([], [], [])) demo_static (new_writer None) (get [] ''pxelinux.cfg/default'') demo_wd =
     Some (wr, ls, demo_wd) \<and> status wr = 400"
proof -
  have "config_mac (get [] ''pxelinux.cfg/default'') = None"
    by (simp add: config_mac_def filepath_base_def has_prefix_def)
  with config_gate [where r = "get [] ''pxelinux.cfg/default''" and brk = None and s = demo_static and wd = demo_wd
      and lib = "demo_lib ([], [], [])"]
  show ?thesis by simp
qed

text \<open>C16. In static mode every path of a configuration leads to its own file: the request for the
  encoded id of the kernel makes the server open the kernel file, the request for the \<open>j\<close>-th
  initrd id the \<open>j\<close>-th initrd file, nothing else is opened, and the answer is 200 with all the
  bytes of that file, as long as the file can be read and the connection holds.\<close>

theorem static_files_served:
  assumes "length ips < 2 ^ 63" "srv_booter s = static_booter lib (StaticBooter kp ips cmd)"
    and "GetBootSpec (srv_booter s) m w = (Inr sp, w')"
    and "j < length (kp # ips)" "w_fs v ((kp # ips) ! j) = Inr d" "final d = EOF"
  shows "length (Initrd sp) = length ips \<and>
    (\<exists>wr ls. http_request lib s (get c (encode_id ((Kernel sp # Initrd sp) ! j)), None) v =
         Some (Response wr, ls, v\<lparr>w_opens := w_opens v @ [(kp # ips) ! j]\<rparr>) \<and>
       status wr = 200 \<and> sent wr = reader_data d)"
proof -
  let ?f = "(Kernel sp # Initrd sp) ! j"
  have sp: "Kernel sp = ''kernel''" "Initrd sp = map (\<lambda>i. itoa (int i)) [0..<length ips]"
    using assms(2,3) by (auto simp: static_booter_def static_BootSpec_def)
  have src: "static_source kp ips ?f = Some ((kp # ips) ! j)" and "?f \<noteq> []"
    using assms(1,4) sp by (cases j; auto simp: static_source_initrd; simp add: static_source_def)+
  have "os_open ((kp # ips) ! j) v = (Inr d, v\<lparr>w_opens := w_opens v @ [(kp # ips) ! j]\<rparr>)"
    using assms(5) by (simp add: os_open_def)
  from static.source_served [OF src \<open>?f \<noteq> []\<close> assms(2) this assms(6)] sp show ?thesis by simp
qed

theorem static_files_served_witness:
  "\<exists>wr ls. http_request (demo_lib ([], [], [])) demo_static (get ''10.0.0.7'' (encode_id (itoa 1)), None) demo_wd =
     Some (Response wr, ls, demo_wd\<lparr>w_opens := [''b'']\<rparr>) \<and> status wr = 200 \<and> sent wr = bytes_of ''b''"
proof -
  have fs: "w_fs demo_wd p = Inr (buffer_reader (bytes_of p))" "w_opens demo_wd = []" for p
    by (simp_all add: demo_world_def)
  have "GetBootSpec (srv_booter demo_static) [] demo_wd =
      (Inr \<lparr>Kernel = ''kernel'', Initrd = [itoa 0, itoa 1], Cmdline = ''quiet''\<rparr>, demo_wd)"
    by (simp add: demo_static_def static_booter_def static_BootSpec_def numeral_2_eq_2)
  with static_files_served [where ips = "[''a'', ''b'']" and s = demo_static and lib = "demo_lib ([], [], [])"
      and kp = "''vmlinuz''" and cmd = "''quiet''" and m = "[]" and w = demo_wd and j = 2 and v = demo_wd
      and c = "''10.0.0.7''" and d = "buffer_reader (bytes_of ''b'')"] fs show ?thesis
    by (fastforce simp: demo_static_def buffer_reader_def reader_data_def)
qed

text \<open>C15. In API mode every path of a configuration leads to its URL: if secretbox opens what it
  sealed, the request for the encoded id of the kernel or of an initrd makes the server fetch
  exactly one URL, the one sealed in the id, and answer with 200 and the bytes of the body.\<close>

theorem remote_files_served:
  assumes "box_correct lib" "srv_booter s = remote_booter lib b"
    and "GetBootSpec (srv_booter s) m w = (Inr sp, w')" "f \<in> set (Kernel sp # Initrd sp)"
  shows "\<exists>u. getURL lib b f = Some (Inr u) \<and>
    (\<forall>v resp. w_http v (length (w_gets v)) u = Inr resp \<and> final (Body resp) = EOF \<longrightarrow>
    (\<exists>wr ls. http_request lib s (get c (encode_id f), None) v = Some (Response wr, ls, v\<lparr>w_gets := w_gets v @ [u]\<rparr>) \<and>
       status wr = 200 \<and> sent wr = reader_data (Body resp)))"
proof -
  have "GetBootSpec (remote_booter lib b) m w = (Inr sp, w')"
    using assms(2,3) by simp
  from remote.issued_served [OF assms(1) this assms(4,2), where c = c and lib = lib] obtain u where
    u: "remote_source lib b f = Some u" and
    got: "\<And>v d v'. remote_fetch u v = (Inr d, v') \<Longrightarrow> final d = EOF \<Longrightarrow>
       \<exists>wr ls. http_request lib s (get c (encode_id f), None) v = Some (Response wr, ls, v') \<and>
         status wr = 200 \<and> sent wr = reader_data d"
    by blast
  from u have "getURL lib b f = Some (Inr u)" by (simp add: remote_source_def split: option.splits sum.splits)
  with got show ?thesis by (auto simp: remote_fetch_def http_get_def)
qed

theorem remote_files_served_witness:
  "\<exists>sp w' wr ls u. GetBootSpec (remote_booter (demo_lib (''http://k'', [''http://i''], ''c'')) demo_booter)
       [2, 0, 0, 0, 0, 7] demo_wd = (Inr sp, w') \<and>
     http_request (demo_lib (''http://k'', [''http://i''], ''c''))
       \<lparr>srv_booter = remote_booter (demo_lib (''http://k'', [''http://i''], ''c'')) demo_booter, ldlinux = [], srv_key = []\<rparr>
       (get [] (encode_id (Kernel sp)), None) demo_wd = Some (Response wr, ls, demo_wd\<lparr>w_gets := [u]\<rparr>) \<and> status wr = 200"
proof -
  let ?L = "demo_lib (''http://k'', [''http://i''], ''c'')"
  let ?S = "\<lparr>srv_booter = remote_booter ?L demo_booter, ldlinux = [], srv_key = []\<rparr>"
  have "24 * Suc (length [''http://i'']) \<le> length (reader_data (w_rand demo_wd))"
    by (simp add: demo_world_def reader_data_def)
  then obtain sp w' where sp: "GetBootSpec (srv_booter ?S) [2, 0, 0, 0, 0, 7] demo_wd = (Inr sp, w')"
    using remote_BootSpec_returns [OF demo_getSpec [of "[2, 0, 0, 0, 0, 7]"]]
    by (auto simp: remote_booter_def)
  obtain u where "\<forall>v resp. w_http v (length (w_gets v)) u = Inr resp \<and> final (Body resp) = EOF \<longrightarrow>
    (\<exists>wr ls. http_request ?L ?S (get [] (encode_id (Kernel sp)), None) v =
       Some (Response wr, ls, v\<lparr>w_gets := w_gets v @ [u]\<rparr>) \<and>
       status wr = 200 \<and> sent wr = reader_data (Body resp))"
    using remote_files_served [where lib = ?L and s = ?S and b = demo_booter and f = "Kernel sp" and c = "[]",
        OF demo_lib_box(1) _ sp] by auto
  from this [rule_format, of demo_wd "\<lparr>StatusCode = 200, Body = buffer_reader []\<rparr>"] obtain wr ls where
    "http_request ?L ?S (get [] (encode_id (Kernel sp)), None) demo_wd =
       Some (Response wr, ls, demo_wd\<lparr>w_gets := [u]\<rparr>)" "status wr = 200"
    by (auto simp: demo_world_def buffer_reader_def)
  with sp show ?thesis by auto
qed

text \<open>C32. A file request is answered with 400 exactly when its last path element is not base64,
  and then the booter is not asked; otherwise the booter is asked for the decoded id once. An error
  of the booter becomes 500 and a panic of it a panic of the handler; a stream is passed on as 200, and its bytes are exactly what is sent:
  all of them, or as many as the connection takes before it breaks.\<close>

theorem file_statuses:
  "case b64_decode (filepath_base (url_path r)) of
     None \<Rightarrow> \<exists>wr ls. File lib s (new_writer brk) r wd = Some (wr, ls, wd) \<and> status wr = 400
   | Some fid \<Rightarrow> (case GetFile (srv_booter s) (string_of fid) wd of
       None \<Rightarrow> File lib s (new_writer brk) r wd = None
     | Some (res, wd') \<Rightarrow> \<exists>wr ls. File lib s (new_writer brk) r wd = Some (wr, ls, wd') \<and>
         (case res of
            Inl e \<Rightarrow> status wr = 500
          | Inr (d, n) \<Rightarrow> status wr = 200 \<and> headers wr ''Content-Type'' = Some ''application/octet-stream'' \<and>
              sent wr = (case brk of None \<Rightarrow> reader_data d | Some (k, e) \<Rightarrow> take k (reader_data d))))"
proof (cases "b64_decode (filepath_base (url_path r))")
  case None
  then show ?thesis by (simp add: File_def)
next
  case (Some fid)
  let ?w = "set_header ''Content-Type'' ''application/octet-stream'' (new_writer brk)"
  have copied: "status wr = 200 \<and> headers wr ''Content-Type'' = Some ''application/octet-stream'' \<and>
      sent wr = (case brk of None \<Rightarrow> reader_data d | Some (k, e) \<Rightarrow> take k (reader_data d))"
    if "copy_to d ?w = (x, wr)" for d x wr
    using copy_to_status [of ?w d] copy_to_sent [of d ?w] that by (simp add: taken_def)
  show ?thesis
  proof (cases "GetFile (srv_booter s) (string_of fid) wd")
    case None
    with Some show ?thesis by (simp add: File_def)
  next
    case got: (Some x)
    obtain res wd' where x: "x = (res, wd')" by (cases x)
    show ?thesis
    proof (cases res)
      case (Inl e)
      with Some got x show ?thesis by (simp add: File_def)
    next
      case (Inr dn)
      obtain d n where dn: "dn = (d, n)" by (cases dn)
      obtain k err wr where cp: "copy_to d ?w = ((k, err), wr)" by (metis prod.exhaust)
      with Some got x Inr dn copied [OF cp] show ?thesis
        by (cases err) (simp_all add: File_def)
    qed
  qed
qed

text \<open>C33. The routing of requests: a path runs the handler for \<open>ldlinux.c32\<close> exactly if it is that
  path, the configuration handler exactly if it lies below \<open>/pxelinux.cfg/\<close>, the file handler
  exactly if it lies below \<open>/f/\<close>; an unclean path runs none of them unless the method is
  \<open>CONNECT\<close>, whose paths are taken as they are.\<close>

theorem routes_exact:
  "mux_route handlers r = Run h \<longleftrightarrow>
     (Method r = ''CONNECT'' \<or> clean_path (url_path r) = url_path r) \<and>
     (case h of
        HLdlinux \<Rightarrow> url_path r = ''/ldlinux.c32''
      | HPxelinuxConfig \<Rightarrow> has_prefix (url_path r) ''/pxelinux.cfg/''
      | HFile \<Rightarrow> has_prefix (url_path r) ''/f/'')"
  using has_prefixE [of "url_path r" "''/pxelinux.cfg/''"]
  by (auto simp: mux_route_def handler_of_path has_prefix_def split: http_handler.split)

end
