(* ===== verification/Bindata_Assets.thy ===== *)
theory Bindata_Assets
  imports Boot_Api Go_Http
begin

text \<open>
  \<open>src/assets/pxelinux_autogen.go\<close>: the two embedded pxelinux files and the functions that
  look them up, list them and write them to a directory. The two compressed literals and
  the gzip decoder are a record the functions take.
\<close>

section \<open>Paths\<close>

text \<open>\<open>filepath.Clean\<close>, \<open>Join\<close> and \<open>Dir\<close>.\<close>

fun clean_rel :: "string list \<Rightarrow> string list \<Rightarrow> string list" where
  "clean_rel acc [] = rev acc"
| "clean_rel acc (e # es) =
     (if e = [] \<or> e = ''.'' then clean_rel acc es
      else if e = ''..'' then
        (if acc = [] \<or> hd acc = ''..'' then clean_rel (e # acc) es else clean_rel (tl acc) es)
      else clean_rel (e # acc) es)"

definition filepath_clean :: "string \<Rightarrow> string" where
  "filepath_clean p =
     (if p = [] then ''.''
      else if hd p = CHR ''/'' then CHR ''/'' # join_with ''/'' (clean_elems [] (split_on CHR ''/'' p))
      else case join_with ''/'' (clean_rel [] (split_on CHR ''/'' p)) of [] \<Rightarrow> ''.'' | q \<Rightarrow> q)"

definition filepath_join :: "string list \<Rightarrow> string" where
  "filepath_join es = (case dropWhile (\<lambda>e. e = []) es of
      [] \<Rightarrow> []
    | es' \<Rightarrow> filepath_clean (join_with ''/'' es'))"

definition filepath_dir :: "string \<Rightarrow> string" where
  "filepath_dir p = filepath_clean (rev (dropWhile (\<lambda>c. c \<noteq> CHR ''/'') (rev p)))"

section \<open>The embedded files\<close>

record assets_env =
  gz_open :: "bytes \<Rightarrow> string option"
  gz_stream :: "bytes \<Rightarrow> reader"
  gz_close :: "bytes \<Rightarrow> string option"
  ldlinux_gz :: bytes
  lpxelinux_gz :: bytes

text \<open>Both results of the Go function: the slice and the error. A nil slice is empty.\<close>

definition bindataRead :: "golib \<Rightarrow> assets_env \<Rightarrow> bytes \<Rightarrow> string \<Rightarrow> bytes \<times> string option" where
  "bindataRead lib g data name = (case gz_open g data of
      Some e \<Rightarrow> ([], Some (''Read '' @ quote lib name @ '': '' @ e))
    | None \<Rightarrow> (case io_copy (gz_stream g data) of
        (buf, Some e) \<Rightarrow> ([], Some (''Read '' @ quote lib name @ '': '' @ io_err_text e))
      | (buf, None) \<Rightarrow> (if gz_close g data \<noteq> None then ([], None) else (buf, None))))"

record bindataFileInfo =
  fi_name :: string
  fi_size :: int
  fi_mode :: nat
  fi_modTime :: int

definition fi_IsDir :: "bindataFileInfo \<Rightarrow> bool" where
  "fi_IsDir fi = False"

record asset =
  asset_bytes :: bytes
  asset_info :: bindataFileInfo

definition ldlinuxC32Bytes :: "golib \<Rightarrow> assets_env \<Rightarrow> bytes \<times> string option" where
  "ldlinuxC32Bytes lib g = bindataRead lib g (ldlinux_gz g) ''ldlinux.c32''"

definition ldlinuxC32 :: "golib \<Rightarrow> assets_env \<Rightarrow> string + asset" where
  "ldlinuxC32 lib g = (case ldlinuxC32Bytes lib g of
      (_, Some e) \<Rightarrow> Inl e
    | (b, None) \<Rightarrow> Inr \<lparr>asset_bytes = b, asset_info =
        \<lparr>fi_name = ''ldlinux.c32'', fi_size = 122308, fi_mode = 420, fi_modTime = 1444138389\<rparr>\<rparr>)"

definition lpxelinux0Bytes :: "golib \<Rightarrow> assets_env \<Rightarrow> bytes \<times> string option" where
  "lpxelinux0Bytes lib g = bindataRead lib g (lpxelinux_gz g) ''lpxelinux.0''"

definition lpxelinux0 :: "golib \<Rightarrow> assets_env \<Rightarrow> string + asset" where
  "lpxelinux0 lib g = (case lpxelinux0Bytes lib g of
      (_, Some e) \<Rightarrow> Inl e
    | (b, None) \<Rightarrow> Inr \<lparr>asset_bytes = b, asset_info =
        \<lparr>fi_name = ''lpxelinux.0'', fi_size = 91550, fi_mode = 420, fi_modTime = 1444138389\<rparr>\<rparr>)"

section \<open>Lookup\<close>

definition bindata :: "string \<rightharpoonup> (golib \<Rightarrow> assets_env \<Rightarrow> string + asset)" where
  "bindata = [''ldlinux.c32'' \<mapsto> ldlinuxC32, ''lpxelinux.0'' \<mapsto> lpxelinux0]"

definition cannonicalName :: "string \<Rightarrow> string" where
  "cannonicalName name = replace_char CHR 0x5C ''/'' name"

definition Asset :: "golib \<Rightarrow> assets_env \<Rightarrow> string \<Rightarrow> string + bytes" where
  "Asset lib g name = (case bindata (cannonicalName name) of
      Some f \<Rightarrow> (case f lib g of
          Inl e \<Rightarrow> Inl (''Asset '' @ name @ '' can't read by error: '' @ e)
        | Inr a \<Rightarrow> Inr (asset_bytes a))
    | None \<Rightarrow> Inl (''Asset '' @ name @ '' not found''))"

text \<open>\<open>None\<close> is the panic.\<close>

definition MustAsset :: "golib \<Rightarrow> assets_env \<Rightarrow> string \<Rightarrow> bytes option" where
  "MustAsset lib g name = (case Asset lib g name of Inl e \<Rightarrow> None | Inr b \<Rightarrow> Some b)"

definition AssetInfo :: "golib \<Rightarrow> assets_env \<Rightarrow> string \<Rightarrow> string + bindataFileInfo" where
  "AssetInfo lib g name = (case bindata (cannonicalName name) of
      Some f \<Rightarrow> (case f lib g of
          Inl e \<Rightarrow> Inl (''AssetInfo '' @ name @ '' can't read by error: '' @ e)
        | Inr a \<Rightarrow> Inr (asset_info a))
    | None \<Rightarrow> Inl (''AssetInfo '' @ name @ '' not found''))"

text \<open>The keys of a Go map in some order; the set is what \<open>AssetNames\<close> promises.\<close>

definition AssetNames :: "string set" where
  "AssetNames = dom bindata"

datatype bintree =
  Bintree (bt_Func: "(golib \<Rightarrow> assets_env \<Rightarrow> string + asset) option") (bt_Children: "(string \<times> bintree) list")

definition bintree_root :: bintree where
  "bintree_root = Bintree None
     [(''ldlinux.c32'', Bintree (Some ldlinuxC32) []), (''lpxelinux.0'', Bintree (Some lpxelinux0) [])]"

fun walk :: "bintree \<Rightarrow> string list \<Rightarrow> bintree option" where
  "walk node [] = Some node"
| "walk node (p # ps) = (case map_of (bt_Children node) p of
      None \<Rightarrow> None
    | Some child \<Rightarrow> walk child ps)"

definition AssetDir :: "string \<Rightarrow> string + string list" where
  "AssetDir name = (case walk bintree_root
        (if length name \<noteq> 0 then split_on CHR ''/'' (cannonicalName name) else []) of
      None \<Rightarrow> Inl (''Asset '' @ name @ '' not found'')
    | Some node \<Rightarrow>
        (if bt_Func node \<noteq> None then Inl (''Asset '' @ name @ '' not found'')
         else Inr (map fst (bt_Children node))))"

section \<open>Writing to a directory\<close>

datatype fs_op = MkdirAll string nat | WriteFile string bytes nat | Chtimes string int int

text \<open>The calls made so far, and which call fails with which error.\<close>

record fsys =
  fs_calls :: "fs_op list"
  fs_fail :: "nat \<Rightarrow> fs_op \<Rightarrow> string option"

definition fs_do :: "fs_op \<Rightarrow> fsys \<Rightarrow> string option \<times> fsys" where
  "fs_do op fs = (fs_fail fs (length (fs_calls fs)) op, fs\<lparr>fs_calls := fs_calls fs @ [op]\<rparr>)"

definition filePath :: "string \<Rightarrow> string \<Rightarrow> string" where
  "filePath dir name = filepath_join (dir # split_on CHR ''/'' (cannonicalName name))"

definition RestoreAsset :: "golib \<Rightarrow> assets_env \<Rightarrow> string \<Rightarrow> string \<Rightarrow> fsys \<Rightarrow> string option \<times> fsys" where
  "RestoreAsset lib g dir name fs = (case Asset lib g name of
      Inl e \<Rightarrow> (Some e, fs)
    | Inr data \<Rightarrow> (case AssetInfo lib g name of
        Inl e \<Rightarrow> (Some e, fs)
      | Inr info \<Rightarrow> (case fs_do (MkdirAll (filePath dir (filepath_dir name)) 493) fs of
          (Some e, fs) \<Rightarrow> (Some e, fs)
        | (None, fs) \<Rightarrow> (case fs_do (WriteFile (filePath dir name) data (fi_mode info)) fs of
            (Some e, fs) \<Rightarrow> (Some e, fs)
          | (None, fs) \<Rightarrow> fs_do (Chtimes (filePath dir name) (fi_modTime info) (fi_modTime info)) fs))))"

text \<open>The recursion over the directories, with its depth as fuel.\<close>

fun restore_assets ::
  "nat \<Rightarrow> golib \<Rightarrow> assets_env \<Rightarrow> string \<Rightarrow> string \<Rightarrow> fsys \<Rightarrow> (string option \<times> fsys) option"
and restore_children ::
  "nat \<Rightarrow> golib \<Rightarrow> assets_env \<Rightarrow> string \<Rightarrow> string \<Rightarrow> string list \<Rightarrow> fsys \<Rightarrow> (string option \<times> fsys) option" where
  "restore_assets 0 lib g dir name fs = None"
| "restore_assets (Suc k) lib g dir name fs = (case AssetDir name of
      Inl e \<Rightarrow> Some (RestoreAsset lib g dir name fs)
    | Inr children \<Rightarrow> restore_children k lib g dir name children fs)"
| "restore_children k lib g dir name [] fs = Some (None, fs)"
| "restore_children k lib g dir name (child # children) fs = do {
     (err, fs) \<leftarrow> restore_assets k lib g dir (filepath_join [name, child]) fs;
     (case err of
        Some e \<Rightarrow> Some (Some e, fs)
      | None \<Rightarrow> restore_children k lib g dir name children fs)
   }"

definition RestoreAssets ::
  "golib \<Rightarrow> assets_env \<Rightarrow> string \<Rightarrow> string \<Rightarrow> fsys \<Rightarrow> (string option \<times> fsys) option" where
  "RestoreAssets lib g dir name fs = restore_assets 2 lib g dir name fs"

section \<open>Lemmas\<close>

text \<open>A decoder that works: both literals open, decompress and close without an error.\<close>

definition gz_ok :: "assets_env \<Rightarrow> bytes \<Rightarrow> bool" where
  "gz_ok g z \<longleftrightarrow> gz_open g z = None \<and> final (gz_stream g z) = EOF \<and> gz_close g z = None"

definition unpacked :: "assets_env \<Rightarrow> bytes \<Rightarrow> bytes" where
  "unpacked g z = reader_data (gz_stream g z)"

lemma bindataRead_ok: "gz_ok g z \<Longrightarrow> bindataRead lib g z name = (unpacked g z, None)"
  by (simp add: bindataRead_def gz_ok_def io_copy_def unpacked_def)

lemma Asset_ldlinux:
  "gz_ok g (ldlinux_gz g) \<Longrightarrow> cannonicalName name = ''ldlinux.c32'' \<Longrightarrow>
     Asset lib g name = Inr (unpacked g (ldlinux_gz g))"
  by (simp add: Asset_def bindata_def ldlinuxC32_def ldlinuxC32Bytes_def bindataRead_ok)

lemma Asset_lpxelinux:
  "gz_ok g (lpxelinux_gz g) \<Longrightarrow> cannonicalName name = ''lpxelinux.0'' \<Longrightarrow>
     Asset lib g name = Inr (unpacked g (lpxelinux_gz g))"
  by (simp add: Asset_def bindata_def lpxelinux0_def lpxelinux0Bytes_def bindataRead_ok)

lemma Asset_other:
  "cannonicalName name \<notin> {''ldlinux.c32'', ''lpxelinux.0''} \<Longrightarrow> Asset lib g name = Inl (''Asset '' @ name @ '' not found'')"
  by (simp add: Asset_def bindata_def)

lemma AssetDir_root: "AssetDir [] = Inr [''ldlinux.c32'', ''lpxelinux.0'']"
  by (simp add: AssetDir_def bintree_root_def)

lemma AssetDir_other: "name \<noteq> [] \<Longrightarrow> \<exists>e. AssetDir name = Inl e"
proof -
  assume "name \<noteq> []"
  moreover obtain p ps where "split_on CHR ''/'' (cannonicalName name) = p # ps"
    by (cases "split_on CHR ''/'' (cannonicalName name)") auto
  ultimately show ?thesis
    by (cases ps) (auto simp: AssetDir_def bintree_root_def)
qed

lemma join_child:
  "filepath_join [[], ''ldlinux.c32''] = ''ldlinux.c32''" "filepath_join [[], ''lpxelinux.0''] = ''lpxelinux.0''"
  by (simp_all add: filepath_join_def filepath_clean_def)

text \<open>Depth 2 is enough: only the root is a directory.\<close>

lemma RestoreAssets_eq:
  "RestoreAssets lib g dir name fs = Some
     (if name = [] then
        (case RestoreAsset lib g dir ''ldlinux.c32'' fs of
           (Some e, fs) \<Rightarrow> (Some e, fs)
         | (None, fs) \<Rightarrow> RestoreAsset lib g dir ''lpxelinux.0'' fs)
      else RestoreAsset lib g dir name fs)"
proof (cases "name = []")
  case False
  then show ?thesis
    using AssetDir_other [of name] by (auto simp: RestoreAssets_def numeral_2_eq_2)
next
  case True
  obtain e1 e2 where "AssetDir ''ldlinux.c32'' = Inl e1" "AssetDir ''lpxelinux.0'' = Inl e2"
    using AssetDir_other [of "''ldlinux.c32''"] AssetDir_other [of "''lpxelinux.0''"] by auto
  with True show ?thesis
    by (simp add: RestoreAssets_def numeral_2_eq_2 AssetDir_root join_child split: prod.split option.split)
qed

definition restore_calls :: "string \<Rightarrow> string \<Rightarrow> bytes \<Rightarrow> fs_op list" where
  "restore_calls dir name b =
     [MkdirAll (filePath dir ''.'') 493, WriteFile (filePath dir name) b 420,
      Chtimes (filePath dir name) 1444138389 1444138389]"

lemma RestoreAsset_ok:
  assumes "\<And>n op. fs_fail fs n op = None" "gz_ok g (ldlinux_gz g)" "gz_ok g (lpxelinux_gz g)"
  shows "RestoreAsset lib g dir ''ldlinux.c32'' fs =
      (None, fs\<lparr>fs_calls := fs_calls fs @ restore_calls dir ''ldlinux.c32'' (unpacked g (ldlinux_gz g))\<rparr>)"
    and "RestoreAsset lib g dir ''lpxelinux.0'' fs =
      (None, fs\<lparr>fs_calls := fs_calls fs @ restore_calls dir ''lpxelinux.0'' (unpacked g (lpxelinux_gz g))\<rparr>)"
proof -
  have names: "cannonicalName ''ldlinux.c32'' = ''ldlinux.c32''" "cannonicalName ''lpxelinux.0'' = ''lpxelinux.0''"
    "filepath_dir ''ldlinux.c32'' = ''.''" "filepath_dir ''lpxelinux.0'' = ''.''"
    by (simp_all add: cannonicalName_def replace_char_def filepath_dir_def filepath_clean_def)
  have info: "\<exists>i. AssetInfo lib g ''ldlinux.c32'' = Inr i \<and> fi_mode i = 420 \<and> fi_modTime i = 1444138389"
    "\<exists>i. AssetInfo lib g ''lpxelinux.0'' = Inr i \<and> fi_mode i = 420 \<and> fi_modTime i = 1444138389"
    using assms names
    by (simp_all add: AssetInfo_def bindata_def ldlinuxC32_def ldlinuxC32Bytes_def lpxelinux0_def
        lpxelinux0Bytes_def bindataRead_ok)
  show "RestoreAsset lib g dir ''ldlinux.c32'' fs =
      (None, fs\<lparr>fs_calls := fs_calls fs @ restore_calls dir ''ldlinux.c32'' (unpacked g (ldlinux_gz g))\<rparr>)"
    using info(1) assms Asset_ldlinux [OF assms(2) names(1), of lib] names
    by (auto simp: RestoreAsset_def fs_do_def restore_calls_def)
  show "RestoreAsset lib g dir ''lpxelinux.0'' fs =
      (None, fs\<lparr>fs_calls := fs_calls fs @ restore_calls dir ''lpxelinux.0'' (unpacked g (lpxelinux_gz g))\<rparr>)"
    using info(2) assms Asset_lpxelinux [OF assms(3) names(2), of lib] names
    by (auto simp: RestoreAsset_def fs_do_def restore_calls_def)
qed

text \<open>An error of \<open>gz.Close\<close> is lost: the code returns the error of the copy, which is nil
  there, so the caller sees an empty file and no error.\<close>

lemma close_error_lost:
  "gz_open g (lpxelinux_gz g) = None \<Longrightarrow> final (gz_stream g (lpxelinux_gz g)) = EOF \<Longrightarrow>
   gz_close g (lpxelinux_gz g) = Some e \<Longrightarrow> Asset lib g ''lpxelinux.0'' = Inr []"
  by (simp add: Asset_def cannonicalName_def replace_char_def bindata_def lpxelinux0_def
      lpxelinux0Bytes_def bindataRead_def io_copy_def)

section \<open>Properties\<close>

definition demo_assets :: assets_env where
  "demo_assets = \<lparr>gz_open = (\<lambda>_. None), gz_stream = buffer_reader, gz_close = (\<lambda>_. None),
     ldlinux_gz = [1, 2], lpxelinux_gz = [3, 4, 5]\<rparr>"

lemma demo_gz_ok: "gz_ok demo_assets z" "unpacked demo_assets z = z"
  by (auto simp: gz_ok_def unpacked_def demo_assets_def buffer_reader_def reader_data_def)

text \<open>C39. The embedded files: the names are exactly \<open>ldlinux.c32\<close> and \<open>lpxelinux.0\<close>, and with a
  decoder that reports no error each of them gives the bytes of its own literal; every other name
  is an error, on which \<open>MustAsset\<close> panics.\<close>

theorem assets_exact:
  assumes "gz_ok g (ldlinux_gz g)" "gz_ok g (lpxelinux_gz g)"
  shows "AssetNames = {''ldlinux.c32'', ''lpxelinux.0''} \<and>
    MustAsset lib g name =
      (if cannonicalName name = ''ldlinux.c32'' then Some (unpacked g (ldlinux_gz g))
       else if cannonicalName name = ''lpxelinux.0'' then Some (unpacked g (lpxelinux_gz g))
       else None)"
  using assms Asset_ldlinux [of g name lib] Asset_lpxelinux [of g name lib] Asset_other [of name lib g]
  by (auto simp: MustAsset_def AssetNames_def bindata_def)

theorem assets_exact_witness:
  "MustAsset (demo_lib ([], [], [])) demo_assets ''lpxelinux.0'' = Some [3, 4, 5] \<and>
   MustAsset (demo_lib ([], [], [])) demo_assets ''ldlinux.c32'' = Some [1, 2] \<and>
   MustAsset (demo_lib ([], [], [])) demo_assets ''pxelinux.0'' = None"
  using assets_exact [OF demo_gz_ok(1) demo_gz_ok(1), of "demo_lib ([], [], [])" "''lpxelinux.0''"]
    assets_exact [OF demo_gz_ok(1) demo_gz_ok(1), of "demo_lib ([], [], [])" "''ldlinux.c32''"]
    assets_exact [OF demo_gz_ok(1) demo_gz_ok(1), of "demo_lib ([], [], [])" "''pxelinux.0''"]
  by (simp add: demo_gz_ok cannonicalName_def replace_char_def) (simp add: demo_assets_def)

text \<open>Restoring the root directory always returns, and when no call fails it makes the
  directory, writes and dates both files, in that order and nothing else.\<close>

lemma restore_root:
  assumes "\<And>n op. fs_fail fs n op = None" "gz_ok g (ldlinux_gz g)" "gz_ok g (lpxelinux_gz g)"
  shows "RestoreAssets lib g dir [] fs = Some (None, fs\<lparr>fs_calls := fs_calls fs @
    restore_calls dir ''ldlinux.c32'' (unpacked g (ldlinux_gz g)) @
    restore_calls dir ''lpxelinux.0'' (unpacked g (lpxelinux_gz g))\<rparr>)"
proof -
  let ?fs1 = "fs\<lparr>fs_calls := fs_calls fs @ restore_calls dir ''ldlinux.c32'' (unpacked g (ldlinux_gz g))\<rparr>"
  have "fs_fail ?fs1 n op = None" for n op using assms(1) by simp
  from RestoreAsset_ok(2) [of ?fs1 g lib dir, OF this assms(2,3)] RestoreAsset_ok(1) [of fs g lib dir, OF assms]
  show ?thesis by (simp add: RestoreAssets_eq)
qed

lemma restore_root_witness:
  "map (\<lambda>op. case op of WriteFile p b m \<Rightarrow> p | _ \<Rightarrow> []) (fs_calls (snd (the
     (RestoreAssets (demo_lib ([], [], [])) demo_assets ''/srv/tftp/'' [] \<lparr>fs_calls = [], fs_fail = (\<lambda>_ _. None)\<rparr>)))) =
   [[], ''/srv/tftp/ldlinux.c32'', [], [], ''/srv/tftp/lpxelinux.0'', []]"
proof -
  have "filePath ''/srv/tftp/'' ''ldlinux.c32'' = ''/srv/tftp/ldlinux.c32''"
    "filePath ''/srv/tftp/'' ''lpxelinux.0'' = ''/srv/tftp/lpxelinux.0''"
    by code_simp+
  then show ?thesis
    using restore_root [of "\<lparr>fs_calls = [], fs_fail = (\<lambda>_ _. None)\<rparr>" demo_assets "demo_lib ([], [], [])" "''/srv/tftp/''"]
    by (simp add: demo_gz_ok restore_calls_def)
qed

end
