(* ===== verification/Pixiecore_Main.thy ===== *)
theory Pixiecore_Main
  imports Dhcp_Server Pxe_Server Tftp_Delivery Http_Server Bindata_Assets
begin

text \<open>
  \<open>src/pixiecore/pixiecore.go\<close>: the flags, the choice of the booter and the program that
  starts the four servers. \<open>flag.Parse\<close> and the terminal are outside; a run of \<open>main\<close> is
  either an exit with a message or the list of servers it started.
\<close>

record flags =
  portDHCP :: int
  portPXE :: int
  portTFTP :: int
  portHTTP :: int
  apiServer :: string
  apiTimeout :: int
  kernelFile :: string
  initrdFile :: string
  kernelCmdline :: string
  debug :: bool

definition default_flags :: flags where
  "default_flags = \<lparr>portDHCP = 67, portPXE = 4011, portTFTP = 69, portHTTP = 70, apiServer = [],
     apiTimeout = 5 * 10 ^ 9, kernelFile = [], initrdFile = [], kernelCmdline = [], debug = False\<rparr>"

definition pickBooter :: "golib \<Rightarrow> flags \<Rightarrow> world \<Rightarrow> (string + booter) \<times> string list \<times> world" where
  "pickBooter lib fl w =
     (if apiServer fl \<noteq> [] then
        (if kernelFile fl \<noteq> [] then (Inl ''cannot provide -kernel with -api'', [], w)
         else if initrdFile fl \<noteq> [] then (Inl ''cannot provide -initrd with -api'', [], w)
         else if kernelCmdline fl \<noteq> [] then (Inl ''cannot provide -cmdline with -api'', [], w)
         else case RemoteBooter (apiServer fl) (apiTimeout fl) w of
           (Inl e, w) \<Rightarrow> (Inl e, [''Starting Pixiecore in API mode, with server '' @ apiServer fl], w)
         | (Inr b, w) \<Rightarrow>
             (Inr (remote_booter lib b), [''Starting Pixiecore in API mode, with server '' @ apiServer fl], w))
      else if kernelFile fl \<noteq> [] then
        (if apiServer fl \<noteq> [] then (Inl ''cannot provide -api with -kernel'', [], w)
         else if initrdFile fl = [] then (Inl ''must provide -initrd with -kernel'', [], w)
         else (Inr (static_booter lib
                     (StaticBooter (kernelFile fl) (split_on CHR '','' (initrdFile fl)) (kernelCmdline fl))),
               [''Starting Pixiecore in static mode''], w))
      else (Inl ''must specify either -api, or -kernel/-initrd'', [], w))"

text \<open>The four servers with the arguments they are started with.\<close>

datatype service =
  SvcProxyDHCP int booter
| SvcPXE int int
| SvcTFTP string handler
| SvcHTTP int booter bytes

datatype run = Exit int string | Running "service list" bool

definition main_prog :: "golib \<Rightarrow> assets_env \<Rightarrow> flags \<Rightarrow> world \<Rightarrow> run \<times> world" where
  "main_prog lib g fl w = (case pickBooter lib fl w of
      (Inl e, _, w) \<Rightarrow> (Exit 1 ([CHR 0x0A] @ ''ERROR: '' @ e @ [CHR 0x0A]), w)
    | (Inr bt, _, w) \<Rightarrow> (case Asset lib g ''lpxelinux.0'' of
        Inl e \<Rightarrow> (Exit 1 (e @ [CHR 0x0A]), w)
      | Inr pxelinux \<Rightarrow> (case Asset lib g ''ldlinux.c32'' of
          Inl e \<Rightarrow> (Exit 1 (e @ [CHR 0x0A]), w)
        | Inr ldl \<Rightarrow>
            (Running [SvcProxyDHCP (portDHCP fl) bt, SvcPXE (portPXE fl) (portHTTP fl),
                SvcTFTP ('':'' @ itoa (portTFTP fl)) (Blob pxelinux), SvcHTTP (portHTTP fl) bt ldl]
              (debug fl), w))))"

section \<open>Properties\<close>

definition mode_ok :: "flags \<Rightarrow> bool" where
  "mode_ok fl \<longleftrightarrow>
     (if apiServer fl = [] then kernelFile fl \<noteq> [] \<and> initrdFile fl \<noteq> []
      else kernelFile fl = [] \<and> initrdFile fl = [] \<and> kernelCmdline fl = [])"

lemma RemoteBooter_ok:
  assumes "32 \<le> length (reader_data (w_rand w))"
  shows "\<exists>w'. RemoteBooter url t w = (Inr \<lparr>client_timeout = t,
    urlPrefix = (if has_suffix url ''/'' then url else url @ ''/'') @ ''v1'',
    key = take 32 (reader_data (w_rand w))\<rparr>, w')"
proof -
  obtain k w' where rd: "rand_read 32 w = (Inr k, w')" using assms rand_read_Inr [of 32 w] by blast
  then have "k = take 32 (reader_data (w_rand w))" by (simp add: rand_read_Inr)
  with rd show ?thesis by (simp add: RemoteBooter_def)
qed

lemma pickBooter_ok:
  assumes "32 \<le> length (reader_data (w_rand w))" "mode_ok fl"
  shows "\<exists>bt ls w'. pickBooter lib fl w = (Inr bt, ls, w')"
proof -
  obtain b w' where "RemoteBooter (apiServer fl) (apiTimeout fl) w = (Inr b, w')"
    using RemoteBooter_ok [OF assms(1)] by blast
  with assms(2) show ?thesis by (simp add: pickBooter_def mode_ok_def split: if_splits)
qed

lemma pickBooter_bad: "\<not> mode_ok fl \<Longrightarrow> \<exists>e. pickBooter lib fl w = (Inl e, [], w)"
  by (cases "apiServer fl = []") (auto simp: pickBooter_def mode_ok_def)

text \<open>C34. The choice of the booter: API mode with exactly the API flag, static mode with a kernel
  and an initrd and no API server, an error in every other combination of flags. In API mode the
  prefix ends in \<open>/v1\<close> behind exactly one added slash at most, and the key is the first 32
  random bytes.\<close>

theorem pick_booter_exact:
  assumes "32 \<le> length (reader_data (w_rand w))"
  shows "\<exists>r ls w'. pickBooter lib fl w = (r, ls, w') \<and> (case r of
      Inl e \<Rightarrow> \<not> mode_ok fl \<and> w' = w
    | Inr bt \<Rightarrow> mode_ok fl \<and> bt =
        (if apiServer fl = [] then
           static_booter lib (StaticBooter (kernelFile fl) (split_on CHR '','' (initrdFile fl)) (kernelCmdline fl))
         else remote_booter lib \<lparr>client_timeout = apiTimeout fl,
           urlPrefix = (if has_suffix (apiServer fl) ''/'' then apiServer fl else apiServer fl @ ''/'') @ ''v1'',
           key = take 32 (reader_data (w_rand w))\<rparr>))"
proof -
  obtain w' where "RemoteBooter (apiServer fl) (apiTimeout fl) w = (Inr \<lparr>client_timeout = apiTimeout fl,
    urlPrefix = (if has_suffix (apiServer fl) ''/'' then apiServer fl else apiServer fl @ ''/'') @ ''v1'',
    key = take 32 (reader_data (w_rand w))\<rparr>, w')"
    using RemoteBooter_ok [OF assms] by blast
  then show ?thesis by (cases "apiServer fl = []") (simp_all add: pickBooter_def mode_ok_def)
qed

theorem pick_booter_exact_witness:
  "\<exists>bt ls w'. pickBooter (demo_lib ([], [], [])) (default_flags\<lparr>apiServer := ''http://api''\<rparr>)
     (demo_world \<lparr>StatusCode = 200, Body = buffer_reader []\<rparr>) = (Inr bt, ls, w')"
proof -
  let ?W = "demo_world \<lparr>StatusCode = 200, Body = buffer_reader []\<rparr>"
  let ?F = "default_flags\<lparr>apiServer := ''http://api''\<rparr>"
  have "32 \<le> length (reader_data (w_rand ?W))"
    by (simp add: demo_world_def reader_data_def)
  moreover have "mode_ok ?F" by (simp add: mode_ok_def default_flags_def)
  moreover obtain r ls w' where r: "pickBooter (demo_lib ([], [], [])) ?F ?W = (r, ls, w')"
    by (cases "pickBooter (demo_lib ([], [], [])) ?F ?W")
  ultimately have "r \<noteq> Inl e" for e
    using pick_booter_exact [of ?W "demo_lib ([], [], [])" ?F] by auto
  with r show ?thesis by (cases r) blast+
qed

text \<open>C35. With a working set of embedded files and enough randomness, the program starts its four
  servers exactly if the flags choose a mode, and exits with status 1 otherwise. The DHCP and
  the HTTP server share the booter, the TFTP server hands out \<open>lpxelinux.0\<close> and the HTTP server
  \<open>ldlinux.c32\<close>, and the PXE server announces the port on which the HTTP server listens.\<close>

theorem main_starts:
  assumes "32 \<le> length (reader_data (w_rand w))" "gz_ok g (ldlinux_gz g)" "gz_ok g (lpxelinux_gz g)"
  shows "if mode_ok fl then
      \<exists>bt w' ls. pickBooter lib fl w = (Inr bt, ls, w') \<and> main_prog lib g fl w =
        (Running [SvcProxyDHCP (portDHCP fl) bt, SvcPXE (portPXE fl) (portHTTP fl),
           SvcTFTP ('':'' @ itoa (portTFTP fl)) (Blob (unpacked g (lpxelinux_gz g))),
           SvcHTTP (portHTTP fl) bt (unpacked g (ldlinux_gz g))] (debug fl), w')
    else \<exists>msg. main_prog lib g fl w = (Exit 1 msg, w)"
proof -
  have names: "cannonicalName ''ldlinux.c32'' = ''ldlinux.c32''" "cannonicalName ''lpxelinux.0'' = ''lpxelinux.0''"
    by (simp_all add: cannonicalName_def replace_char_def)
  show ?thesis
  proof (cases "mode_ok fl")
    case True
    then obtain bt ls w' where "pickBooter lib fl w = (Inr bt, ls, w')"
      using pickBooter_ok [OF assms(1)] by blast
    with True show ?thesis
      using Asset_ldlinux [OF assms(2) names(1)] Asset_lpxelinux [OF assms(3) names(2)]
      by (simp add: main_prog_def)
  next
    case False
    then obtain e where "pickBooter lib fl w = (Inl e, [], w)" using pickBooter_bad by blast
    with False show ?thesis by (simp add: main_prog_def)
  qed
qed

theorem main_starts_witness:
  "\<exists>msg. main_prog (demo_lib ([], [], [])) demo_assets default_flags
     (demo_world \<lparr>StatusCode = 200, Body = buffer_reader []\<rparr>) =
     (Exit 1 msg, demo_world \<lparr>StatusCode = 200, Body = buffer_reader []\<rparr>)"
proof -
  have "32 \<le> length (reader_data (w_rand (demo_world \<lparr>StatusCode = 200, Body = buffer_reader []\<rparr>)))"
    by (simp add: demo_world_def reader_data_def)
  from main_starts [OF this demo_gz_ok(1) demo_gz_ok(1), of default_flags "demo_lib ([], [], [])"]
  show ?thesis by (simp add: mode_ok_def default_flags_def)
qed

text \<open>The check of \<open>-api\<close> in the static branch can never fail: the first branch has taken
  every run with an API server.\<close>

lemma api_with_kernel_dead: "fst (pickBooter lib fl w) \<noteq> Inl ''cannot provide -api with -kernel''"
proof (cases "RemoteBooter (apiServer fl) (apiTimeout fl) w")
  case (Pair r w')
  moreover have "r \<noteq> Inl ''cannot provide -api with -kernel''"
    using Pair by (cases "rand_read 32 w"; cases "fst (rand_read 32 w)") (auto simp: RemoteBooter_def)
  ultimately show ?thesis by (cases r) (simp_all add: pickBooter_def)
qed

end
