(* ===== verification/Boot_Chain.thy ===== *)
theory Boot_Chain
  imports Pixiecore_Main
begin

text \<open>
  How the four servers that \<open>main\<close> starts carry one machine from its first broadcast to the
  kernel, in static mode: the DHCP offer, the PXE reply, the transfer of pxelinux, the
  configuration and the files it names. Each step rests on the component that takes it; other
  events of other machines may come before, between and after.
\<close>

section \<open>The steps\<close>










section \<open>The files of a configuration\<close>







section \<open>Properties\<close>










end
