(* ===== verification/Example_Server.thy ===== *)
theory Example_Server
  imports Boot_Api Go_Http
begin

text \<open>
  \<open>src/example/main.go\<close>: the example API server. A handler that panics is \<open>None\<close>; the
  standard library then drops the connection.
\<close>

record ex_flags =
  ex_port :: int
  ex_kernelFile :: string
  ex_initrdFile :: string
  ex_kernelCmdline :: string

definition ex_default_flags :: ex_flags where
  "ex_default_flags = \<lparr>ex_port = 4242, ex_kernelFile = [], ex_initrdFile = [], ex_kernelCmdline = []\<rparr>"

definition ex_url :: "string \<Rightarrow> string \<Rightarrow> string" where
  "ex_url host p = ''http://'' @ host @ p"

text \<open>\<open>json_encode\<close> is the encoding of the three fields by \<open>encoding/json\<close>.\<close>

definition API ::
  "(string \<times> string list \<times> string \<Rightarrow> bytes) \<Rightarrow> ex_flags \<Rightarrow> writer \<Rightarrow> request \<Rightarrow> (writer \<times> string list) option" where
  "API json_encode fl w r =
     (let l = ''Serving boot config for '' @ filepath_base (url_path r);
          resp = (ex_url (Host r) ''/kernel'', [ex_url (Host r) ''/initrd''], ex_kernelCmdline fl) in
      case write_body (json_encode resp) w of
        ((n, Some e), w) \<Rightarrow> None
      | ((n, None), w) \<Rightarrow> Some (w, [l]))"

definition serveFile :: "string \<Rightarrow> writer \<Rightarrow> world \<Rightarrow> (writer \<times> string list) option" where
  "serveFile path w wd = (case fst (os_open path wd) of
      Inl e \<Rightarrow> None
    | Inr f \<Rightarrow> (case copy_to f w of
        ((n, Some e), w) \<Rightarrow> None
      | ((n, None), w) \<Rightarrow> Some (w, [''Serving file '' @ path])))"

datatype ex_handler = ExAPI | ExKernel | ExInitrd

definition ex_handlers :: "(string \<times> ex_handler) list" where
  "ex_handlers = [(''/v1/boot/'', ExAPI), (''/kernel'', ExKernel), (''/initrd'', ExInitrd)]"

text \<open>One request to the server that \<open>main\<close> sets up.\<close>

datatype ex_answer = ExResponse writer | ExMoved string | ExNotFound | ExPanic

definition ex_request ::
  "(string \<times> string list \<times> string \<Rightarrow> bytes) \<Rightarrow> ex_flags \<Rightarrow> request \<Rightarrow> (nat \<times> string) option \<Rightarrow> world \<Rightarrow> ex_answer" where
  "ex_request json_encode fl r brk wd = (case mux_route ex_handlers r of
      Redirect p \<Rightarrow> ExMoved p
    | NotFound \<Rightarrow> ExNotFound
    | Run h \<Rightarrow> (case (case h of
          ExAPI \<Rightarrow> API json_encode fl (new_writer brk) r
        | ExKernel \<Rightarrow> serveFile (ex_kernelFile fl) (new_writer brk) wd
        | ExInitrd \<Rightarrow> serveFile (ex_initrdFile fl) (new_writer brk) wd) of
          None \<Rightarrow> ExPanic
        | Some (w, ls) \<Rightarrow> ExResponse w))"

section \<open>The example server behind a remote booter\<close>

text \<open>A \<open>GET\<close> of a URL below \<open>http://host\<close>, answered by the example server.\<close>

definition ex_get ::
  "(string \<times> string list \<times> string \<Rightarrow> bytes) \<Rightarrow> ex_flags \<Rightarrow> world \<Rightarrow> string \<Rightarrow> string \<Rightarrow> string + response" where
  "ex_get json_encode fl wd host u =
     (if has_prefix u (ex_url host []) then
        (case ex_request json_encode fl \<lparr>Method = ''GET'', url_path = drop (7 + length host) u, url_string = u,
            RemoteAddr = [], Host = host\<rparr> None wd of
           ExResponse w \<Rightarrow> Inr \<lparr>StatusCode = status w, Body = buffer_reader (sent w)\<rparr>
         | ExMoved p \<Rightarrow> Inr \<lparr>StatusCode = 301, Body = buffer_reader []\<rparr>
         | ExNotFound \<Rightarrow> Inr \<lparr>StatusCode = 404, Body = buffer_reader []\<rparr>
         | ExPanic \<Rightarrow> Inl ''EOF'')
      else Inl ''no such host'')"

lemma absolute_http: "url_check lib (ex_url host p) = None \<Longrightarrow> absolute_url lib (ex_url host p)"
  by (simp add: absolute_url_def url_parse_def ex_url_def is_letter_def is_scheme_tail_def digit_val_def is_abs_def)

lemma route_ex_api:
  assumes "e \<notin> {[], ''.'', ''..''}" "CHR ''/'' \<notin> set e"
  shows "Method r = ''GET'' \<Longrightarrow> url_path r = ''/v1/boot/'' @ e \<Longrightarrow> mux_route ex_handlers r = Run ExAPI"
proof -
  assume "Method r = ''GET''" "url_path r = ''/v1/boot/'' @ e"
  moreover have "clean_path (''/v1/boot/'' @ e) = ''/v1/boot/'' @ e"
  proof -
    have "split_on CHR ''/'' (''/v1/boot/'' @ e) = [[], ''v1'', ''boot'', e]"
      using assms by simp
    moreover have "last (''/v1/boot/'' @ e) \<noteq> CHR ''/''" using assms by (metis insertI1 last_appendR last_in_set)
    ultimately show ?thesis using assms by (simp add: clean_path_def)
  qed
  ultimately show ?thesis
    by (simp add: mux_route_def mux_handler_def ex_handlers_def mux_entries_def path_match_def has_prefix_def)
qed

lemma route_ex_files:
  "Method r = ''GET'' \<Longrightarrow> url_path r = ''/kernel'' \<Longrightarrow> mux_route ex_handlers r = Run ExKernel"
  "Method r = ''GET'' \<Longrightarrow> url_path r = ''/initrd'' \<Longrightarrow> mux_route ex_handlers r = Run ExInitrd"
  by (simp_all add: mux_route_def mux_handler_def ex_handlers_def mux_entries_def path_match_def
      has_prefix_def clean_path_def)

lemma hw_string_path:
  assumes "valid_mac m"
  shows "hw_string m \<notin> {[], ''.'', ''..''}" "CHR ''/'' \<notin> set (hw_string m)"
proof -
  have "length (hw_string m) + 1 = 3 * length m"
    using assms by (intro length_hw_format) (auto simp: valid_mac_def)
  with assms show "hw_string m \<notin> {[], ''.'', ''..''}" by (auto simp: valid_mac_def)
  show "CHR ''/'' \<notin> set (hw_string m)" by (rule hw_format_plain) simp_all
qed

lemma ex_path: "drop (7 + length host) (ex_url host p) = p" "has_prefix (ex_url host p) (ex_url host [])"
  by (simp_all add: ex_url_def has_prefix_def eval_nat_numeral)

lemma ex_get_path:
  "ex_get je fl wd host (ex_url host p) =
     (case ex_request je fl \<lparr>Method = ''GET'', url_path = p, url_string = ex_url host p,
            RemoteAddr = [], Host = host\<rparr> None wd of
        ExResponse w \<Rightarrow> Inr \<lparr>StatusCode = status w, Body = buffer_reader (sent w)\<rparr>
      | ExMoved p \<Rightarrow> Inr \<lparr>StatusCode = 301, Body = buffer_reader []\<rparr>
      | ExNotFound \<Rightarrow> Inr \<lparr>StatusCode = 404, Body = buffer_reader []\<rparr>
      | ExPanic \<Rightarrow> Inl ''EOF'')"
  by (simp add: ex_get_def ex_path)

lemma serveFile_ok:
  assumes "w_fs wd path = Inr f" "final f = EOF"
  shows "\<exists>w ls. serveFile path (new_writer None) wd = Some (w, ls) \<and> status w = 200 \<and> sent w = reader_data f"
  using assms copy_to_ok [of "new_writer None" f] copy_to_status [of "new_writer None" f]
  by (cases "copy_to f (new_writer None)") (auto simp: serveFile_def os_open_def)

lemma ex_get_file:
  "w_fs wd (ex_kernelFile fl) = Inr f \<Longrightarrow> final f = EOF \<Longrightarrow>
     ex_get je fl wd host (ex_url host ''/kernel'') = Inr \<lparr>StatusCode = 200, Body = buffer_reader (reader_data f)\<rparr>"
  "w_fs wd (ex_initrdFile fl) = Inr f \<Longrightarrow> final f = EOF \<Longrightarrow>
     ex_get je fl wd host (ex_url host ''/initrd'') = Inr \<lparr>StatusCode = 200, Body = buffer_reader (reader_data f)\<rparr>"
  by (frule (1) serveFile_ok, auto simp: ex_get_path ex_request_def route_ex_files)+

lemma ex_get_api:
  assumes "valid_mac m"
  shows "ex_get je fl wd host (ex_url host (''/v1/boot/'' @ hw_string m)) = Inr \<lparr>StatusCode = 200, Body =
    buffer_reader (je (ex_url host ''/kernel'', [ex_url host ''/initrd''], ex_kernelCmdline fl))\<rparr>"
proof -
  let ?r = "\<lparr>Method = ''GET'', url_path = ''/v1/boot/'' @ hw_string m,
    url_string = ex_url host (''/v1/boot/'' @ hw_string m), RemoteAddr = [], Host = host\<rparr>"
  let ?resp = "(ex_url host ''/kernel'', [ex_url host ''/initrd''], ex_kernelCmdline fl)"
  have route: "mux_route ex_handlers ?r = Run ExAPI"
    using route_ex_api [OF hw_string_path [OF assms], of ?r] by simp
  obtain w where "write_body (je ?resp) (new_writer None) = ((length (je ?resp), None), w)"
    and "sent w = je ?resp" "status w = 200"
    using write_body_ok [of "new_writer None" "je ?resp"] write_body_code(1) [of "je ?resp" "new_writer None"]
    by (cases "write_body (je ?resp) (new_writer None)") (auto simp: status_def)
  then have "ex_request je fl ?r None wd = ExResponse w"
    using route by (simp add: ex_request_def API_def)
  then show ?thesis
    unfolding ex_get_path using \<open>sent w = je ?resp\<close> \<open>status w = 200\<close> by simp
qed

section \<open>Properties\<close>

text \<open>C36. The example server and the remote booter fit together: for every hardware address the
  booter accepts the server's answer and gets exactly that server's kernel URL, its one initrd URL
  and the configured command line, and fetching the two URLs delivers the kernel file and the
  initrd file. JSON decoding is assumed to invert encoding, the two URLs to pass the checks of
  \<open>url.Parse\<close>, and the two files to be readable.\<close>

theorem example_boots:
  assumes "valid_mac m" "urlPrefix b = ex_url host ''/v1''"
    and "w_http w = (\<lambda>n u. ex_get je fl wd host u)"
    and "resp = (ex_url host ''/kernel'', [ex_url host ''/initrd''], ex_kernelCmdline fl)"
    and "json_decode lib (buffer_reader (je resp)) = Inr resp"
    and "url_check lib (ex_url host ''/kernel'') = None" "url_check lib (ex_url host ''/initrd'') = None"
    and "w_fs wd (ex_kernelFile fl) = Inr f" "final f = EOF"
    and "w_fs wd (ex_initrdFile fl) = Inr f'" "final f' = EOF"
  shows "\<exists>w'. getSpec lib b m w =
      (Inr (''http://'' @ host @ ''/kernel'', [''http://'' @ host @ ''/initrd''], ex_kernelCmdline fl), w') \<and>
    fst (remote_fetch (''http://'' @ host @ ''/kernel'') w') = Inr (buffer_reader (reader_data f)) \<and>
    fst (remote_fetch (''http://'' @ host @ ''/initrd'') w') = Inr (buffer_reader (reader_data f'))"
proof -
  let ?k = "ex_url host ''/kernel''" and ?i = "ex_url host ''/initrd''"
  let ?w = "w\<lparr>w_gets := w_gets w @ [api_url b m]\<rparr>"
  have "api_url b m = ex_url host (''/v1/boot/'' @ hw_string m)"
    using assms(2) by (simp add: api_url_def ex_url_def)
  then have "getSpec lib b m w = (Inr (?k, [?i], ex_kernelCmdline fl), ?w)"
    unfolding getSpec_Inr using ex_get_api [OF assms(1), of je fl wd host] assms(3,4,5) absolute_http [OF assms(6)]
      absolute_http [OF assms(7)]
    by auto
  moreover have "fst (remote_fetch ?k ?w) = Inr (buffer_reader (reader_data f))"
    "fst (remote_fetch ?i ?w) = Inr (buffer_reader (reader_data f'))"
    using ex_get_file(1) [OF assms(8,9), of je host] ex_get_file(2) [OF assms(10,11), of je host] assms(3)
    by (simp_all add: remote_fetch_def http_get_def)
  ultimately show ?thesis unfolding ex_url_def by blast
qed

definition demo_fl :: ex_flags where
  "demo_fl = ex_default_flags\<lparr>ex_kernelFile := ''vmlinuz'', ex_initrdFile := ''core.gz'', ex_kernelCmdline := ''quiet''\<rparr>"

theorem example_boots_witness:
  "\<exists>w'. getSpec (demo_lib (ex_url ''api'' ''/kernel'', [ex_url ''api'' ''/initrd''], ''quiet''))
       \<lparr>client_timeout = 5, urlPrefix = ex_url ''api'' ''/v1'', key = []\<rparr> [2, 0, 0, 0, 0, 7]
       ((demo_world \<lparr>StatusCode = 200, Body = buffer_reader []\<rparr>)\<lparr>w_http :=
          (\<lambda>n u. ex_get (\<lambda>_. []) demo_fl (demo_world \<lparr>StatusCode = 200, Body = buffer_reader []\<rparr>) ''api'' u)\<rparr>) =
     (Inr (''http://api/kernel'', [''http://api/initrd''], ''quiet''), w') \<and>
     fst (remote_fetch ''http://api/initrd'' w') = Inr (buffer_reader (bytes_of ''core.gz''))"
proof -
  let ?W = "demo_world \<lparr>StatusCode = 200, Body = buffer_reader []\<rparr>"
  have "w_fs ?W (ex_kernelFile demo_fl) = Inr (buffer_reader (bytes_of ''vmlinuz''))"
    "w_fs ?W (ex_initrdFile demo_fl) = Inr (buffer_reader (bytes_of ''core.gz''))"
    "ex_kernelCmdline demo_fl = ''quiet''" by (simp_all add: demo_world_def demo_fl_def)
  moreover have "final (buffer_reader b) = EOF" "reader_data (buffer_reader b) = b" for b
    by (simp_all add: buffer_reader_def reader_data_def)
  ultimately show ?thesis
    using example_boots [of "[2, 0, 0, 0, 0, 7]" "\<lparr>client_timeout = 5, urlPrefix = ex_url ''api'' ''/v1'', key = []\<rparr>"
        "''api''" "?W\<lparr>w_http := (\<lambda>n u. ex_get (\<lambda>_. []) demo_fl ?W ''api'' u)\<rparr>" "\<lambda>_. []" demo_fl ?W
        "(ex_url ''api'' ''/kernel'', [ex_url ''api'' ''/initrd''], ''quiet'')"
        "demo_lib (ex_url ''api'' ''/kernel'', [ex_url ''api'' ''/initrd''], ''quiet'')"
        "buffer_reader (bytes_of ''vmlinuz'')" "buffer_reader (bytes_of ''core.gz'')"]
    by (auto simp: valid_mac_def demo_lib_def)
qed

end
