(* ===== verification/Pixiecore_System.thy ===== *)
theory Pixiecore_System
  imports Pixiecore_Main
begin

text \<open>
  The running program as a transition system: the four servers of \<open>main\<close> take their turns in
  any order over one shared world, and the transfers that the TFTP server has started go on
  beside them. A turn of a server, one read of a transfer and one HTTP request are the steps.
  Two ghost components record which file ids were sent to clients and which URLs the API
  server named; no step depends on them.
\<close>

section \<open>States and steps\<close>

record conf =
  cf_lib :: golib
  cf_ifaces :: "int \<Rightarrow> string + iface"
  cf_booter :: booter
  cf_httpPort :: int
  cf_http :: httpServer
  cf_boot :: bytes
  cf_dial :: "udp_addr \<Rightarrow> string option"

record sys =
  st_dhcp :: bytes
  st_pxe :: bytes
  st_tftp :: bytes
  st_world :: world
  st_transfers :: "(udp_addr \<times> rrq \<times> rx list) list"
  st_net :: "action list"
  st_http :: "answer list"
  st_issued :: "string set"
  st_named :: "string set"

definition sys_init :: "world \<Rightarrow> sys" where
  "sys_init w = \<lparr>st_dhcp = replicate 1024 0, st_pxe = replicate 1024 0, st_tftp = replicate 512 0,
     st_world = w, st_transfers = [], st_net = [], st_http = [], st_issued = {}, st_named = {}\<rparr>"

text \<open>The new transfers among the outputs of a turn of the TFTP server.\<close>

fun spawned :: "srv list \<Rightarrow> (udp_addr \<times> rrq \<times> rx list) list" where
  "spawned [] = []"
| "spawned (SrvSpawn a q # os) = (a, q, []) # spawned os"
| "spawned (SrvLog l # os) = spawned os"
| "spawned (SrvReply b a # os) = spawned os"

text \<open>The ids a configuration request makes the server send, and the URLs the API server of a
  remote booter names in answer to it.\<close>

definition config_for :: "request \<Rightarrow> mac option" where
  "config_for r = (if mux_route handlers r = Run HPxelinuxConfig then config_mac r else None)"

definition ids_sent :: "booter \<Rightarrow> request \<Rightarrow> world \<Rightarrow> string set" where
  "ids_sent bt r w = (case config_for r of
      None \<Rightarrow> {}
    | Some m \<Rightarrow> (case fst (GetBootSpec bt m w) of Inl e \<Rightarrow> {} | Inr sp \<Rightarrow> set (Kernel sp # Initrd sp)))"

definition urls_named :: "golib \<Rightarrow> remoteBooter \<Rightarrow> request \<Rightarrow> world \<Rightarrow> string set" where
  "urls_named lib b r w = (case config_for r of
      None \<Rightarrow> {}
    | Some m \<Rightarrow> (case fst (getSpec lib b m w) of Inl e \<Rightarrow> {} | Inr (k, is, c) \<Rightarrow> set (k # is)))"

inductive sys_step :: "conf \<Rightarrow> remoteBooter \<Rightarrow> (sys \<Rightarrow> request \<Rightarrow> bool) \<Rightarrow> sys \<Rightarrow> sys \<Rightarrow> bool"
  for cf b may where
  step_dhcp: "dhcp_turn (cf_ifaces cf) (cf_booter cf) ev (st_dhcp s, st_world s) = Some (os, buf, w) \<Longrightarrow>
     sys_step cf b may s (s\<lparr>st_dhcp := buf, st_world := w, st_net := st_net s @ os\<rparr>)"
| step_pxe: "pxe_turn (cf_ifaces cf) (cf_httpPort cf) ev (st_pxe s, st_world s) = Some (os, buf, w) \<Longrightarrow>
     sys_step cf b may s (s\<lparr>st_pxe := buf, st_world := w, st_net := st_net s @ os\<rparr>)"
| step_tftp: "tftp_turn (cf_lib cf) tev (st_tftp s, ()) = Some (os', buf, u) \<Longrightarrow>
     sys_step cf b may s (s\<lparr>st_tftp := buf, st_transfers := st_transfers s @ spawned os'\<rparr>)"
| step_transfer: "i < length (st_transfers s) \<Longrightarrow> st_transfers s ! i = (a, q, es) \<Longrightarrow>
     transfer (cf_lib cf) (cf_dial cf) a q (Blob (cf_boot cf)) es = Some (Waiting, out) \<Longrightarrow>
     sys_step cf b may s (s\<lparr>st_transfers := (st_transfers s)[i := (a, q, es @ [x])]\<rparr>)"
| step_http: "may s r \<Longrightarrow> http_request (cf_lib cf) (cf_http cf) (r, brk) (st_world s) = Some (ans, ls, w) \<Longrightarrow>
     sys_step cf b may s (s\<lparr>st_world := w, st_http := st_http s @ [ans],
       st_issued := st_issued s \<union> ids_sent (cf_booter cf) r (st_world s),
       st_named := st_named s \<union> urls_named (cf_lib cf) b r (st_world s)\<rparr>)"

inductive reachable :: "conf \<Rightarrow> remoteBooter \<Rightarrow> (sys \<Rightarrow> request \<Rightarrow> bool) \<Rightarrow> world \<Rightarrow> sys \<Rightarrow> bool"
  for cf b may w0 where
  reach_init: "reachable cf b may w0 (sys_init w0)"
| reach_step: "reachable cf b may w0 s \<Longrightarrow> sys_step cf b may s s' \<Longrightarrow> reachable cf b may w0 s'"

inductive_cases sys_stepE: "sys_step cf b may s s'"

section \<open>No server ever panics\<close>

definition sizes_ok :: "sys \<Rightarrow> bool" where
  "sizes_ok s \<longleftrightarrow> length (st_dhcp s) = 1024 \<and> length (st_pxe s) = 1024 \<and> length (st_tftp s) = 512"

lemma turn_sizes:
  "length buf = 1024 \<Longrightarrow> dhcp_turn ifs bt ev (buf, w) = Some (os, buf', w') \<Longrightarrow> length buf' = 1024"
  "length buf = 1024 \<Longrightarrow> pxe_turn ifs hp ev (buf, w) = Some (os, buf', w') \<Longrightarrow> length buf' = 1024"
  "length buf = 512 \<Longrightarrow> tftp_turn lib tev (buf, u) = Some (os', buf', u') \<Longrightarrow> length buf' = 512"
  using dserv.step_respond [of buf ifs bt ev w] pserv.step_respond [of buf ifs hp ev w]
    tserv.step_respond [of buf lib tev u]
  by auto

lemma sizes_ok_step: "sizes_ok s \<Longrightarrow> sys_step cf b may s s' \<Longrightarrow> sizes_ok s'"
  by (erule sys_stepE) (auto simp: sizes_ok_def dest: turn_sizes)

lemma reachable_sizes: "reachable cf b may w0 s \<Longrightarrow> sizes_ok s"
  by (induction rule: reachable.induct) (auto simp: sizes_ok_step, simp add: sizes_ok_def sys_init_def)

lemma transfer_returns: "\<exists>oc out. transfer lib dial a q (Blob d) es = Some (oc, out)"
proof (cases "dial a")
  case None
  have "Blob d (Filename q) a = Inr (buffer_reader d)" "final (buffer_reader d) = EOF"
    by (simp_all add: Blob_def buffer_reader_def)
  from transfer_received [where dial = dial and lib = lib and es = es and handler = "Blob d", OF None this]
  show ?thesis by blast
qed (simp add: transfer_def)

section \<open>The URLs an API-mode server fetches\<close>

text \<open>Clients cannot forge ids: an id that they request either was sent to some client or does
  not open under the key.\<close>

definition unforgeable :: "golib \<Rightarrow> remoteBooter \<Rightarrow> sys \<Rightarrow> request \<Rightarrow> bool" where
  "unforgeable lib b s r \<longleftrightarrow> (\<forall>fid u. b64_decode (filepath_base (url_path r)) = Some fid \<longrightarrow>
     getURL lib b (string_of fid) = Some (Inr u) \<longrightarrow> string_of fid \<in> st_issued s)"

definition api_mode :: "conf \<Rightarrow> remoteBooter \<Rightarrow> bool" where
  "api_mode cf b \<longleftrightarrow> cf_booter cf = remote_booter (cf_lib cf) b \<and> srv_booter (cf_http cf) = cf_booter cf"

definition fetches_ok :: "conf \<Rightarrow> remoteBooter \<Rightarrow> world \<Rightarrow> sys \<Rightarrow> bool" where
  "fetches_ok cf b w0 s \<longleftrightarrow>
     set (w_gets (st_world s)) \<subseteq> set (w_gets w0) \<union> range (api_url b) \<union> st_named s \<and>
     (\<forall>f\<in>st_issued s. \<exists>u\<in>st_named s. getURL (cf_lib cf) b f = Some (Inr u))"

lemma signURL_gets [simp]: "w_gets (snd (signURL lib b u w)) = w_gets w"
  using rand_read_gets [of 24 w]
  by (cases "rand_read 24 w") (auto simp: signURL_def split: sum.split)

lemma signURLs_gets [simp]: "w_gets (snd (signURLs lib b us w)) = w_gets w"
proof (induction us arbitrary: w)
  case (Cons u us)
  obtain r w1 where "signURL lib b u w = (r, w1)" by fastforce
  moreover obtain r' w2 where "signURLs lib b us w1 = (r', w2)" by fastforce
  ultimately show ?case
    using signURL_gets [of lib b u w] Cons.IH [of w1] by (cases r; cases r') auto
qed simp

lemma remote_BootSpec_gets: "w_gets (snd (remote_BootSpec lib b m w)) = w_gets w @ [api_url b m]"
proof -
  obtain r w1 where spec: "getSpec lib b m w = (r, w1)" by fastforce
  then have w1: "w_gets w1 = w_gets w @ [api_url b m]" using getSpec_world [of lib b m w] by simp
  show ?thesis
  proof (cases r)
    case (Inr x)
    obtain k us c where x: "x = (k, us, c)" by (cases x)
    obtain rk w2 where "signURL lib b k w1 = (rk, w2)" by fastforce
    moreover obtain ri w3 where "signURLs lib b us w2 = (ri, w3)" by fastforce
    ultimately show ?thesis
      using spec w1 Inr x signURL_gets [of lib b k w1] signURLs_gets [of lib b us w2]
      by (cases rk; cases ri) (auto simp: remote_BootSpec_def)
  qed (use spec w1 in \<open>simp add: remote_BootSpec_def\<close>)
qed

lemma remote_gets:
  "w_gets (snd (ShouldBoot (remote_booter lib b) m w)) = w_gets w @ [api_url b m]"
  "w_gets (snd (GetBootSpec (remote_booter lib b) m w)) = w_gets w @ [api_url b m]"
  "GetFile (remote_booter lib b) f w = Some (x, w') \<Longrightarrow>
     w_gets w' = (case getURL lib b f of Some (Inr u) \<Rightarrow> w_gets w @ [u] | _ \<Rightarrow> w_gets w)"
  using getSpec_world [of lib b m w]
  by (auto simp: remote_booter_def remote_ShouldBoot_def remote_BootSpec_gets remote_File_def http_get_def
      split: prod.splits sum.splits option.splits)

lemma dhcp_respond_world:
  "snd (dhcp_respond ifs bt ev w) = w \<or> (\<exists>m. snd (dhcp_respond ifs bt ev w) = snd (ShouldBoot bt m w))"
  by (auto simp: dhcp_respond_def split: sum.split prod.split option.split) (metis snd_conv)+

lemma pxe_respond_world: "snd (pxe_respond ifs hp ev w) = w"
  by (auto simp: pxe_respond_def split: sum.split prod.split)

lemma http_request_world:
  assumes "http_request lib s (r, brk) w = Some (a, ls, w')"
  shows "(config_for r = None \<and> w' = w) \<or>
    (\<exists>m. config_for r = Some m \<and> w' = snd (GetBootSpec (srv_booter s) m w)) \<or>
    (\<exists>fid x. config_for r = None \<and> b64_decode (filepath_base (url_path r)) = Some fid \<and>
       GetFile (srv_booter s) (string_of fid) w = Some (x, w'))"
proof (cases "mux_route handlers r")
  case (Run h)
  show ?thesis
  proof (cases h)
    case HLdlinux
    with Run assms show ?thesis by (auto simp: http_request_def config_for_def Ldlinux_def)
  next
    case HPxelinuxConfig
    with Run assms show ?thesis
      using PxelinuxConfig_mac [of r _ lib s "new_writer brk" w] PxelinuxConfig_no_mac [of r lib s "new_writer brk" w]
      by (cases "config_mac r") (auto simp: http_request_def config_for_def split: prod.splits sum.splits)
  next
    case HFile
    with Run assms show ?thesis
      by (cases "b64_decode (filepath_base (url_path r))")
        (auto simp: http_request_def config_for_def File_def split: prod.splits sum.splits bind_splits option.splits)
  qed
qed (use assms in \<open>auto simp: http_request_def config_for_def\<close>)

lemma file_request_gets:
  assumes "f \<noteq> []" "getURL lib b f = Some (Inr u)"
    and "http_request lib s (get c (encode_id f), brk) w = Some (a, ls, w')" "srv_booter s = remote_booter lib b"
  shows "w_gets w' = w_gets w @ [u]"
proof -
  obtain x v where x: "GetFile (srv_booter s) f w = Some (x, v)"
    using booters_total(2) [of lib b] assms(4) by (fastforce simp: file_total_def)
  with assms(1,3) have "v = w'"
    by (cases x) (auto simp: http_request_def route_file File_id split: prod.splits option.splits)
  with x assms(2,4) remote_gets(3) [of lib b f w x v] show ?thesis by simp
qed

lemma ids_urls:
  assumes "box_correct lib" "f \<in> ids_sent (remote_booter lib b) r w"
  shows "\<exists>u\<in>urls_named lib b r w. getURL lib b f = Some (Inr u)"
proof -
  obtain m sp w' where m: "config_for r = Some m" "remote_BootSpec lib b m w = (Inr sp, w')"
    and f: "f \<in> set (Kernel sp # Initrd sp)"
    using assms(2)
    by (cases "config_for r"; cases "remote_BootSpec lib b (the (config_for r)) w")
      (auto simp: ids_sent_def remote_booter_def split: sum.splits)
  from m(2) obtain k us w1 w2 where spec: "getSpec lib b m w = (Inr (k, us, Cmdline sp), w1)"
    and "signURL lib b k w1 = (Inr (Kernel sp), w2)" "signURLs lib b us w2 = (Inr (Initrd sp), w')"
    by (rule remote_BootSpec_Inr)
  then have "getURL lib b (Kernel sp) = Some (Inr k)"
    "list_all2 (\<lambda>u s. getURL lib b s = Some (Inr u) \<and> 24 \<le> length s) us (Initrd sp)"
    using signURL_getURL(1) [OF assms(1)] signURLs_getURL [OF assms(1)] by blast+
  with f have "\<exists>u\<in>set (k # us). getURL lib b f = Some (Inr u)"
    by (fastforce simp: list_all2_conv_all_nth in_set_conv_nth)
  with m(1) spec show ?thesis by (simp add: urls_named_def)
qed

lemma fetches_ok_http:
  assumes "api_mode cf b" "box_correct (cf_lib cf)" "fetches_ok cf b w0 s" "unforgeable (cf_lib cf) b s r"
    and "http_request (cf_lib cf) (cf_http cf) (r, brk) (st_world s) = Some (ans, ls, w)"
  shows "fetches_ok cf b w0 (s\<lparr>st_world := w, st_http := x,
    st_issued := st_issued s \<union> ids_sent (cf_booter cf) r (st_world s),
    st_named := st_named s \<union> urls_named (cf_lib cf) b r (st_world s)\<rparr>)"
proof -
  have bt: "srv_booter (cf_http cf) = remote_booter (cf_lib cf) b" "cf_booter cf = remote_booter (cf_lib cf) b"
    using assms(1) by (simp_all add: api_mode_def)
  have "set (w_gets w) \<subseteq> set (w_gets (st_world s)) \<union> range (api_url b) \<union> st_named s"
    using http_request_world [OF assms(5)] assms(3,4)
    by (auto simp: bt remote_gets fetches_ok_def unforgeable_def split: sum.splits option.splits)
      (metis option.inject sum.inject(2))+
  with assms(3) ids_urls [OF assms(2)] show ?thesis
    unfolding fetches_ok_def bt by (auto; blast)
qed

lemma fetches_ok_step:
  assumes "api_mode cf b" "box_correct (cf_lib cf)" "sizes_ok s" "fetches_ok cf b w0 s"
    and "sys_step cf b (unforgeable (cf_lib cf) b) s s'"
  shows "fetches_ok cf b w0 s'"
  using assms(5)
proof cases
  case (step_dhcp ev os buf w)
  have "w = snd (dhcp_respond (cf_ifaces cf) (cf_booter cf) ev (st_world s))"
    using dserv.step_respond [of "st_dhcp s" "cf_ifaces cf" "cf_booter cf" ev "st_world s"] step_dhcp assms(3)
    by (auto simp: sizes_ok_def)
  then have "set (w_gets w) \<subseteq> set (w_gets (st_world s)) \<union> range (api_url b)"
    using dhcp_respond_world [of "cf_ifaces cf" "cf_booter cf" ev "st_world s"] assms(1)
    by (auto simp: api_mode_def remote_gets)
  with assms(4) step_dhcp show ?thesis by (auto simp: fetches_ok_def)
next
  case (step_pxe ev os buf w)
  have "w = st_world s"
    using pserv.step_respond [of "st_pxe s" "cf_ifaces cf" "cf_httpPort cf" ev "st_world s"] step_pxe assms(3)
    by (auto simp: sizes_ok_def pxe_respond_world)
  with assms(4) step_pxe show ?thesis by (simp add: fetches_ok_def)
next
  case (step_http r brk ans ls w)
  then show ?thesis using fetches_ok_http [OF assms(1,2,4)] by simp
qed (use assms(4) in \<open>simp_all add: fetches_ok_def\<close>)

section \<open>Properties\<close>

text \<open>The booters that \<open>main\<close> can hand to the HTTP server.\<close>

definition main_booter :: "golib \<Rightarrow> booter \<Rightarrow> bool" where
  "main_booter lib bt \<longleftrightarrow> (\<exists>sb. bt = static_booter lib sb) \<or> (\<exists>rb. bt = remote_booter lib rb)"

lemma main_booter_total: "main_booter lib bt \<Longrightarrow> file_total bt"
  unfolding main_booter_def using booters_total by blast

text \<open>A small program in API mode, and a state it reaches: a client has started a transfer of the
  bootloader, has asked for its configuration and has fetched the kernel of that configuration.\<close>

definition demo_golib2 :: golib where
  "demo_golib2 = demo_lib (''http://k'', [''http://i''], ''c'')"

definition demo_conf :: conf where
  "demo_conf = \<lparr>cf_lib = demo_golib2, cf_ifaces = demo_ifaces, cf_booter = remote_booter demo_golib2 demo_booter,
     cf_httpPort = 70, cf_http = \<lparr>srv_booter = remote_booter demo_golib2 demo_booter, ldlinux = [], srv_key = []\<rparr>,
     cf_boot = [], cf_dial = (\<lambda>_. None)\<rparr>"

abbreviation demo_may :: "sys \<Rightarrow> request \<Rightarrow> bool" where
  "demo_may \<equiv> unforgeable demo_golib2 demo_booter"

lemma demo_conf_simps [simp]:
  "cf_lib demo_conf = demo_golib2" "cf_booter demo_conf = remote_booter demo_golib2 demo_booter"
  "cf_ifaces demo_conf = demo_ifaces" "cf_httpPort demo_conf = 70" "cf_boot demo_conf = []"
  "srv_booter (cf_http demo_conf) = remote_booter demo_golib2 demo_booter"
  by (simp_all add: demo_conf_def)

lemma demo_config_may: "demo_may s (get c (config_path [2, 0, 0, 0, 0, 7]))"
proof -
  have "map_option length (b64_decode (''01-'' @ hw_format CHR ''-'' [2, 0, 0, 0, 0, 7])) = Some 15" by code_simp
  then show ?thesis by (auto simp: unforgeable_def config_base getURL_eq)
qed

lemma demo_reach_transfer:
  "\<exists>s. reachable demo_conf demo_booter demo_may demo_wd s \<and> st_world s = demo_wd \<and>
     st_transfers s = [(a, \<lparr>Filename = ''boot'', BlockSize = 0\<rparr>, [])]"
proof -
  let ?ev = "Inr (client_rrq ''boot'' [], a)"
  have "fst (tftp_respond demo_golib2 ?ev ()) = [SrvSpawn a \<lparr>Filename = ''boot'', BlockSize = 0\<rparr>]"
    using parseRRQ_client [of "''boot''" "[]"]
    by (simp add: tftp_respond_def bytes_of_Cons) (simp add: client_rrq_def)
  with tserv.step_respond [of "replicate 512 0" demo_golib2 ?ev "()"] obtain buf where
    "tftp_turn demo_golib2 ?ev (replicate 512 0, ()) = Some ([SrvSpawn a \<lparr>Filename = ''boot'', BlockSize = 0\<rparr>], buf, ())"
    by auto
  then have "sys_step demo_conf demo_booter demo_may (sys_init demo_wd) ((sys_init demo_wd)\<lparr>st_tftp := buf,
      st_transfers := st_transfers (sys_init demo_wd) @ spawned [SrvSpawn a \<lparr>Filename = ''boot'', BlockSize = 0\<rparr>]\<rparr>)"
    by (intro step_tftp [where u = "()"]) (simp add: sys_init_def)
  from reach_step [OF reach_init this] show ?thesis by (force simp: sys_init_def)
qed

lemma demo_reach_config:
  "\<exists>s f. reachable demo_conf demo_booter demo_may demo_wd s \<and>
     w_gets (st_world s) = [api_url demo_booter [2, 0, 0, 0, 0, 7]] \<and> length (st_transfers s) = 1 \<and>
     f \<in> st_issued s \<and> f \<noteq> [] \<and> getURL demo_golib2 demo_booter f = Some (Inr ''http://k'')"
proof -
  let ?m = "[2, 0, 0, 0, 0, 7]" and ?bt = "remote_booter demo_golib2 demo_booter"
  obtain s where s: "reachable demo_conf demo_booter demo_may demo_wd s" "st_world s = demo_wd" "length (st_transfers s) = 1"
    using demo_reach_transfer [of "\<lparr>addr_ip = [10, 0, 0, 9], addr_port = 2070\<rparr>"] by auto
  have "24 * Suc (length [''http://i'']) \<le> length (reader_data (w_rand demo_wd))"
    by (simp add: demo_world_def reader_data_def)
  then obtain sp w' where sp: "remote_BootSpec demo_golib2 demo_booter ?m demo_wd = (Inr sp, w')"
    unfolding demo_golib2_def using remote_BootSpec_returns [OF demo_getSpec] by blast
  then have bs: "GetBootSpec (srv_booter (cf_http demo_conf)) ?m demo_wd = (Inr sp, w')"
    by (simp add: remote_booter_def)
  obtain kern initrds w1 w2 where "getSpec demo_golib2 demo_booter ?m demo_wd = (Inr (kern, initrds, Cmdline sp), w1)"
    and k: "signURL demo_golib2 demo_booter kern w1 = (Inr (Kernel sp), w2)"
    using sp by (rule remote_BootSpec_Inr)
  then have kern: "kern = ''http://k''" by (simp add: demo_golib2_def demo_getSpec)
  have id: "getURL demo_golib2 demo_booter (Kernel sp) = Some (Inr ''http://k'')" "24 \<le> length (Kernel sp)"
    using signURL_getURL [OF _ k] unfolding kern demo_golib2_def by (simp_all add: demo_lib_box)
  have "valid_mac ?m" by (simp add: valid_mac_def)
  with config_answer [OF this bs, of demo_golib2 "[]"] obtain wr ls where
    "http_request demo_golib2 (cf_http demo_conf) (get [] (config_path ?m), None) demo_wd = Some (Response wr, ls, w')"
    by blast
  then have "sys_step demo_conf demo_booter demo_may s (s\<lparr>st_world := w', st_http := st_http s @ [Response wr],
      st_issued := st_issued s \<union> ids_sent ?bt (get [] (config_path ?m)) demo_wd,
      st_named := st_named s \<union> urls_named demo_golib2 demo_booter (get [] (config_path ?m)) demo_wd\<rparr>)"
    using step_http [of demo_may s _ demo_conf None _ _ _ demo_booter, OF demo_config_may] s(2) by simp
  from reach_step [OF s(1) this]
  have "reachable demo_conf demo_booter demo_may demo_wd (s\<lparr>st_world := w', st_http := st_http s @ [Response wr],
      st_issued := st_issued s \<union> ids_sent ?bt (get [] (config_path ?m)) demo_wd,
      st_named := st_named s \<union> urls_named demo_golib2 demo_booter (get [] (config_path ?m)) demo_wd\<rparr>)" .
  moreover have "Kernel sp \<in> ids_sent ?bt (get [] (config_path ?m)) demo_wd"
    using bs \<open>valid_mac ?m\<close> by (simp add: ids_sent_def config_for_def route_config config_mac_path)
  moreover have "w_gets w' = [api_url demo_booter ?m]"
    using remote_BootSpec_gets [of demo_golib2 demo_booter ?m demo_wd] sp by (simp add: demo_world_def)
  ultimately show ?thesis using s(3) id by (intro exI conjI) (assumption | force)+
qed

lemma demo_reachable:
  "\<exists>s. reachable demo_conf demo_booter demo_may demo_wd s \<and> length (st_transfers s) = 1 \<and>
     w_gets (st_world s) = [api_url demo_booter [2, 0, 0, 0, 0, 7], ''http://k'']"
proof -
  obtain s f where s: "reachable demo_conf demo_booter demo_may demo_wd s" "length (st_transfers s) = 1"
    "w_gets (st_world s) = [api_url demo_booter [2, 0, 0, 0, 0, 7]]"
    and f: "f \<in> st_issued s" "f \<noteq> []" "getURL demo_golib2 demo_booter f = Some (Inr ''http://k'')"
    using demo_reach_config by blast
  have dec: "b64_decode (filepath_base (url_path (get [] (encode_id f)))) = Some (bytes_of f)"
    using f(2) by (simp add: file_base b64.dec_enc)
  then have "demo_may s (get [] (encode_id f))" using f(1) by (simp add: unforgeable_def)
  moreover obtain a ls w' where rq: "http_request demo_golib2 (cf_http demo_conf) (get [] (encode_id f), None) (st_world s) = Some (a, ls, w')"
    by (rule http_request_returns [of "cf_http demo_conf"]) (simp add: booters_total)
  ultimately have "reachable demo_conf demo_booter demo_may demo_wd (s\<lparr>st_world := w', st_http := st_http s @ [a],
      st_issued := st_issued s \<union> ids_sent (cf_booter demo_conf) (get [] (encode_id f)) (st_world s),
      st_named := st_named s \<union> urls_named (cf_lib demo_conf) demo_booter (get [] (encode_id f)) (st_world s)\<rparr>)"
    using reach_step [OF s(1) step_http] by simp
  moreover have "w_gets w' = w_gets (st_world s) @ [''http://k'']"
    by (rule file_request_gets [OF f(2,3) rq]) simp
  ultimately show ?thesis using s(2,3) by (intro exI conjI) (assumption | force)+
qed

text \<open>C5. No interleaving of the servers makes one of them panic: in every state the program can
  reach, with any booter deciding on the offers, each of the two DHCP servers and the TFTP server
  has its next turn for every event, every transfer in progress is defined, and the HTTP server,
  with a booter of \<open>main\<close>, finishes every request, also when writing to the client fails.\<close>

theorem system_never_panics:
  assumes "reachable cf b may w0 s" "main_booter (cf_lib cf) (srv_booter (cf_http cf))"
  shows "(\<exists>s'. dhcp_turn (cf_ifaces cf) (cf_booter cf) ev (st_dhcp s, st_world s) = Some s') \<and>
    (\<exists>s'. pxe_turn (cf_ifaces cf) (cf_httpPort cf) ev (st_pxe s, st_world s) = Some s') \<and>
    (\<exists>s'. tftp_turn (cf_lib cf) tev (st_tftp s, ()) = Some s') \<and>
    (\<forall>(a, q, es)\<in>set (st_transfers s). \<exists>oc out.
       transfer (cf_lib cf) (cf_dial cf) a q (Blob (cf_boot cf)) es = Some (oc, out)) \<and>
    (\<exists>s'. http_request (cf_lib cf) (cf_http cf) (r, brk) (st_world s) = Some s')"
proof -
  obtain a ls w' where "http_request (cf_lib cf) (cf_http cf) (r, brk) (st_world s) = Some (a, ls, w')"
    by (rule http_request_returns [OF main_booter_total [OF assms(2)]])
  then show ?thesis
    using reachable_sizes [OF assms(1)] transfer_returns
      dserv.step_respond [of "st_dhcp s" "cf_ifaces cf" "cf_booter cf" ev "st_world s"]
      pserv.step_respond [of "st_pxe s" "cf_ifaces cf" "cf_httpPort cf" ev "st_world s"]
      tserv.step_respond [of "st_tftp s" "cf_lib cf" tev "()"]
    by (auto simp: sizes_ok_def)
qed

theorem system_never_panics_witness:
  "\<exists>s. reachable demo_conf demo_booter demo_may demo_wd s \<and> length (st_transfers s) = 1 \<and>
     (\<exists>s'. dhcp_turn demo_ifaces (remote_booter demo_golib2 demo_booter) demo_event (st_dhcp s, st_world s) = Some s') \<and>
     (\<exists>s'. pxe_turn demo_ifaces 70 demo_select (st_pxe s, st_world s) = Some s') \<and>
     (\<exists>s'. tftp_turn demo_golib2 (Inr ([0, 4], \<lparr>addr_ip = [10, 0, 0, 9], addr_port = 2070\<rparr>)) (st_tftp s, ()) = Some s') \<and>
     (\<exists>s'. http_request demo_golib2 (cf_http demo_conf) (get [] (encode_id ''x''), Some (2, ''broken pipe'')) (st_world s) = Some s')"
proof -
  obtain s where s: "reachable demo_conf demo_booter demo_may demo_wd s" "length (st_transfers s) = 1"
    using demo_reachable by auto
  have "main_booter (cf_lib demo_conf) (srv_booter (cf_http demo_conf))" by (auto simp: main_booter_def)
  from system_never_panics [OF s(1) this] s show ?thesis by auto
qed

text \<open>C7. In API mode the program is no open proxy. If secretbox opens what it sealed and clients
  request only ids that the server has sent to some client or that do not open under its key,
  then in every reachable state every URL the program has fetched is a request to its API server
  or a kernel or initrd URL that the API server named in an answer. This holds for every
  interleaving of the servers, and every id the program has sent stands for such a URL.\<close>

theorem api_mode_fetches:
  assumes "reachable cf b (unforgeable (cf_lib cf) b) w0 s" "api_mode cf b" "box_correct (cf_lib cf)"
    and "w_gets w0 = []"
  shows "set (w_gets (st_world s)) \<subseteq> range (api_url b) \<union> st_named s \<and>
    (\<forall>f\<in>st_issued s. \<exists>u\<in>st_named s. getURL (cf_lib cf) b f = Some (Inr u))"
proof -
  have "fetches_ok cf b w0 s"
    using assms(1)
  proof (induction rule: reachable.induct)
    case reach_init
    show ?case by (simp add: fetches_ok_def sys_init_def)
  next
    case (reach_step s s')
    then show ?case using fetches_ok_step assms(2,3) reachable_sizes by blast
  qed
  with assms(4) show ?thesis by (auto simp: fetches_ok_def)
qed

theorem api_mode_fetches_witness:
  "\<exists>s. reachable demo_conf demo_booter demo_may demo_wd s \<and>
     ''http://k'' \<in> set (w_gets (st_world s)) \<and>
     set (w_gets (st_world s)) \<subseteq> range (api_url demo_booter) \<union> st_named s"
proof -
  obtain s where s: "reachable demo_conf demo_booter (unforgeable (cf_lib demo_conf) demo_booter) demo_wd s"
    and "''http://k'' \<in> set (w_gets (st_world s))"
    using demo_reachable by auto
  moreover have "api_mode demo_conf demo_booter" "box_correct (cf_lib demo_conf)" "w_gets demo_wd = []"
    by (simp_all add: api_mode_def demo_golib2_def demo_lib_box) (simp add: demo_world_def)
  ultimately show ?thesis using api_mode_fetches [OF s] by auto
qed

end
