(* ===== verification/Tftp_Causality.thy ===== *)
theory Tftp_Causality
  imports Tftp_Delivery
begin

text \<open>
  Transfers as runs that go on: a transfer is a function of the reads it has seen, and more
  reads only add to what it has done. This is what makes the list of reads a faithful picture
  of a goroutine that blocks on its connection.
\<close>

lemma wait_ack_extend:
  "wait_ack seq recv es = Some (r, es') \<Longrightarrow> r \<noteq> WaitBlocked \<Longrightarrow> wait_ack seq recv (es @ xs) = Some (r, es' @ xs)"
proof (induction es arbitrary: recv)
  case (Cons e es)
  show ?case
  proof (cases e)
    case (RxData d)
    obtain n recv' where rd: "read_into recv d = (n, recv')" by (cases "read_into recv d")
    note IH = Cons.IH [of recv', OF _ Cons.prems(2)]
    from Cons.prems(1) show ?thesis
      by (simp add: RxData rd split: if_split_asm Option.bind_split_asm prod.split_asm) (simp_all add: IH)
  qed (use Cons.prems in simp_all)
qed simp

lemma send_tries_extend:
  "send_tries k b seq es = Some (r, ws, es') \<Longrightarrow>
     \<exists>r' ws' es''. send_tries k b seq (es @ xs) = Some (r', ws @ ws', es'') \<and>
       (r \<noteq> SendBlocked \<longrightarrow> r' = r \<and> ws' = [] \<and> es'' = es' @ xs)"
proof (induction k arbitrary: es ws)
  case (Suc k)
  obtain w es1 where w: "wait_ack seq (replicate 256 0) es = Some (w, es1)"
    using wait_ack_returns [of "replicate 256 0" seq es] by auto
  show ?case
  proof (cases "w = WaitBlocked")
    case True
    with w Suc.prems have r: "r = SendBlocked" "ws = [b]" by auto
    obtain r' ws' es'' where s: "send_tries (Suc k) b seq (es @ xs) = Some (r', ws', es'')"
      using send_tries_returns by blast
    from send_tries_shape [OF s] obtain n where "ws' = replicate n b" "0 < n" by auto
    with s r show ?thesis by (cases n) (auto simp del: send_tries.simps)
  next
    case False
    note ext = wait_ack_extend [OF w False, of xs]
    show ?thesis
    proof (cases "w = WaitTimeout")
      case True
      with w Suc.prems obtain ws1 where "send_tries k b seq es1 = Some (r, ws1, es')" "ws = b # ws1"
        by (auto simp: bind_eq_Some_conv)
      with Suc.IH [of es1 ws1] ext True show ?thesis by fastforce
    next
      case no: False
      with w Suc.prems ext False show ?thesis by (cases w) auto
    qed
  qed
qed simp

lemma transfer_loop_returns:
  "4 \<le> length buf \<Longrightarrow> \<exists>oc out. transfer_loop lib addr req bs seq buf f es = Some (oc, out)"
proof (induction es arbitrary: seq buf f rule: length_induct)
  case (1 es)
  obtain d err f' where rd: "read_full (length buf - 4) f = (d, err, f')" by (cases "read_full (length buf - 4) f")
  have len: "length d \<le> length buf - 4"
    by (rule read_full_spec [of "length buf - 4" f]) (use rd in simp)
  let ?buf1 = "copy_at 4 d (copy_at 2 (be_put16 seq) buf)"
  have slice: "go_slice ?buf1 0 (length d + 4) = Some (take (length d + 4) ?buf1)"
    using len "1.prems" by simp
  obtain r ws es1 where s: "sendPacket (take (length d + 4) ?buf1) seq es = Some (r, ws, es1)"
    using sendPacket_returns by blast
  have "r = SendOk \<Longrightarrow> \<exists>oc out. transfer_loop lib addr req bs (seq + 1) ?buf1 f' es1 = Some (oc, out)"
    using "1.IH" [rule_format, of es1 ?buf1] sendPacket_shorter s "1.prems" by simp
  then show ?case
    by (subst transfer_loop.simps) (auto simp: rd slice s split: option.split send_res.split)
qed

text \<open>The result of a run on more reads: the same if the run had ended, an extension of what it
  had done if it was waiting.\<close>

definition goes_on :: "(outcome \<times> tx list) option \<Rightarrow> (outcome \<times> tx list) option \<Rightarrow> bool" where
  "goes_on x y \<longleftrightarrow> (\<exists>oc out oc' out2. x = Some (oc, out) \<and> y = Some (oc', out @ out2) \<and>
     (oc \<noteq> Waiting \<longrightarrow> oc' = oc \<and> out2 = []))"

lemma goes_on_refl: "goes_on (Some x) (Some x)"
  by (cases x) (simp add: goes_on_def)

text \<open>Sending a packet and going on with \<open>cont\<close>.\<close>

definition send_then ::
  "bytes \<Rightarrow> 16 word \<Rightarrow> (send_err \<Rightarrow> tx list) \<Rightarrow> (rx list \<Rightarrow> (outcome \<times> tx list) option) \<Rightarrow>
     rx list \<Rightarrow> (outcome \<times> tx list) option" where
  "send_then b seq onfail cont es = do {
     (r, ws, es1) \<leftarrow> sendPacket b seq es;
     (case r of
        SendBlocked \<Rightarrow> Some (Waiting, map TxPkt ws)
      | SendFail e \<Rightarrow> Some (Failed, map TxPkt ws @ onfail e)
      | SendOk \<Rightarrow> do {
          (oc, out) \<leftarrow> cont es1;
          Some (oc, map TxPkt ws @ out)
        })
   }"

lemma send_then_goes_on:
  assumes cont: "\<And>es1. length es1 < length es \<Longrightarrow> goes_on (cont es1) (cont (es1 @ xs))"
    and total: "\<And>es1. \<exists>oc out. cont es1 = Some (oc, out)"
  shows "goes_on (send_then b seq onfail cont es) (send_then b seq onfail cont (es @ xs))"
proof -
  obtain r ws es1 where s: "sendPacket b seq es = Some (r, ws, es1)" using sendPacket_returns by blast
  then obtain r' ws' es2 where s': "sendPacket b seq (es @ xs) = Some (r', ws @ ws', es2)"
    and same: "r \<noteq> SendBlocked \<longrightarrow> r' = r \<and> ws' = [] \<and> es2 = es1 @ xs"
    using send_tries_extend [of numRetries b seq es r ws es1 xs] by (auto simp: sendPacket_def)
  show ?thesis
  proof (cases r)
    case SendOk
    then have "length es1 < length es" using s sendPacket_shorter by blast
    from cont [OF this] s s' same SendOk show ?thesis by (auto simp: send_then_def goes_on_def)
  next
    case (SendFail e)
    with s s' same show ?thesis by (simp add: send_then_def goes_on_def)
  next
    case SendBlocked
    obtain oc out where "cont es2 = Some (oc, out)" using total by blast
    with s s' SendBlocked show ?thesis by (cases r') (simp_all add: send_then_def goes_on_def)
  qed
qed

lemma transfer_loop_send_then:
  assumes "read_full (length buf - 4) f = (d, err, f')" "read_error err = None" "4 \<le> length buf"
    and buf1: "buf1 = copy_at 4 d (copy_at 2 (be_put16 seq) buf)"
  shows "transfer_loop lib addr req bs seq buf f es =
    send_then (take (length d + 4) buf1) seq
      (\<lambda>e. [TxLog (Log ''TFTP'' (''Transfer to '' @ addr_string addr @ '' failed: '' @ send_err_text lib e))])
      (\<lambda>es1. if length d < bs
        then Some (Sent, [TxLog (Log ''TFTP'' (''Sent '' @ quote lib (Filename req) @ '' to '' @ addr_string addr))])
        else transfer_loop lib addr req bs (seq + 1) buf1 f' es1) es"
proof -
  have "length d \<le> length buf - 4"
    by (rule read_full_spec [of "length buf - 4" f]) (use assms(1) in simp)
  then have slice: "go_slice buf1 0 (length d + 4) = Some (take (length d + 4) buf1)"
    using assms(3) by (simp add: buf1)
  obtain r ws es1 where s: "sendPacket (take (length d + 4) buf1) seq es = Some (r, ws, es1)"
    using sendPacket_returns by blast
  show ?thesis
    by (subst transfer_loop.simps, cases r)
      (simp_all only: send_then_def assms(1,2) prod.case option.case Let_def buf1 [symmetric] slice Option.bind.simps s
        send_res.case, simp)
qed

lemma transfer_loop_goes_on:
  "4 \<le> length buf \<Longrightarrow>
     goes_on (transfer_loop lib addr req bs seq buf f es) (transfer_loop lib addr req bs seq buf f (es @ xs))"
proof (induction es arbitrary: seq buf f rule: length_induct)
  case (1 es)
  obtain d err f' where rd: "read_full (length buf - 4) f = (d, err, f')" by (cases "read_full (length buf - 4) f")
  show ?case
  proof (cases "read_error err")
    case None
    define buf1 where "buf1 = copy_at 4 d (copy_at 2 (be_put16 seq) buf)"
    then have buf1: "4 \<le> length buf1" using "1.prems" by simp
    show ?thesis
      unfolding transfer_loop_send_then [OF rd None "1.prems" buf1_def]
    proof (rule send_then_goes_on, goal_cases)
      case (1 es1)
      with "1.IH" buf1 have "goes_on (transfer_loop lib addr req bs (seq + 1) buf1 f' es1)
        (transfer_loop lib addr req bs (seq + 1) buf1 f' (es1 @ xs))" by blast
      then show ?case by (simp add: goes_on_refl)
    next
      case (2 es1)
      show ?case using transfer_loop_returns [OF buf1] by simp
    qed
  next
    case (Some e)
    then show ?thesis by (subst (1 2) transfer_loop.simps) (simp add: rd goes_on_refl)
  qed
qed

lemma transfer_send_then:
  "dial addr = None \<Longrightarrow> 0 < BlockSize req \<Longrightarrow> transfer lib dial addr req h es =
     (case h (Filename req) addr of
        Inl e \<Rightarrow>
          Some (Failed, [TxLog (Debug ''TFTP'' (''Error getting bytes for '' @ quote lib (Filename req) @ '': '' @ e)),
                         TxPkt (mkError e)])
      | Inr f \<Rightarrow>
          send_then (oack_packet (BlockSize req)) 0
            (\<lambda>e. [TxLog (Debug ''TFTP'' (''Transfer to '' @ addr_string addr @ '' failed: '' @ send_err_text lib e))])
            (transfer_loop lib addr req (nat (BlockSize req)) 1 ((replicate (nat (BlockSize req) + 4) 0)[1 := 3]) f) es)"
  by (cases "h (Filename req) addr") (simp_all only: transfer_def send_then_def Let_def option.case sum.case if_True)

section \<open>The whole transfer\<close>

text \<open>A transfer is causal, for every handler and every stream: it always returns, and further
  reads never change what it has done. A run that has ended stays as it is; a run that waits has
  written a prefix of what every longer run writes.\<close>

lemma transfer_causal:
  "\<exists>oc out oc' out2. transfer lib dial addr req h es = Some (oc, out) \<and>
     transfer lib dial addr req h (es @ xs) = Some (oc', out @ out2) \<and>
     (oc = Waiting \<or> oc' = oc \<and> out2 = [])"
proof -
  have "goes_on (transfer lib dial addr req h es) (transfer lib dial addr req h (es @ xs))"
  proof (cases "dial addr = None \<and> 0 < BlockSize req")
    case True
    have "goes_on (send_then b seq onfail (transfer_loop lib addr req bs 1 ((replicate (bs + 4) 0)[1 := 3]) f) es)
      (send_then b seq onfail (transfer_loop lib addr req bs 1 ((replicate (bs + 4) 0)[1 := 3]) f) (es @ xs))"
      for b seq onfail bs f
      by (rule send_then_goes_on) (simp_all add: transfer_loop_goes_on transfer_loop_returns)
    with True show ?thesis
      by (cases "h (Filename req) addr") (simp_all only: transfer_send_then sum.case goes_on_refl)
  next
    case False
    have "goes_on (transfer_loop lib addr req bs 1 ((replicate (bs + 4) 0)[1 := 3]) f es)
      (transfer_loop lib addr req bs 1 ((replicate (bs + 4) 0)[1 := 3]) f (es @ xs))" for bs f
      by (rule transfer_loop_goes_on) simp
    with False show ?thesis
      by (cases "dial addr"; cases "h (Filename req) addr")
        (simp_all only: transfer_def option.case sum.case goes_on_refl if_False simp_thms if_True)
  qed
  then obtain oc out oc' out2 where
    "transfer lib dial addr req h es = Some (oc, out)" "transfer lib dial addr req h (es @ xs) = Some (oc', out @ out2)"
    "oc \<noteq> Waiting \<longrightarrow> oc' = oc \<and> out2 = []"
    unfolding goes_on_def by blast
  then show ?thesis 
    by - (rule exI [of _ oc], rule exI [of _ out], rule exI [of _ oc'], rule exI [of _ out2], auto)
qed

end
