(* ===== verification/Tftp_Deadline.thy ===== *)
theory Tftp_Deadline
  imports Tftp_Delivery
begin

text \<open>
  \<open>sendPacket\<close> of \<open>src/tftp/tftp.go\<close> on a connection with a clock and a read deadline. In
  \<open>Tftp_Transfer\<close> the results of the reads are given as a list, timeouts included; here they
  follow from the times at which packets arrive and from the deadline that \<open>sendPacket\<close> sets. A
  read on a connection without a deadline waits for ever once nothing more arrives. The
  operations refine those on lists, and the deadline is what makes them return.
\<close>

section \<open>A connection\<close>








section \<open>sendPacket\<close>





section \<open>Waiting under a deadline\<close>





section \<open>All the tries\<close>








section \<open>Properties\<close>




end
