(* ===== verification/Initrd_Store.thy ===== *)
theory Initrd_Store
  imports Http_Server
begin

text \<open>
  The boot specifications of \<open>src/api/api.go\<close> and \<open>src/http/http.go\<close> with the memory they
  share written out. A \<open>BootSpec\<close> is reached through a pointer and its \<open>Initrd\<close> through a
  slice, and \<open>PxelinuxConfig\<close> overwrites both in place, so what a booter hands out must not be
  what it keeps. The store holds the string arrays and the \<open>BootSpec\<close> structs; the locale
  \<open>spec_source\<close> is the contract between a booter and the handler, and the two booters are shown
  to meet it. The handlers on the store then refine those of \<open>Http_Server\<close>, which have values in
  place of pointers.
\<close>

section \<open>The store\<close>

text \<open>A slice is its array, its length and its capacity; no slice of this program starts inside
  its array. The nil slice has capacity 0.\<close>

record slice =
  s_arr :: nat
  s_len :: nat
  s_cap :: nat

record spec_obj =
  o_kernel :: string
  o_initrd :: slice
  o_cmdline :: string

record store =
  st_arrays :: "string list list"
  st_specs :: "spec_obj list"

definition nil_slice :: slice where
  "nil_slice = \<lparr>s_arr = 0, s_len = 0, s_cap = 0\<rparr>"

definition elems :: "store \<Rightarrow> slice \<Rightarrow> string list" where
  "elems st s = take (s_len s) (st_arrays st ! s_arr s)"

definition get_elem :: "store \<Rightarrow> slice \<Rightarrow> nat \<Rightarrow> string option" where
  "get_elem st s i = (if i < s_len s then Some (st_arrays st ! s_arr s ! i) else None)"

definition set_elem :: "store \<Rightarrow> slice \<Rightarrow> nat \<Rightarrow> string \<Rightarrow> store option" where
  "set_elem st s i v =
     (if i < s_len s then Some (st\<lparr>st_arrays := (st_arrays st)[s_arr s := (st_arrays st ! s_arr s)[i := v]]\<rparr>)
      else None)"

text \<open>\<open>append\<close> writes behind the slice while the capacity lasts, and otherwise moves to a new
  array; how much larger that is, is the runtime's choice \<open>grow\<close>.\<close>

definition append_strings :: "(nat \<Rightarrow> nat \<Rightarrow> nat) \<Rightarrow> store \<Rightarrow> slice \<Rightarrow> string list \<Rightarrow> store \<times> slice" where
  "append_strings grow st s xs =
     (let need = s_len s + length xs in
      if need \<le> s_cap s then
        (st\<lparr>st_arrays := (st_arrays st)[s_arr s := copy_at (s_len s) xs (st_arrays st ! s_arr s)]\<rparr>, s\<lparr>s_len := need\<rparr>)
      else
        (let c = max need (grow (s_cap s) need) in
         (st\<lparr>st_arrays := st_arrays st @ [elems st s @ xs @ replicate (c - need) '''']\<rparr>,
          \<lparr>s_arr = length (st_arrays st), s_len = need, s_cap = c\<rparr>)))"

definition new_spec :: "spec_obj \<Rightarrow> store \<Rightarrow> nat \<times> store" where
  "new_spec sp st = (length (st_specs st), st\<lparr>st_specs := st_specs st @ [sp]\<rparr>)"

definition load_spec :: "store \<Rightarrow> nat \<Rightarrow> spec_obj option" where
  "load_spec st p = (if p < length (st_specs st) then Some (st_specs st ! p) else None)"

definition save_spec :: "nat \<Rightarrow> spec_obj \<Rightarrow> store \<Rightarrow> store" where
  "save_spec p sp st = st\<lparr>st_specs := (st_specs st)[p := sp]\<rparr>"

section \<open>The booters\<close>

record heapStatic =
  hs_kernelPath :: string
  hs_initrdPaths :: "string list"
  hs_spec :: nat

text \<open>\<open>spec.Initrd = append(spec.Initrd, x)\<close>, through a pointer.\<close>

definition push_initrd :: "(nat \<Rightarrow> nat \<Rightarrow> nat) \<Rightarrow> nat \<Rightarrow> string \<Rightarrow> store \<Rightarrow> store option" where
  "push_initrd grow p x st = do {
     sp \<leftarrow> load_spec st p;
     let (st, s) = append_strings grow st (o_initrd sp) [x];
     Some (save_spec p (sp\<lparr>o_initrd := s\<rparr>) st)
   }"

fun push_ids :: "(nat \<Rightarrow> nat \<Rightarrow> nat) \<Rightarrow> nat \<Rightarrow> nat list \<Rightarrow> store \<Rightarrow> store option" where
  "push_ids grow p [] st = Some st"
| "push_ids grow p (i # is) st = do {
     st \<leftarrow> push_initrd grow p (itoa (int i)) st;
     push_ids grow p is st
   }"

definition heap_StaticBooter ::
  "(nat \<Rightarrow> nat \<Rightarrow> nat) \<Rightarrow> string \<Rightarrow> string list \<Rightarrow> string \<Rightarrow> store \<Rightarrow> (heapStatic \<times> store) option" where
  "heap_StaticBooter grow kp ips cmd st = do {
     let (p, st) = new_spec \<lparr>o_kernel = ''kernel'', o_initrd = nil_slice, o_cmdline = cmd\<rparr> st;
     st \<leftarrow> push_ids grow p [0..<length ips] st;
     Some (\<lparr>hs_kernelPath = kp, hs_initrdPaths = ips, hs_spec = p\<rparr>, st)
   }"

definition heap_static_BootSpec ::
  "(nat \<Rightarrow> nat \<Rightarrow> nat) \<Rightarrow> heapStatic \<Rightarrow> mac \<Rightarrow> world \<Rightarrow> store \<Rightarrow> ((string + nat) \<times> world \<times> store) option" where
  "heap_static_BootSpec grow b hw wd st = do {
     sp \<leftarrow> load_spec st (hs_spec b);
     let (st, s) = append_strings grow st nil_slice (elems st (o_initrd sp));
     let (p, st) = new_spec \<lparr>o_kernel = o_kernel sp, o_initrd = s, o_cmdline = o_cmdline sp\<rparr> st;
     Some (Inr p, wd, st)
   }"

fun push_signed ::
  "(nat \<Rightarrow> nat \<Rightarrow> nat) \<Rightarrow> golib \<Rightarrow> remoteBooter \<Rightarrow> nat \<Rightarrow> string list \<Rightarrow> world \<Rightarrow> store \<Rightarrow>
     (string option \<times> world \<times> store) option" where
  "push_signed grow lib b p [] wd st = Some (None, wd, st)"
| "push_signed grow lib b p (img # imgs) wd st = (case signURL lib b img wd of
      (Inl e, wd) \<Rightarrow> Some (Some e, wd, st)
    | (Inr initrd, wd) \<Rightarrow> do {
        st \<leftarrow> push_initrd grow p initrd st;
        push_signed grow lib b p imgs wd st
      })"

definition heap_remote_BootSpec ::
  "(nat \<Rightarrow> nat \<Rightarrow> nat) \<Rightarrow> golib \<Rightarrow> remoteBooter \<Rightarrow> mac \<Rightarrow> world \<Rightarrow> store \<Rightarrow>
     ((string + nat) \<times> world \<times> store) option" where
  "heap_remote_BootSpec grow lib b hw wd st = (case getSpec lib b hw wd of
      (Inl e, wd) \<Rightarrow> Some (Inl e, wd, st)
    | (Inr (kern, initrds, cmdline), wd) \<Rightarrow>
        (let (p, st) = new_spec \<lparr>o_kernel = '''', o_initrd = nil_slice, o_cmdline = cmdline\<rparr> st in
         case signURL lib b kern wd of
           (Inl e, wd) \<Rightarrow> Some (Inl e, wd, st)
         | (Inr k, wd) \<Rightarrow> do {
             sp \<leftarrow> load_spec st p;
             (err, wd, st) \<leftarrow> push_signed grow lib b p initrds wd (save_spec p (sp\<lparr>o_kernel := k\<rparr>) st);
             Some (case err of Some e \<Rightarrow> Inl e | None \<Rightarrow> Inr p, wd, st)
           }))"

section \<open>The handlers\<close>

text \<open>One turn of the loop over \<open>spec.Initrd\<close>, then the loop, then all the code that writes
  through the pointer.\<close>

definition encode_at :: "nat \<Rightarrow> nat \<Rightarrow> store \<Rightarrow> store option" where
  "encode_at p i st = do {
     sp \<leftarrow> load_spec st p;
     v \<leftarrow> get_elem st (o_initrd sp) i;
     set_elem st (o_initrd sp) i (encode_id v)
   }"

fun encode_each :: "nat \<Rightarrow> nat list \<Rightarrow> store \<Rightarrow> store option" where
  "encode_each p [] st = Some st"
| "encode_each p (i # is) st = do {
     st \<leftarrow> encode_at p i st;
     encode_each p is st
   }"

definition encode_kernel :: "nat \<Rightarrow> store \<Rightarrow> store option" where
  "encode_kernel p st = do {
     sp \<leftarrow> load_spec st p;
     Some (save_spec p (sp\<lparr>o_kernel := encode_id (o_kernel sp)\<rparr>) st)
   }"

definition range_initrd :: "nat \<Rightarrow> store \<Rightarrow> nat list option" where
  "range_initrd p st = do { sp \<leftarrow> load_spec st p; Some [0..<s_len (o_initrd sp)] }"

definition spec_value :: "store \<Rightarrow> nat \<Rightarrow> BootSpec option" where
  "spec_value st p = do {
     sp \<leftarrow> load_spec st p;
     Some \<lparr>Kernel = o_kernel sp, Initrd = elems st (o_initrd sp), Cmdline = o_cmdline sp\<rparr>
   }"

definition heap_config :: "nat \<Rightarrow> store \<Rightarrow> (string \<times> store) option" where
  "heap_config p st = do {
     st \<leftarrow> encode_kernel p st;
     is \<leftarrow> range_initrd p st;
     st \<leftarrow> encode_each p is st;
     sp \<leftarrow> spec_value st p;
     Some (pxelinux_cfg sp, st)
   }"

type_synonym heap_specs = "mac \<Rightarrow> world \<Rightarrow> store \<Rightarrow> ((string + nat) \<times> world \<times> store) option"

definition heap_PxelinuxConfig ::
  "golib \<Rightarrow> heap_specs \<Rightarrow> writer \<Rightarrow> request \<Rightarrow> world \<Rightarrow> store \<Rightarrow>
     ((writer \<times> LogEntry list \<times> world) \<times> store) option" where
  "heap_PxelinuxConfig lib bootSpec w r wd st =
     (let w = set_header ''Content-Type'' ''text/plain'' w;
          macStr = filepath_base (url_path r);
          errStr = RemoteAddr r @ '' requested a pxelinux config from URL '' @ quote lib (url_string r) @
            '', which does not include a MAC address'' in
      if \<not> has_prefix macStr ''01-'' then
        Some ((http_error ''Missing MAC address in request'' 400 w, [Debug ''HTTP'' (sprintf0 lib errStr)], wd), st)
      else do {
        rest \<leftarrow> go_from macStr 3;
        case parse_mac rest of
          None \<Rightarrow>
            Some ((http_error ''Malformed MAC address in request'' 400 w, [Debug ''HTTP'' (sprintf0 lib errStr)], wd), st)
        | Some mac \<Rightarrow> do {
            (res, wd, st) \<leftarrow> bootSpec mac wd st;
            (case res of
               Inl e \<Rightarrow>
                 Some ((snd (write_body (bytes_of bootFromDisk) w),
                   [Debug ''HTTP'' (''Telling pxelinux on '' @ hw_string mac @ '' ('' @ RemoteAddr r @
                      '') to boot from disk because of API server verdict: '' @ e)],
                   wd), st)
             | Inr p \<Rightarrow> do {
                 (cfg, st) \<leftarrow> heap_config p st;
                 Some ((snd (write_body (bytes_of cfg) w),
                   [Log ''HTTP'' (''Sent pxelinux config to '' @ hw_string mac @ '' ('' @ RemoteAddr r @ '')'')],
                   wd), st)
               })
          }
      })"

text \<open>The other two handlers have no access to the store.\<close>

fun heap_run_handler ::
  "golib \<Rightarrow> heap_specs \<Rightarrow> httpServer \<Rightarrow> http_handler \<Rightarrow> writer \<Rightarrow> request \<Rightarrow> world \<Rightarrow> store \<Rightarrow>
     ((writer \<times> LogEntry list \<times> world) \<times> store) option" where
  "heap_run_handler lib bootSpec s HLdlinux w r wd st = Some (Ldlinux s w r wd, st)"
| "heap_run_handler lib bootSpec s HPxelinuxConfig w r wd st = heap_PxelinuxConfig lib bootSpec w r wd st"
| "heap_run_handler lib bootSpec s HFile w r wd st = do { x \<leftarrow> File lib s w r wd; Some (x, st) }"

definition heap_http_request ::
  "golib \<Rightarrow> heap_specs \<Rightarrow> httpServer \<Rightarrow> request \<times> (nat \<times> string) option \<Rightarrow> world \<Rightarrow> store \<Rightarrow>
     ((answer \<times> LogEntry list \<times> world) \<times> store) option" where
  "heap_http_request lib bootSpec s rb wd st = (case mux_route handlers (fst rb) of
      Run h \<Rightarrow> do {
        ((w, ls, wd), st) \<leftarrow> heap_run_handler lib bootSpec s h (new_writer (snd rb)) (fst rb) wd st;
        Some ((Response w, ls, wd), st)
      }
    | Redirect p \<Rightarrow> Some ((MovedTo p, [], wd), st)
    | NotFound \<Rightarrow> Some ((PageNotFound, [], wd), st))"

fun heap_http_serve ::
  "golib \<Rightarrow> heap_specs \<Rightarrow> httpServer \<Rightarrow> (request \<times> (nat \<times> string) option) list \<Rightarrow> world \<Rightarrow> store \<Rightarrow>
     ((answer list \<times> LogEntry list \<times> world) \<times> store) option" where
  "heap_http_serve lib bootSpec s [] wd st = Some (([], [], wd), st)"
| "heap_http_serve lib bootSpec s (rb # rbs) wd st = do {
     ((a, ls, wd), st) \<leftarrow> heap_http_request lib bootSpec s rb wd st;
     ((as, ls', wd), st) \<leftarrow> heap_http_serve lib bootSpec s rbs wd st;
     Some ((a # as, ls @ ls', wd), st)
   }"

section \<open>Laws of the store\<close>

definition slice_ok :: "store \<Rightarrow> slice \<Rightarrow> bool" where
  "slice_ok st s \<longleftrightarrow> s_len s \<le> s_cap s \<and>
     (0 < s_cap s \<longrightarrow> s_arr s < length (st_arrays st) \<and> length (st_arrays st ! s_arr s) = s_cap s)"

text \<open>The pointer \<open>p\<close> leads to the value \<open>sp\<close>.\<close>

definition reads :: "store \<Rightarrow> nat \<Rightarrow> BootSpec \<Rightarrow> bool" where
  "reads st p sp \<longleftrightarrow> spec_value st p = Some sp \<and> slice_ok st (o_initrd (st_specs st ! p))"

text \<open>What the handler may do through a pointer: another kernel and other elements.\<close>

definition write_spec :: "nat \<Rightarrow> string \<Rightarrow> string list \<Rightarrow> store \<Rightarrow> store" where
  "write_spec p k xs st =
     (let sp = st_specs st ! p; a = s_arr (o_initrd sp) in
      st\<lparr>st_arrays := (st_arrays st)[a := xs @ drop (length xs) (st_arrays st ! a)],
         st_specs := (st_specs st)[p := sp\<lparr>o_kernel := k\<rparr>]\<rparr>)"

lemma reads_iff:
  "reads st p sp \<longleftrightarrow> p < length (st_specs st) \<and> slice_ok st (o_initrd (st_specs st ! p)) \<and>
     o_kernel (st_specs st ! p) = Kernel sp \<and> elems st (o_initrd (st_specs st ! p)) = Initrd sp \<and>
     o_cmdline (st_specs st ! p) = Cmdline sp"
  by (cases sp) (auto simp: reads_def spec_value_def load_spec_def)

lemma elems_length: "slice_ok st s \<Longrightarrow> length (elems st s) = s_len s"
  by (cases "s_cap s") (auto simp: slice_ok_def elems_def)

lemma reads_length: "reads st p sp \<Longrightarrow> s_len (o_initrd (st_specs st ! p)) = length (Initrd sp)"
  using elems_length by (metis reads_iff)

lemma append_strings_ok:
  assumes "append_strings grow st s xs = (st', s')" "slice_ok st s"
  shows "slice_ok st' s'" "elems st' s' = elems st s @ xs" "st_specs st' = st_specs st"
proof -
  have len: "length (elems st s) = s_len s" using assms(2) by (rule elems_length)
  show "st_specs st' = st_specs st"
    using assms(1) by (auto simp: append_strings_def Let_def split: if_splits)
  show "slice_ok st' s'"
    using assms len by (auto simp: append_strings_def slice_ok_def Let_def nth_append split: if_splits)
  show "elems st' s' = elems st s @ xs"
  proof (cases "s_len s + length xs \<le> s_cap s")
    case True
    then have st': "st_arrays st' = (st_arrays st)[s_arr s := copy_at (s_len s) xs (st_arrays st ! s_arr s)]"
      and s': "s' = s\<lparr>s_len := s_len s + length xs\<rparr>"
      using assms(1) by (auto simp: append_strings_def)
    show ?thesis
    proof (cases "s_cap s = 0")
      case True
      with \<open>s_len s + length xs \<le> s_cap s\<close> show ?thesis by (simp add: elems_def s')
    next
      case False
      then have "s_arr s < length (st_arrays st)" "length (st_arrays st ! s_arr s) = s_cap s"
        using assms(2) by (simp_all add: slice_ok_def)
      with True show ?thesis by (simp add: elems_def st' s' copy_at_def)
    qed
  next
    case False
    with assms(1) have "\<exists>ys. st_arrays st' = st_arrays st @ [elems st s @ xs @ ys]"
      "s_arr s' = length (st_arrays st)" "s_len s' = s_len s + length xs"
      by (auto simp: append_strings_def Let_def)
    with len show ?thesis by (auto simp: elems_def)
  qed
qed

text \<open>Appending to the nil slice only adds arrays, and the elements are in one of them.\<close>

lemma append_nil:
  assumes "append_strings grow st nil_slice xs = (st', s)"
  shows "\<exists>as. st_arrays st' = st_arrays st @ as" "s_len s = 0 \<or> length (st_arrays st) \<le> s_arr s"
  using assms by (auto simp: append_strings_def nil_slice_def copy_at_def Let_def list_update_beyond split: if_splits)

lemma slice_ok_nil [simp]: "slice_ok st nil_slice" "elems st nil_slice = []"
  by (simp_all add: slice_ok_def elems_def nil_slice_def)

lemma reads_write_spec:
  assumes "reads st p sp" "length xs = length (Initrd sp)"
  shows "reads (write_spec p k xs st) p (sp\<lparr>Kernel := k, Initrd := xs\<rparr>)"
  using assms reads_length [OF assms(1)]
  by (auto simp: reads_iff write_spec_def Let_def slice_ok_def elems_def)

lemma write_spec_twice:
  assumes "p < length (st_specs st)" "length ys = length xs"
  shows "write_spec p l ys (write_spec p k xs st) = write_spec p l ys st"
  using assms
  by (cases "s_arr (o_initrd (st_specs st ! p)) < length (st_arrays st)")
    (auto simp: write_spec_def Let_def list_update_beyond)

lemma store_same_specs: "st\<lparr>st_arrays := a, st_specs := st_specs st\<rparr> = st\<lparr>st_arrays := a\<rparr>"
  by simp

lemma encode_at_write:
  assumes "reads st p sp" "i < length (Initrd sp)"
  shows "encode_at p i st = Some (write_spec p (Kernel sp) ((Initrd sp)[i := encode_id (Initrd sp ! i)]) st)"
proof -
  let ?o = "st_specs st ! p"
  let ?a = "st_arrays st ! s_arr (o_initrd ?o)"
  have len: "s_len (o_initrd ?o) = length (Initrd sp)" using reads_length [OF assms(1)] .
  have el: "Initrd sp = take (length (Initrd sp)) ?a" using assms(1) len by (simp add: reads_iff elems_def)
  then have "?a ! i = Initrd sp ! i" using assms(2) by (metis nth_take)
  moreover have "?a[i := v] = (Initrd sp)[i := v] @ drop (length (Initrd sp)) ?a" for v
    using el assms(2) by (metis append_take_drop_id list_update_append1)
  moreover have "?o\<lparr>o_kernel := Kernel sp\<rparr> = ?o" using assms(1) by (simp add: reads_iff)
  then have "(st_specs st)[p := ?o\<lparr>o_kernel := Kernel sp\<rparr>] = st_specs st" by simp
  ultimately show ?thesis
    using assms len by (simp add: encode_at_def write_spec_def Let_def load_spec_def get_elem_def set_elem_def reads_iff store_same_specs)
qed

lemma encode_kernel_write:
  assumes "reads st p sp"
  shows "encode_kernel p st = Some (write_spec p (encode_id (Kernel sp)) (Initrd sp) st)"
proof -
  let ?a = "s_arr (o_initrd (st_specs st ! p))"
  have "Initrd sp = take (length (Initrd sp)) (st_arrays st ! ?a)"
    using assms reads_length [OF assms] by (simp add: reads_iff elems_def)
  then have "Initrd sp @ drop (length (Initrd sp)) (st_arrays st ! ?a) = st_arrays st ! ?a"
    by (metis append_take_drop_id)
  with assms show ?thesis
    by (simp add: encode_kernel_def write_spec_def Let_def load_spec_def save_spec_def reads_iff)
qed

lemma encode_each_write:
  assumes "reads st p sp" "i \<le> n" "n = length (Initrd sp)" "xs = map encode_id (take i (Initrd sp)) @ drop i (Initrd sp)"
  shows "encode_each p [i..<n] (write_spec p k xs st) = Some (write_spec p k (map encode_id (Initrd sp)) st)"
  using assms
proof (induction "n - i" arbitrary: i xs)
  case (Suc m)
  let ?st = "write_spec p k xs st" and ?ys = "xs[i := encode_id (xs ! i)]"
  have i: "i < n" and len: "length xs = length (Initrd sp)" and p: "p < length (st_specs st)"
    using Suc by (auto simp: reads_iff)
  have "encode_at p i ?st = Some (write_spec p k ?ys ?st)"
    using encode_at_write [OF reads_write_spec [OF Suc.prems(1) len]] i len Suc.prems(3) by simp
  moreover have "write_spec p k ?ys ?st = write_spec p k ?ys st"
    using write_spec_twice [OF p] by simp
  moreover have "?ys = map encode_id (take (Suc i) (Initrd sp)) @ drop (Suc i) (Initrd sp)"
    using i Suc.prems(3,4) by (simp add: list_update_append nth_append take_Suc_conv_app_nth Cons_nth_drop_Suc [symmetric])
  ultimately show ?case
    using Suc.hyps(1) [of "Suc i" ?ys] Suc.hyps(2) Suc.prems i by (simp add: upt_conv_Cons)
qed simp

lemma heap_config_write:
  assumes "reads st p sp"
  shows "heap_config p st = Some (pxelinux_cfg (encode_spec sp),
    write_spec p (encode_id (Kernel sp)) (map encode_id (Initrd sp)) st)"
proof -
  let ?st1 = "write_spec p (encode_id (Kernel sp)) (Initrd sp) st"
  let ?st2 = "write_spec p (encode_id (Kernel sp)) (map encode_id (Initrd sp)) st"
  have "range_initrd p ?st1 = Some [0..<length (Initrd sp)]"
    using reads_write_spec [OF assms refl, of "encode_id (Kernel sp)"] reads_length
    by (fastforce simp: range_initrd_def load_spec_def reads_iff)
  moreover have "encode_each p [0..<length (Initrd sp)] ?st1 = Some ?st2"
    by (rule encode_each_write [OF assms]) simp_all
  moreover have "spec_value ?st2 p = Some (encode_spec sp)"
    using reads_write_spec [OF assms] by (simp add: reads_def encode_spec_def)
  ultimately show ?thesis
    by (simp add: heap_config_def encode_kernel_write [OF assms])
qed

lemma reads_alloc:
  assumes "reads st q sp" "st_arrays st' = st_arrays st @ as" "st_specs st' = st_specs st @ os"
  shows "reads st' q sp"
  using assms by (cases "s_cap (o_initrd (st_specs st ! q)) = 0")
    (auto simp: reads_iff slice_ok_def elems_def nth_append)

lemma length_update_nth: "length ys = length (xss ! a) \<Longrightarrow> length (xss[a := ys] ! i) = length (xss ! i)"
  by (cases "a < length xss"; cases "i = a") (simp_all add: list_update_beyond)

text \<open>A write through one pointer is not seen through another, unless the two slices have elements
  in one array.\<close>

lemma reads_write_other:
  assumes q: "reads st q sp" and p: "reads st p sp'" and len: "length xs = length (Initrd sp')" and "q \<noteq> p"
    and apart: "xs = [] \<or> s_len (o_initrd (st_specs st ! q)) = 0 \<or>
      s_arr (o_initrd (st_specs st ! q)) \<noteq> s_arr (o_initrd (st_specs st ! p))"
  shows "reads (write_spec p k xs st) q sp"
proof -
  let ?a = "st_arrays st ! s_arr (o_initrd (st_specs st ! p))"
  have "length (xs @ drop (length xs) ?a) = length ?a"
    using p len reads_length [OF p] by (cases "xs = []") (auto simp: reads_iff slice_ok_def)
  then have "length ((st_arrays st)[s_arr (o_initrd (st_specs st ! p)) := xs @ drop (length xs) ?a] ! i) =
      length (st_arrays st ! i)" for i
    by (rule length_update_nth)
  moreover have "take (s_len (o_initrd (st_specs st ! q)))
      ((st_arrays st)[s_arr (o_initrd (st_specs st ! p)) := xs @ drop (length xs) ?a] ! s_arr (o_initrd (st_specs st ! q))) =
    take (s_len (o_initrd (st_specs st ! q))) (st_arrays st ! s_arr (o_initrd (st_specs st ! q)))"
    using apart by auto
  ultimately show ?thesis
    using q \<open>q \<noteq> p\<close> by (simp add: reads_iff write_spec_def Let_def slice_ok_def elems_def)
qed

section \<open>The contract\<close>

text \<open>A call hands out a pointer to what the booter answers, and the booter keeps what it
  \<open>own\<close>s however the handler then writes through that pointer.\<close>

locale spec_source =
  fixes heap_spec :: heap_specs
    and boot_spec :: "mac \<Rightarrow> world \<Rightarrow> (string + BootSpec) \<times> world"
    and own :: "store \<Rightarrow> bool"
  assumes refused: "own st \<Longrightarrow> boot_spec hw wd = (Inl e, wd') \<Longrightarrow>
      \<exists>st'. heap_spec hw wd st = Some (Inl e, wd', st') \<and> own st'"
    and given: "own st \<Longrightarrow> boot_spec hw wd = (Inr sp, wd') \<Longrightarrow>
      \<exists>p st'. heap_spec hw wd st = Some (Inr p, wd', st') \<and> reads st' p sp \<and>
        (\<forall>k xs. length xs = length (Initrd sp) \<longrightarrow> own (write_spec p k xs st'))"
begin

lemma config_refines:
  assumes "own st" "GetBootSpec (srv_booter s) = boot_spec"
  shows "\<exists>x st'. PxelinuxConfig lib s w r wd = Some x \<and>
    heap_PxelinuxConfig lib heap_spec w r wd st = Some (x, st') \<and> own st'"
proof (cases "config_mac r")
  case None
  with assms show ?thesis
    by (auto simp: heap_PxelinuxConfig_def PxelinuxConfig_def config_mac_def Let_def dest!: has_prefixE split: if_splits)
next
  case (Some m)
  then have pre: "has_prefix (filepath_base (url_path r)) ''01-''" "3 \<le> length (filepath_base (url_path r))"
    "parse_mac (drop 3 (filepath_base (url_path r))) = Some m"
    by (auto simp: config_mac_def Let_def dest!: has_prefixE split: if_splits)
  obtain res wd' where bs: "boot_spec m wd = (res, wd')" by (cases "boot_spec m wd")
  show ?thesis
  proof (cases res)
    case (Inl e)
    with refused [OF assms(1)] bs obtain st' where "heap_spec m wd st = Some (Inl e, wd', st')" "own st'"
      by blast
    with pre bs Inl assms(2) show ?thesis by (simp add: heap_PxelinuxConfig_def PxelinuxConfig_mac [OF Some] Let_def)
  next
    case (Inr sp)
    with given [OF assms(1)] bs obtain p st' where "heap_spec m wd st = Some (Inr p, wd', st')" "reads st' p sp"
      and "\<forall>k xs. length xs = length (Initrd sp) \<longrightarrow> own (write_spec p k xs st')" by blast
    with pre bs Inr assms(2) heap_config_write show ?thesis
      by (simp add: heap_PxelinuxConfig_def PxelinuxConfig_mac [OF Some] Let_def)
  qed
qed

lemma request_refines:
  assumes "own st" "GetBootSpec (srv_booter s) = boot_spec" "file_total (srv_booter s)"
  shows "\<exists>x st'. http_request lib s rb wd = Some x \<and> heap_http_request lib heap_spec s rb wd st = Some (x, st') \<and> own st'"
proof (cases "mux_route handlers (fst rb)")
  case (Run h)
  have "\<exists>x st'. run_handler lib s h w r wd = Some x \<and>
      heap_run_handler lib heap_spec s h w r wd st = Some (x, st') \<and> own st'" for w r
  proof (cases h)
    case HFile
    obtain x where "File lib s w r wd = Some x" using File_returns [OF assms(3)] by blast
    with HFile assms(1) show ?thesis by (cases x) simp
  next
    case HLdlinux
    with assms(1) show ?thesis by (cases "Ldlinux s w r wd") simp
  qed (use assms config_refines in simp_all)
  then obtain w ls wd' st' where "run_handler lib s h (new_writer (snd rb)) (fst rb) wd = Some (w, ls, wd')"
    "heap_run_handler lib heap_spec s h (new_writer (snd rb)) (fst rb) wd st = Some ((w, ls, wd'), st')" "own st'"
    by (metis prod_cases3)
  with Run show ?thesis by (simp add: heap_http_request_def http_request_def)
qed (use assms in \<open>simp_all add: heap_http_request_def http_request_def\<close>)

lemma serve_refines:
  assumes "own st" "GetBootSpec (srv_booter s) = boot_spec" "file_total (srv_booter s)"
  shows "\<exists>out st'. http_serve lib s rbs wd = Some out \<and> heap_http_serve lib heap_spec s rbs wd st = Some (out, st') \<and> own st'"
  using assms(1)
proof (induction rbs arbitrary: wd st)
  case (Cons rb rbs)
  from request_refines [OF Cons.prems assms(2,3)] obtain a ls wd' st1
    where "http_request lib s rb wd = Some (a, ls, wd')"
      "heap_http_request lib heap_spec s rb wd st = Some ((a, ls, wd'), st1)" and own: "own st1"
    by (metis prod_cases3)
  moreover from Cons.IH [OF own, of wd'] obtain as ls' wd2 st2
    where "http_serve lib s rbs wd' = Some (as, ls', wd2)"
      "heap_http_serve lib heap_spec s rbs wd' st1 = Some ((as, ls', wd2), st2)" "own st2" by (metis prod_cases3)
  ultimately show ?case by simp
qed simp

end

text \<open>The static booter keeps one \<open>BootSpec\<close> and hands out copies.\<close>

lemma static_hands_copy:
  assumes "reads st (hs_spec b) sp"
  shows "\<exists>p st' as ob. heap_static_BootSpec grow b hw wd st = Some (Inr p, wd, st') \<and>
    p = length (st_specs st) \<and> st_arrays st' = st_arrays st @ as \<and> st_specs st' = st_specs st @ [ob] \<and>
    reads st' p sp \<and> (s_len (o_initrd ob) = 0 \<or> length (st_arrays st) \<le> s_arr (o_initrd ob))"
proof -
  obtain st1 s where app: "append_strings grow st nil_slice (Initrd sp) = (st1, s)"
    by (cases "append_strings grow st nil_slice (Initrd sp)")
  note ok = append_strings_ok [OF app slice_ok_nil(1)] and fresh = append_nil [OF app]
  let ?o = "\<lparr>o_kernel = Kernel sp, o_initrd = s, o_cmdline = Cmdline sp\<rparr>"
  have "heap_static_BootSpec grow b hw wd st = Some (Inr (length (st_specs st)), wd, st1\<lparr>st_specs := st_specs st @ [?o]\<rparr>)"
    using assms app ok(3) by (simp add: heap_static_BootSpec_def reads_iff load_spec_def new_spec_def)
  moreover have "reads (st1\<lparr>st_specs := st_specs st @ [?o]\<rparr>) (length (st_specs st)) sp"
    using ok slice_ok_nil(2) by (simp add: reads_iff slice_ok_def elems_def)
  ultimately show ?thesis using fresh by auto
qed

interpretation heap_static: spec_source
  "heap_static_BootSpec grow b" "static_BootSpec sb" "\<lambda>st. reads st (hs_spec b) (spec sb)" for grow b sb
proof unfold_locales
  fix st hw wd e wd'
  assume "static_BootSpec sb hw wd = (Inl e, wd')"
  then show "\<exists>st'. heap_static_BootSpec grow b hw wd st = Some (Inl e, wd', st') \<and> reads st' (hs_spec b) (spec sb)"
    by (simp add: static_BootSpec_def)
next
  fix st hw wd sp wd'
  assume own: "reads st (hs_spec b) (spec sb)" and "static_BootSpec sb hw wd = (Inr sp, wd')"
  then have sp: "sp = spec sb" "wd' = wd" by (auto simp: static_BootSpec_def)
  from static_hands_copy [OF own, of grow hw wd] obtain p st' as o' where
    call: "heap_static_BootSpec grow b hw wd st = Some (Inr p, wd, st')" "p = length (st_specs st)"
    and st': "st_arrays st' = st_arrays st @ as" "st_specs st' = st_specs st @ [o']"
    and new: "reads st' p (spec sb)" "s_len (o_initrd o') = 0 \<or> length (st_arrays st) \<le> s_arr (o_initrd o')" by blast
  have keeps: "reads (write_spec p k xs st') (hs_spec b) (spec sb)" if len: "length xs = length (Initrd sp)" for k xs
  proof (rule reads_write_other [OF reads_alloc [OF own st'] new(1)])
    show "length xs = length (Initrd (spec sb))" using len sp by simp
    show "hs_spec b \<noteq> p" using own call(2) by (auto simp: reads_iff)
    show "xs = [] \<or> s_len (o_initrd (st_specs st' ! hs_spec b)) = 0 \<or>
      s_arr (o_initrd (st_specs st' ! hs_spec b)) \<noteq> s_arr (o_initrd (st_specs st' ! p))"
      using own new(2) reads_length [OF new(1)] len sp st'(2) call(2)
      by (auto simp: reads_iff slice_ok_def nth_append)
  qed
  with call new(1) sp show "\<exists>p st'. heap_static_BootSpec grow b hw wd st = Some (Inr p, wd', st') \<and> reads st' p sp \<and>
      (\<forall>k xs. length xs = length (Initrd sp) \<longrightarrow> reads (write_spec p k xs st') (hs_spec b) (spec sb))"
    by blast
qed

text \<open>The remote booter builds a new \<open>BootSpec\<close> in every call, element by element, and keeps
  nothing.\<close>

lemma push_initrd_reads:
  assumes "reads st p sp"
  shows "\<exists>st'. push_initrd grow p x st = Some st' \<and> reads st' p (sp\<lparr>Initrd := Initrd sp @ [x]\<rparr>) \<and>
    length (st_specs st') = length (st_specs st)"
proof -
  obtain st1 s where app: "append_strings grow st (o_initrd (st_specs st ! p)) [x] = (st1, s)"
    by (cases "append_strings grow st (o_initrd (st_specs st ! p)) [x]")
  have "slice_ok st (o_initrd (st_specs st ! p))" using assms by (simp add: reads_iff)
  note ok = append_strings_ok [OF app this]
  then show ?thesis
    using assms app by (auto simp: push_initrd_def reads_iff load_spec_def save_spec_def slice_ok_def elems_def)
qed

lemma push_ids_reads:
  "reads st p sp \<Longrightarrow> \<exists>st'. push_ids grow p is st = Some st' \<and>
     reads st' p (sp\<lparr>Initrd := Initrd sp @ map (\<lambda>i. itoa (int i)) is\<rparr>) \<and> length (st_specs st') = length (st_specs st)"
proof (induction "is" arbitrary: st sp)
  case (Cons i js)
  from push_initrd_reads [OF Cons.prems] obtain st1 where "push_initrd grow p (itoa (int i)) st = Some st1"
    "reads st1 p (sp\<lparr>Initrd := Initrd sp @ [itoa (int i)]\<rparr>)" "length (st_specs st1) = length (st_specs st)" by blast
  with Cons.IH [OF this(2)] show ?case by auto
qed simp

lemma heap_StaticBooter_reads:
  "\<exists>b st'. heap_StaticBooter grow kp ips cmd st = Some (b, st') \<and>
     reads st' (hs_spec b) (spec (StaticBooter kp ips cmd)) \<and> length (st_specs st') = Suc (length (st_specs st))"
proof -
  let ?st = "st\<lparr>st_specs := st_specs st @ [\<lparr>o_kernel = ''kernel'', o_initrd = nil_slice, o_cmdline = cmd\<rparr>]\<rparr>"
  have "reads ?st (length (st_specs st)) \<lparr>Kernel = ''kernel'', Initrd = [], Cmdline = cmd\<rparr>"
    by (simp add: reads_iff)
  from push_ids_reads [OF this, of grow "[0..<length ips]"] show ?thesis
    by (auto simp: heap_StaticBooter_def new_spec_def StaticBooter_def)
qed

lemma push_signed_reads:
  "reads st p sp \<Longrightarrow> signURLs lib b us wd = (r, wd') \<Longrightarrow>
     (case r of
        Inl e \<Rightarrow> \<exists>st'. push_signed grow lib b p us wd st = Some (Some e, wd', st')
      | Inr xs \<Rightarrow> \<exists>st'. push_signed grow lib b p us wd st = Some (None, wd', st') \<and>
          reads st' p (sp\<lparr>Initrd := Initrd sp @ xs\<rparr>))"
proof (induction us arbitrary: st sp wd r wd')
  case (Cons u us)
  show ?case
  proof (cases "signURL lib b u wd")
    case (Pair a wd1)
    show ?thesis
    proof (cases a)
      case (Inr x)
      from push_initrd_reads [OF Cons.prems(1)] obtain st1 where st1: "push_initrd grow p x st = Some st1"
        "reads st1 p (sp\<lparr>Initrd := Initrd sp @ [x]\<rparr>)" by blast
      obtain r1 wd2 where "signURLs lib b us wd1 = (r1, wd2)" by (cases "signURLs lib b us wd1")
      with Cons.IH [OF st1(2) this] Cons.prems(2) Pair Inr st1(1) show ?thesis
        by (auto split: sum.splits)
    qed (use Cons.prems Pair in auto)
  qed
qed auto

lemma remote_hands_new:
  assumes call: "remote_BootSpec lib b hw wd = (r, wd')"
  shows "case r of
      Inl e \<Rightarrow> \<exists>st'. heap_remote_BootSpec grow lib b hw wd st = Some (Inl e, wd', st')
    | Inr sp \<Rightarrow> \<exists>p st'. heap_remote_BootSpec grow lib b hw wd st = Some (Inr p, wd', st') \<and> reads st' p sp"
proof -
  have new: "reads (save_spec (length (st_specs st)) \<lparr>o_kernel = k, o_initrd = nil_slice, o_cmdline = c\<rparr>
      (st\<lparr>st_specs := st_specs st @ [ob]\<rparr>)) (length (st_specs st)) \<lparr>Kernel = k, Initrd = [], Cmdline = c\<rparr>" for k c ob
    by (simp add: reads_iff save_spec_def)
  obtain g wd1 where g: "getSpec lib b hw wd = (g, wd1)" by (cases "getSpec lib b hw wd")
  show ?thesis
  proof (cases g)
    case (Inr kic)
    obtain k i c where kic: "kic = (k, i, c)" by (cases kic)
    let ?ob = "\<lparr>o_kernel = [], o_initrd = nil_slice, o_cmdline = c\<rparr>"
    obtain a wd2 where a: "signURL lib b k wd1 = (a, wd2)" by (cases "signURL lib b k wd1")
    show ?thesis
    proof (cases a)
      case ka: (Inr x)
      obtain r1 wd3 where r1: "signURLs lib b i wd2 = (r1, wd3)" by (cases "signURLs lib b i wd2")
      with push_signed_reads [OF new [of x c ?ob] this, of grow] call g Inr kic a ka show ?thesis
        by (auto simp: remote_BootSpec_def heap_remote_BootSpec_def new_spec_def load_spec_def split: sum.splits)
    qed (use call g Inr kic a in \<open>auto simp: remote_BootSpec_def heap_remote_BootSpec_def new_spec_def\<close>)
  qed (use call g in \<open>auto simp: remote_BootSpec_def heap_remote_BootSpec_def\<close>)
qed

interpretation heap_remote: spec_source
  "heap_remote_BootSpec grow lib b" "remote_BootSpec lib b" "\<lambda>st. True" for grow lib b
proof unfold_locales
  fix st hw wd e wd'
  assume "remote_BootSpec lib b hw wd = (Inl e, wd')"
  from remote_hands_new [OF this, of grow st]
  show "\<exists>st'. heap_remote_BootSpec grow lib b hw wd st = Some (Inl e, wd', st') \<and> True" by simp
next
  fix st hw wd sp wd'
  assume "remote_BootSpec lib b hw wd = (Inr sp, wd')"
  from remote_hands_new [OF this, of grow st]
  show "\<exists>p st'. heap_remote_BootSpec grow lib b hw wd st = Some (Inr p, wd', st') \<and> reads st' p sp \<and>
      (\<forall>k xs. length xs = length (Initrd sp) \<longrightarrow> True)" by simp
qed

section \<open>Properties\<close>

text \<open>C8. The HTTP server with its pointers and slices answers every sequence of requests as the
  model with values does, for either booter, and however the runtime grows slices: no index or
  pointer is ever bad, and the configurations it writes in place never reach the \<open>BootSpec\<close> the
  static booter keeps, which still has its contents at the end.\<close>

theorem store_serves_alike:
  "(\<exists>b st1 st2 out. heap_StaticBooter grow kp ips cmd st = Some (b, st1) \<and>
      http_serve lib
        \<lparr>srv_booter = static_booter lib (StaticBooter kp ips cmd), ldlinux = l, srv_key = k\<rparr> rbs wd = Some out \<and>
      heap_http_serve lib (heap_static_BootSpec grow b)
        \<lparr>srv_booter = static_booter lib (StaticBooter kp ips cmd), ldlinux = l, srv_key = k\<rparr> rbs wd st1 = Some (out, st2) \<and>
      spec_value st2 (hs_spec b) = Some (spec (StaticBooter kp ips cmd))) \<and>
   (\<exists>st2 out.
      http_serve lib \<lparr>srv_booter = remote_booter lib rb, ldlinux = l, srv_key = k\<rparr> rbs wd = Some out \<and>
      heap_http_serve lib (heap_remote_BootSpec grow lib rb)
        \<lparr>srv_booter = remote_booter lib rb, ldlinux = l, srv_key = k\<rparr> rbs wd st = Some (out, st2))"
proof -
  let ?s = "\<lparr>srv_booter = static_booter lib (StaticBooter kp ips cmd), ldlinux = l, srv_key = k\<rparr>"
  let ?r = "\<lparr>srv_booter = remote_booter lib rb, ldlinux = l, srv_key = k\<rparr>"
  obtain b st1 where st1: "heap_StaticBooter grow kp ips cmd st = Some (b, st1)"
    "reads st1 (hs_spec b) (spec (StaticBooter kp ips cmd))" using heap_StaticBooter_reads by blast
  have "GetBootSpec (srv_booter ?s) = static_BootSpec (StaticBooter kp ips cmd)" "file_total (srv_booter ?s)"
    by (simp add: static_booter_def) (simp add: booters_total)
  from heap_static.serve_refines [where s = ?s, OF st1(2) this] obtain out st2 where
    st2: "http_serve lib ?s rbs wd = Some out" "heap_http_serve lib (heap_static_BootSpec grow b) ?s rbs wd st1 = Some (out, st2)"
    "reads st2 (hs_spec b) (spec (StaticBooter kp ips cmd))" by blast
  have "GetBootSpec (srv_booter ?r) = remote_BootSpec lib rb" "file_total (srv_booter ?r)"
    by (simp add: remote_booter_def) (simp add: booters_total)
  from heap_remote.serve_refines [where s = ?r, OF TrueI this]
  have "\<exists>out st2. http_serve lib ?r rbs wd = Some out \<and>
      heap_http_serve lib (heap_remote_BootSpec grow lib rb) ?r rbs wd st = Some (out, st2)" by blast
  with st1(1) st2 show ?thesis unfolding reads_def by blast
qed

end
