(* ===== verification/Config_Race.thy ===== *)
theory Config_Race
  imports Initrd_Store
begin

text \<open>
  Requests for configurations at the same time. \<open>net/http\<close> runs every request in a goroutine of
  its own, so calls of \<open>PxelinuxConfig\<close> (\<open>src/http/http.go\<close>) interleave on one booter and one
  store. A task is a call that has read its MAC address; a schedule says whose turn it is; a turn
  is a call of \<open>BootSpec\<close> or an assignment of the handler.
\<close>

section \<open>Tasks and schedules\<close>

datatype task = Asked mac | GotSpec nat | Encoding nat "nat list" | Told string

fun task_move ::
  "heap_specs \<Rightarrow> world \<Rightarrow> task \<Rightarrow> store \<Rightarrow> (task \<times> store) option" where
  "task_move bootSpec wd (Asked hw) st = do {
     (res, wd, st) \<leftarrow> bootSpec hw wd st;
     Some (case res of Inl e \<Rightarrow> Told bootFromDisk | Inr p \<Rightarrow> GotSpec p, st)
   }"
| "task_move bootSpec wd (GotSpec p) st = do {
     st \<leftarrow> encode_kernel p st;
     is \<leftarrow> range_initrd p st;
     Some (Encoding p is, st)
   }"
| "task_move bootSpec wd (Encoding p (i # is)) st = do {
     st \<leftarrow> encode_at p i st;
     Some (Encoding p is, st)
   }"
| "task_move bootSpec wd (Encoding p []) st = do {
     sp \<leftarrow> spec_value st p;
     Some (Told (pxelinux_cfg sp), st)
   }"
| "task_move bootSpec wd (Told c) st = Some (Told c, st)"

fun race :: "heap_specs \<Rightarrow> world \<Rightarrow> nat list \<Rightarrow> task list \<Rightarrow> store \<Rightarrow> (task list \<times> store) option" where
  "race bootSpec wd [] ts st = Some (ts, st)"
| "race bootSpec wd (j # js) ts st =
     (if j < length ts then do {
        (t, st) \<leftarrow> task_move bootSpec wd (ts ! j) st;
        race bootSpec wd js (ts[j := t]) st
      }
      else race bootSpec wd js ts st)"

fun told :: "task \<Rightarrow> string option" where
  "told (Told c) = Some c"
| "told _ = None"

section \<open>Separation\<close>

text \<open>Every slice with elements has an array, and no two are in the same one.\<close>

definition separate :: "store \<Rightarrow> bool" where
  "separate st \<longleftrightarrow>
     (\<forall>p < length (st_specs st). 0 < s_len (o_initrd (st_specs st ! p)) \<longrightarrow>
        s_arr (o_initrd (st_specs st ! p)) < length (st_arrays st)) \<and>
     (\<forall>p < length (st_specs st). \<forall>q < length (st_specs st). p \<noteq> q \<longrightarrow>
        0 < s_len (o_initrd (st_specs st ! p)) \<longrightarrow> 0 < s_len (o_initrd (st_specs st ! q)) \<longrightarrow>
        s_arr (o_initrd (st_specs st ! p)) \<noteq> s_arr (o_initrd (st_specs st ! q)))"

lemma separate_write: "p < length (st_specs st) \<Longrightarrow> separate st \<Longrightarrow> separate (write_spec p k xs st)"
  unfolding separate_def write_spec_def Let_def by (simp add: nth_list_update)

lemma separate_alloc:
  assumes "separate st" "st_arrays st' = st_arrays st @ as" "st_specs st' = st_specs st @ [ob]"
    "slice_ok st' (o_initrd ob)" "s_len (o_initrd ob) = 0 \<or> length (st_arrays st) \<le> s_arr (o_initrd ob)"
  shows "separate st'"
  using assms unfolding separate_def by (fastforce simp: nth_append slice_ok_def less_Suc_eq)

lemma reads_write_apart:
  assumes "separate st" "reads st p sp" "reads st q sp'" "q \<noteq> p" "length xs = length (Initrd sp)"
  shows "reads (write_spec p k xs st) q sp'"
proof (rule reads_write_other [OF assms(3,2,5,4)])
  have "p < length (st_specs st)" "q < length (st_specs st)" using assms(2,3) by (simp_all add: reads_iff)
  then have "s_len (o_initrd (st_specs st ! p)) = 0 \<or> s_len (o_initrd (st_specs st ! q)) = 0 \<or>
      s_arr (o_initrd (st_specs st ! q)) \<noteq> s_arr (o_initrd (st_specs st ! p))"
    using assms(1,4) by (metis neq0_conv separate_def)
  then show "xs = [] \<or> s_len (o_initrd (st_specs st ! q)) = 0 \<or>
      s_arr (o_initrd (st_specs st ! q)) \<noteq> s_arr (o_initrd (st_specs st ! p))"
    using reads_length [OF assms(2)] assms(5) by auto
qed

section \<open>The invariant\<close>

text \<open>Where a task is after \<open>c\<close> turns, and what its pointer then leads to.\<close>

definition half_encoded :: "BootSpec \<Rightarrow> nat \<Rightarrow> BootSpec" where
  "half_encoded sp i = sp\<lparr>Kernel := encode_id (Kernel sp),
     Initrd := map encode_id (take i (Initrd sp)) @ drop i (Initrd sp)\<rparr>"

fun at_move :: "BootSpec \<Rightarrow> store \<Rightarrow> task \<Rightarrow> nat \<Rightarrow> bool" where
  "at_move sp st (Asked hw) c \<longleftrightarrow> c = 0"
| "at_move sp st (GotSpec p) c \<longleftrightarrow> c = 1 \<and> reads st p sp"
| "at_move sp st (Encoding p is) c \<longleftrightarrow> 2 \<le> c \<and> c \<le> length (Initrd sp) + 2 \<and>
     is = [c - 2..<length (Initrd sp)] \<and> reads st p (half_encoded sp (c - 2))"
| "at_move sp st (Told cfg) c \<longleftrightarrow> length (Initrd sp) + 3 \<le> c \<and> cfg = pxelinux_cfg (encode_spec sp)"

fun task_ptr :: "task \<Rightarrow> nat option" where
  "task_ptr (GotSpec p) = Some p"
| "task_ptr (Encoding p _) = Some p"
| "task_ptr _ = None"

definition race_inv :: "heapStatic \<Rightarrow> BootSpec \<Rightarrow> (nat \<Rightarrow> nat) \<Rightarrow> task list \<Rightarrow> store \<Rightarrow> bool" where
  "race_inv b sp cs ts st \<longleftrightarrow> separate st \<and> reads st (hs_spec b) sp \<and>
     (\<forall>j < length ts. at_move sp st (ts ! j) (cs j) \<and> task_ptr (ts ! j) \<noteq> Some (hs_spec b)) \<and>
     (\<forall>i < length ts. \<forall>j < length ts. \<forall>p. i \<noteq> j \<longrightarrow> task_ptr (ts ! i) = Some p \<longrightarrow> task_ptr (ts ! j) \<noteq> Some p)"

lemma at_move_reads: "at_move sp st t c \<Longrightarrow> task_ptr t = Some p \<Longrightarrow> \<exists>sp'. reads st p sp'"
  by (cases t) auto

lemma at_move_keep:
  "at_move sp st t c \<Longrightarrow> (\<And>p sp'. task_ptr t = Some p \<Longrightarrow> reads st p sp' \<Longrightarrow> reads st' p sp') \<Longrightarrow> at_move sp st' t c"
  by (cases t) auto

lemma race_inv_step:
  assumes inv: "race_inv b sp cs ts st" and j: "j < length ts" and sep: "separate st'"
    and keep: "\<And>q sp'. reads st q sp' \<Longrightarrow> task_ptr (ts ! j) \<noteq> Some q \<Longrightarrow> reads st' q sp'"
    and moved: "at_move sp st' t (Suc (cs j))"
    and own: "\<And>p. task_ptr t = Some p \<Longrightarrow> task_ptr (ts ! j) = Some p \<or> p = length (st_specs st)"
  shows "race_inv b sp (cs(j := Suc (cs j))) (ts[j := t]) st'"
proof -
  have tasks: "at_move sp st (ts ! i) (cs i)" and nb: "task_ptr (ts ! i) \<noteq> Some (hs_spec b)" if "i < length ts" for i
    using inv that by (simp_all add: race_inv_def)
  have dist: "task_ptr (ts ! k) \<noteq> Some p" if "i < length ts" "k < length ts" "i \<noteq> k" "task_ptr (ts ! i) = Some p" for i k p
    using inv that unfolding race_inv_def by blast
  have kept: "at_move sp st' (ts ! i) (cs i)" if i: "i < length ts" "i \<noteq> j" for i
    by (rule at_move_keep [OF tasks [OF i(1)]]) (use keep dist [OF i(1) j i(2)] in blast)
  have known: "p < length (st_specs st)" if "i < length ts" "task_ptr (ts ! i) = Some p" for i p
    using at_move_reads [OF tasks [OF that(1)] that(2)] by (auto simp: reads_iff)
  have "reads st (hs_spec b) sp" using inv by (simp add: race_inv_def)
  then have base: "reads st' (hs_spec b) sp" "hs_spec b < length (st_specs st)"
    using keep nb [OF j] by (auto simp: reads_iff)
  have new: "task_ptr t \<noteq> Some (hs_spec b)"
    using own [of "hs_spec b"] nb [OF j] base(2) by auto
  have apart: "task_ptr t \<noteq> Some p" if "i < length ts" "i \<noteq> j" "task_ptr (ts ! i) = Some p" for i p
    using own [of p] known [OF that(1,3)] dist [OF that(1) j that(2,3)] by auto
  have "task_ptr (ts[j := t] ! k) \<noteq> Some p"
    if "i < length ts" "k < length ts" "i \<noteq> k" "task_ptr (ts[j := t] ! i) = Some p" for i k p
    using that apart dist [of i k p] by (cases "i = j"; cases "k = j") auto
  moreover have "at_move sp st' (ts[j := t] ! i) ((cs(j := Suc (cs j))) i)" "task_ptr (ts[j := t] ! i) \<noteq> Some (hs_spec b)"
    if "i < length ts" for i
    using that kept moved nb new by (cases "i = j"; simp)+
  ultimately show ?thesis
    unfolding race_inv_def using sep base(1) by simp
qed

text \<open>A turn of a task never fails and keeps the invariant.\<close>

lemma half_encoded_spec [simp]:
  "length (Initrd (half_encoded sp i)) = length (Initrd sp)" "Kernel (half_encoded sp i) = encode_id (Kernel sp)"
  "half_encoded sp 0 = sp\<lparr>Kernel := encode_id (Kernel sp), Initrd := Initrd sp\<rparr>"
  "half_encoded sp (length (Initrd sp)) = encode_spec sp"
  by (simp_all add: half_encoded_def encode_spec_def)

lemma half_encoded_Suc:
  "i < length (Initrd sp) \<Longrightarrow> half_encoded sp (Suc i) = half_encoded sp i
     \<lparr>Kernel := encode_id (Kernel sp),
      Initrd := (Initrd (half_encoded sp i))[i := encode_id (Initrd (half_encoded sp i) ! i)]\<rparr>"
  by (simp add: half_encoded_def list_update_append nth_append take_Suc_conv_app_nth Cons_nth_drop_Suc [symmetric])

lemma task_write_inv:
  assumes inv: "race_inv b sp cs ts st" and j: "j < length ts" and p: "task_ptr (ts ! j) = Some p" "reads st p sp'"
    and xs: "length xs = length (Initrd sp')" and t: "task_ptr t = Some p"
    and moved: "at_move sp (write_spec p k xs st) t (Suc (cs j))"
  shows "race_inv b sp (cs(j := Suc (cs j))) (ts[j := t]) (write_spec p k xs st)"
proof (rule race_inv_step [OF inv j])
  have sep: "separate st" using inv by (simp add: race_inv_def)
  then show "separate (write_spec p k xs st)" using p(2) by (simp add: separate_write reads_iff)
  show "reads (write_spec p k xs st) q sq" if "reads st q sq" "task_ptr (ts ! j) \<noteq> Some q" for q sq
    using reads_write_apart [OF sep p(2) that(1) _ xs] that(2) p(1) by blast
qed (use moved t p in simp_all)

lemma encoding_move:
  assumes "at_move sp st (Encoding p (i # is)) c"
  shows "i = c - 2" "i < length (Initrd sp)" "is = [Suc i..<length (Initrd sp)]"
    "reads st p (half_encoded sp i)" "c = i + 2"
proof -
  have "[c - 2..<length (Initrd sp)] = i # is" using assms by simp
  then have ids: "c - 2 < length (Initrd sp)" "c - 2 = i" "[c - 2 + 1..<length (Initrd sp)] = is"
    unfolding upt_eq_Cons_conv by blast+
  then show "i = c - 2" "i < length (Initrd sp)" "is = [Suc i..<length (Initrd sp)]" by simp_all
  have "2 \<le> c" using assms by simp
  then show "c = i + 2" using ids(2) by linarith
  show "reads st p (half_encoded sp i)" using assms ids(2) by simp
qed

lemma encoding_done:
  assumes "at_move sp st (Encoding p []) c"
  shows "c = length (Initrd sp) + 2" "reads st p (encode_spec sp)"
proof -
  have "[c - 2..<length (Initrd sp)] = []" using assms by simp
  then have "length (Initrd sp) \<le> c - 2" by (auto simp: upt_eq_Nil_conv)
  moreover have "2 \<le> c" "c \<le> length (Initrd sp) + 2" using assms by simp_all
  ultimately show "c = length (Initrd sp) + 2" by linarith
  then show "reads st p (encode_spec sp)" using assms by simp
qed

lemma asked_move:
  assumes inv: "race_inv b sp cs ts st" and j: "j < length ts" and t: "ts ! j = Asked hw"
  shows "\<exists>p st'. heap_static_BootSpec grow b hw wd st = Some (Inr p, wd, st') \<and>
    race_inv b sp (cs(j := Suc (cs j))) (ts[j := GotSpec p]) st'"
proof -
  have base: "reads st (hs_spec b) sp" and sep: "separate st" and c: "cs j = 0"
    using inv j t by (auto simp: race_inv_def)
  from static_hands_copy [OF base, of grow hw wd] obtain p st' as ob where
    call: "heap_static_BootSpec grow b hw wd st = Some (Inr p, wd, st')" "p = length (st_specs st)"
    and st': "st_arrays st' = st_arrays st @ as" "st_specs st' = st_specs st @ [ob]" and new: "reads st' p sp"
    "s_len (o_initrd ob) = 0 \<or> length (st_arrays st) \<le> s_arr (o_initrd ob)" by blast
  have "race_inv b sp (cs(j := Suc (cs j))) (ts[j := GotSpec p]) st'"
  proof (rule race_inv_step [OF inv j])
    show "separate st'"
      by (rule separate_alloc [OF sep st']) (use new call(2) st'(2) in \<open>simp_all add: reads_iff\<close>)
    show "reads st' q sq" if "reads st q sq" for q sq using reads_alloc [OF that st'] .
  qed (use new(1) call(2) c t in simp_all)
  with call(1) show ?thesis by blast
qed

lemma task_move_inv:
  assumes inv: "race_inv b sp cs ts st" and j: "j < length ts"
  shows "\<exists>t st'. task_move (heap_static_BootSpec grow b) wd (ts ! j) st = Some (t, st') \<and>
    race_inv b sp (cs(j := Suc (cs j))) (ts[j := t]) st'"
proof -
  have at: "at_move sp st (ts ! j) (cs j)" and sep: "separate st" using inv j by (simp_all add: race_inv_def)
  show ?thesis
  proof (cases "ts ! j")
    case (Asked hw)
    from asked_move [OF inv j Asked] obtain p st' where "heap_static_BootSpec grow b hw wd st = Some (Inr p, wd, st')"
      "race_inv b sp (cs(j := Suc (cs j))) (ts[j := GotSpec p]) st'" by blast
    with Asked show ?thesis by simp
  next
    case (GotSpec p)
    with at have p: "reads st p sp" "cs j = 1" by auto
    let ?st = "write_spec p (encode_id (Kernel sp)) (Initrd sp) st"
    have "reads ?st p (half_encoded sp 0)" using reads_write_spec [OF p(1), of "Initrd sp"] by simp
    moreover from this have "range_initrd p ?st = Some [0..<length (Initrd sp)]"
      using reads_length by (fastforce simp: range_initrd_def load_spec_def reads_iff)
    ultimately show ?thesis
      using task_write_inv [OF inv j _ p(1) refl, of "Encoding p [0..<length (Initrd sp)]" "encode_id (Kernel sp)"] GotSpec p
      by (simp add: encode_kernel_write)
  next
    case (Encoding p ids)
    show ?thesis
    proof (cases ids)
      case Nil
      note fin = encoding_done [OF at [unfolded Encoding Nil]]
      then have "task_move (heap_static_BootSpec grow b) wd (ts ! j) st = Some (Told (pxelinux_cfg (encode_spec sp)), st)"
        by (simp add: Encoding Nil reads_def)
      then show ?thesis
        using race_inv_step [OF inv j sep, of "Told (pxelinux_cfg (encode_spec sp))"] fin(1) by simp
    next
      case (Cons i js)
      note m = encoding_move [OF at [unfolded Encoding Cons]]
      let ?xs = "(Initrd (half_encoded sp i))[i := encode_id (Initrd (half_encoded sp i) ! i)]"
      let ?st = "write_spec p (encode_id (Kernel sp)) ?xs st"
      have "encode_at p i st = Some ?st" using encode_at_write [OF m(4)] m(2) by simp
      moreover have "reads ?st p (half_encoded sp (Suc i))"
        using reads_write_spec [OF m(4), of ?xs] half_encoded_Suc [OF m(2)] by simp
      ultimately show ?thesis
        using task_write_inv [OF inv j _ m(4), of ?xs "Encoding p js" "encode_id (Kernel sp)"] Encoding Cons m(2,3,5)
        by simp
    qed
  next
    case (Told cfg)
    with at show ?thesis using race_inv_step [OF inv j sep, of "Told cfg"] by simp
  qed
qed

lemma race_runs:
  "race_inv b sp cs ts st \<Longrightarrow>
     \<exists>ts' st' cs'. race (heap_static_BootSpec grow b) wd js ts st = Some (ts', st') \<and> race_inv b sp cs' ts' st' \<and>
       length ts' = length ts \<and> (\<forall>i < length ts. cs' i = cs i + count_list js i)"
proof (induction js arbitrary: cs ts st)
  case (Cons j js)
  show ?case
  proof (cases "j < length ts")
    case True
    from task_move_inv [OF Cons.prems True] obtain t st1 where
      t: "task_move (heap_static_BootSpec grow b) wd (ts ! j) st = Some (t, st1)"
      and inv: "race_inv b sp (cs(j := Suc (cs j))) (ts[j := t]) st1" by blast
    from Cons.IH [OF inv] obtain ts' st' cs' where
      "race (heap_static_BootSpec grow b) wd js (ts[j := t]) st1 = Some (ts', st')" "race_inv b sp cs' ts' st'"
      "length ts' = length ts" "\<forall>i < length ts. cs' i = (cs(j := Suc (cs j))) i + count_list js i" by auto
    with t True show ?thesis
      by (intro exI [of _ ts'] exI [of _ st'] exI [of _ cs']) simp
  next
    case False
    with Cons.IH [OF Cons.prems] show ?thesis by auto
  qed
qed auto

lemma at_move_told:
  "at_move sp st t c \<Longrightarrow> told t = (if length (Initrd sp) + 3 \<le> c then Some (pxelinux_cfg (encode_spec sp)) else None)"
  by (cases t) auto

section \<open>Properties\<close>

text \<open>C6. Configurations served at the same time do not disturb each other: for every number of
  requests to a static booter and every interleaving of their handlers, no handler fails, and each
  that has had a turn for every step of its own, which is one per initrd and three more, has sent
  exactly the configuration of the booter's files. The others have sent nothing yet.\<close>

theorem configs_race_free:
  "\<exists>b st0 ts st. heap_StaticBooter grow kp ips cmd \<lparr>st_arrays = [], st_specs = []\<rparr> = Some (b, st0) \<and>
     race (heap_static_BootSpec grow b) wd sched (map Asked macs) st0 = Some (ts, st) \<and>
     map told ts = map (\<lambda>j. if length ips + 3 \<le> count_list sched j
       then Some (pxelinux_cfg (encode_spec (spec (StaticBooter kp ips cmd)))) else None) [0..<length macs]"
proof -
  let ?sp = "spec (StaticBooter kp ips cmd)"
  obtain b st0 where st0: "heap_StaticBooter grow kp ips cmd \<lparr>st_arrays = [], st_specs = []\<rparr> = Some (b, st0)"
    "reads st0 (hs_spec b) ?sp" "length (st_specs st0) = 1"
    using heap_StaticBooter_reads [of grow kp ips cmd "\<lparr>st_arrays = [], st_specs = []\<rparr>"] by auto
  then have "separate st0" by (auto simp: separate_def reads_iff slice_ok_def)
  with st0 have "race_inv b ?sp (\<lambda>_. 0) (map Asked macs) st0" by (simp add: race_inv_def)
  from race_runs [OF this, of grow wd sched] obtain ts st cs where
    run: "race (heap_static_BootSpec grow b) wd sched (map Asked macs) st0 = Some (ts, st)"
    and inv: "race_inv b ?sp cs ts st" and cs: "length ts = length macs" "\<forall>i < length macs. cs i = count_list sched i"
    by auto
  have n: "length (Initrd ?sp) = length ips" by (simp add: StaticBooter_def)
  have "told (ts ! j) = (if length ips + 3 \<le> count_list sched j then Some (pxelinux_cfg (encode_spec ?sp)) else None)"
    if "j < length macs" for j
    using inv cs that at_move_told [of ?sp st "ts ! j" "cs j"] n by (simp add: race_inv_def)
  then have "map told ts = map (\<lambda>j. if length ips + 3 \<le> count_list sched j
      then Some (pxelinux_cfg (encode_spec ?sp)) else None) [0..<length macs]"
    using cs(1) by (intro nth_equalityI) simp_all
  with st0(1) run show ?thesis by blast
qed

end
