(* ===== verification/Spec2Isabelle.thy ===== *)
theory Spec2Isabelle
  imports Boot_Chain Example_Server Pixiecore_System Tftp_Causality Tftp_Deadline Config_Race
begin

text \<open>
  Pixiecore: a server that boots machines over the network.

  \<^bold>\<open>The program.\<close> A machine without an operating system broadcasts a DHCP discovery. The
  ProxyDHCP server (\<open>src/dhcp/dhcp.go\<close>) asks the booter (\<open>src/api/api.go\<close>) whether the machine
  should boot and offers a boot menu. The machine selects the menu entry at the PXE server
  (\<open>src/pxe/pxe.go\<close>), which names a boot file and, as a path prefix, the HTTP server. The TFTP
  server (\<open>src/tftp/tftp.go\<close>) sends pxelinux whatever the file name is. Pxelinux fetches its
  second stage, its configuration, the kernel and the initrds from the HTTP server
  (\<open>src/http/http.go\<close>), which gets the boot specification and the files from the booter: files
  on disk in static mode, URLs of an API server in API mode. \<open>src/pixiecore/pixiecore.go\<close> reads
  the flags and starts the four servers; \<open>src/log/logging.go\<close> prints their messages;
  \<open>src/assets/pxelinux_autogen.go\<close> holds the pxelinux binaries; \<open>src/example/main.go\<close> is an
  example of an API server.

  \<^bold>\<open>Conventions.\<close> A Go byte slice is a list of 8-bit words, a Go string a list of characters of
  one byte. A function that may panic returns an option, \<open>None\<close> being the panic; a pair of a
  value and an error is a sum with the error on the left. A slice expression and an index are
  \<open>go_slice\<close>, \<open>go_from\<close> and \<open>go_index\<close>, which panic out of range. Block numbers and lengths on
  the wire keep their widths of 16 and 8 bits. State is passed explicitly: \<open>world\<close> holds what the
  random source delivers, how URLs are answered, the files, and the URLs requested and the paths
  opened so far. An answer to a URL is what \<open>http.Get\<close> returns in the end, redirects followed.
  Library code outside the repository (secretbox, JSON, gzip, the verb \<open>%q\<close>, the parts of
  \<open>url.Parse\<close> behind the scheme) is a field of \<open>golib\<close> or \<open>assets_env\<close>; what a theorem needs of
  it is a named hypothesis (\<open>box_correct\<close>, \<open>box_authentic\<close>, \<open>gz_ok\<close>).

  \<^bold>\<open>Theories.\<close>
  \<^item> \<open>Go_Prelude\<close>, \<open>Go_Text\<close>, \<open>Go_Net\<close>, \<open>Go_Io\<close>, \<open>Go_Http\<close>, \<open>Url_Base64\<close>: what the program uses of
    the language and its library, with the locale \<open>codec\<close> (interpreted for 16-bit numbers,
    decimal numbers, hardware addresses and base64).
  \<^item> \<open>Logging\<close>: \<open>LogEntry\<close>, \<open>Log\<close>, \<open>Debug\<close>, \<open>RecordLogs\<close>.
  \<^item> \<open>Dhcp_Options\<close>, \<open>Dhcp_Packet\<close>, \<open>Dhcp_Server\<close>: \<open>DhcpOption\<close> (locale \<open>option_stream\<close>), \<open>ParseDHCP\<close>,
    \<open>OfferDHCP\<close>, \<open>InterfaceIP\<close>, \<open>ServeProxyDHCP\<close>. Parsing accepts exactly the packets of a
    declarative predicate, an offer reads back, the address chosen is the best one.
  \<^item> \<open>Pxe_Server\<close>: the same for \<open>ParsePXE\<close>, \<open>ReplyPXE\<close>, \<open>ServePXE\<close>.
  \<^item> \<open>Udp_Server\<close>: the receive loop the three UDP servers share. The locale \<open>udp_server\<close> states
    that a turn returns and answers like a function of the datagram alone; it is interpreted for
    each server, so the loops refine a stateless specification.
  \<^item> \<open>Boot_Api\<close>: \<open>RemoteBooter\<close> and \<open>StaticBooter\<close>, and the locale \<open>booter_contract\<close> with both as
    interpretations.
  \<^item> \<open>Tftp_Packet\<close>, \<open>Tftp_Transfer\<close>, \<open>Tftp_Delivery\<close>: requests and errors, \<open>sendPacket\<close> and \<open>transfer\<close>,
    and what a transfer achieves: a receiver has a prefix of the file at any time and the
    whole file when the server reports success; with a client that answers in time the
    transfer ends. \<open>Tftp_Deadline\<close>: \<open>sendPacket\<close> on a connection with a clock and the read deadline
    it sets; it returns within five seconds whatever arrives, and it refines the operation on
    lists of read results. \<open>Tftp_Causality\<close>: further reads never change what a transfer has done, which
    is what makes a list of reads a faithful picture of a goroutine that waits for them.
  \<^item> \<open>Http_Server\<close>: the handlers, the routes and \<open>ServeHTTP\<close>; a configuration reads back to the
    booter's specification and its paths lead to the booter's files.
  \<^item> \<open>Initrd_Store\<close>: boot specifications behind pointers and slices. The locale \<open>spec_source\<close> says
    that a booter keeps nothing it hands out; with it the handlers that write in place refine the
    ones of \<open>Http_Server\<close>, for both booters.
  \<^item> \<open>Config_Race\<close>: configuration requests interleaved step by step on that store; every schedule
    gives every client the configuration of the booter's files.
  \<^item> \<open>Bindata_Assets\<close>, \<open>Pixiecore_Main\<close>, \<open>Example_Server\<close>: the embedded files, flags and \<open>main\<close>, the
    example API server together with a remote booter.
  \<^item> \<open>Boot_Chain\<close>: the servers of one run of \<open>main\<close> together, from any acceptable discovery and
    selection of one machine to the kernel and the initrds.
  \<^item> \<open>Pixiecore_System\<close>: the four servers and the transfers as a transition system over one world.
    No reachable state makes a server panic, the HTTP server included, and in API mode only URLs of the API server and URLs
    it named are ever fetched.

  \<^bold>\<open>Loops, bounds and fuel.\<close> Loops over a packet end because each option takes at least one byte.
  A server's endless loop is run over the list of events it receives. The reads of a transfer are
  a list as well; a run that has used all of them is \<open>Waiting\<close>, and every block that is sent
  consumes at least one read, which is the termination measure of \<open>transfer_loop\<close>. \<open>RestoreAssets\<close>
  has the depth of the recursion as fuel; 2 is shown to be enough for every name.

  \<^bold>\<open>Not modelled.\<close> Sockets and goroutines are inputs: the order of events, failing reads and
  writes. Time is modelled for \<open>sendPacket\<close> alone. A successful read of the DHCP and PXE sockets
  has an interface index and a UDP address, because \<open>SetControlMessage\<close> has succeeded before the
  loop starts and the packages document both for every datagram then; a nil control message has
  no event. The error with which a server ends is its result; that \<open>main\<close> prints it and
  exits through \<open>log.Fatalln\<close> is left out. The steps of \<open>Pixiecore_System\<close> are whole turns of a server, whole HTTP
  requests and single reads of a transfer; only \<open>PxelinuxConfig\<close>, the one handler that writes to
  memory it did not allocate itself, is interleaved more finely. The redirect and not-found pages
  of the default mux are results without a body. \<open>flag.Parse\<close> and the usage text, the two
  compressed literals and the default hooks of the TFTP package (replaced by \<open>main\<close>) are left out.
\<close>

end
